(* ===== verification/Prelude.thy ===== *)
theory Prelude
  imports "HOL-Library.Word" "HOL-Library.AList" "HOL-Library.Multiset"
begin

unbundle bit_operations_syntax

text \<open>
  Shared vocabulary of the development: the machine integers of the Rust code as words,
  the saturating and checked arithmetic the code uses, the composition of fallible
  state-passing operations (Rust's question mark operator), the interface of a preorder
  that every operation of a component respects, and the collections the component proofs
  extend.
\<close>

named_theorems evo_intros \<open>operations that respect the life cycle of jobs\<close>

section \<open>Machine integers\<close>

type_synonym u8 = "8 word"
type_synonym u16 = "16 word"
type_synonym u32 = "32 word"
type_synonym u64 = "64 word"
type_synonym i32 = "32 word"  \<comment> \<open>read with \<open>sint\<close>\<close>
type_synonym i64 = "64 word"  \<comment> \<open>read with \<open>sint\<close>\<close>
type_synonym usize = "64 word"

text \<open>The largest value of a width, and Rust's \<open>saturating_add\<close>, \<open>saturating_sub\<close>,
  \<open>checked_add\<close> and \<open>checked_mul\<close> on unsigned integers.\<close>

definition sat_add :: "'l::len word \<Rightarrow> 'l word \<Rightarrow> 'l word" where
  "sat_add a b = (if unat a + unat b < 2 ^ LENGTH('l) then a + b else - 1)"

definition sat_sub :: "'l::len word \<Rightarrow> 'l word \<Rightarrow> 'l word" where
  "sat_sub a b = (if a < b then 0 else a - b)"

definition checked_add :: "'l::len word \<Rightarrow> 'l word \<Rightarrow> 'l word option" where
  "checked_add a b = (if unat a + unat b < 2 ^ LENGTH('l) then Some (a + b) else None)"

definition checked_mul :: "'l::len word \<Rightarrow> 'l word \<Rightarrow> 'l word option" where
  "checked_mul a b = (if unat a * unat b < 2 ^ LENGTH('l) then Some (a * b) else None)"

lemma unat_sat_add:
  "unat (sat_add a b) = min (unat a + unat b) (2 ^ LENGTH('l) - 1)" for a b :: "'l::len word"
proof (cases "unat a + unat b < 2 ^ LENGTH('l)")
  case True
  then have "unat (a + b) = unat a + unat b" by (simp add: unat_word_ariths)
  with True show ?thesis by (simp add: sat_add_def)
next
  case False
  have "unat (- 1 :: 'l word) = 2 ^ LENGTH('l) - 1"
    by (simp add: unsigned_minus_1_eq_mask mask_eq_exp_minus_1)
  with False show ?thesis by (simp add: sat_add_def)
qed

lemma unat_sat_sub: "unat (sat_sub a b) = unat a - unat b"
  by (simp add: sat_sub_def word_less_nat_alt unat_sub word_le_nat_alt)

lemma checked_add_Some:
  "checked_add a b = Some c \<Longrightarrow> unat c = unat a + unat b"
  by (auto simp: checked_add_def unat_word_ariths split: if_splits)

lemma checked_mul_Some:
  "checked_mul a b = Some c \<Longrightarrow> unat c = unat a * unat b"
  by (auto simp: checked_mul_def unat_word_ariths split: if_splits)

lemma checked_add_iff:
  "checked_add a b = Some c \<longleftrightarrow> unat c = unat a + unat b" for a b c :: "'l::len word"
proof
  assume "unat c = unat a + unat b"
  moreover have "unat c < 2 ^ LENGTH('l)" by simp
  ultimately have lt: "unat a + unat b < 2 ^ LENGTH('l)" by simp
  then have "unat (a + b) = unat c" using \<open>unat c = unat a + unat b\<close>
    by (simp add: unat_word_ariths)
  then have "a + b = c" by (simp only: word_unat_eq_iff)
  with lt show "checked_add a b = Some c" by (simp add: checked_add_def)
qed (rule checked_add_Some)

section \<open>Fallible state-passing operations\<close>

text \<open>
  An operation of the code takes the world and returns a result (\<open>Inl\<close> an error,
  \<open>Inr\<close> a value) with the new world. \<open>bindE\<close> is the question mark operator: an
  error stops the function and keeps the world reached so far. \<open>let _ = f()\<close> is
  \<open>snd (f w)\<close>.
\<close>

definition bindE :: "('e + 'a) \<times> 'w \<Rightarrow> ('a \<Rightarrow> 'w \<Rightarrow> ('e + 'b) \<times> 'w) \<Rightarrow> ('e + 'b) \<times> 'w" where
  "bindE m k = (case m of (Inl e, w) \<Rightarrow> (Inl e, w) | (Inr x, w) \<Rightarrow> k x w)"

definition mapE :: "('e \<Rightarrow> 'f) \<Rightarrow> ('e + 'a) \<times> 'w \<Rightarrow> ('f + 'a) \<times> 'w" where
  "mapE f m = (case m of (Inl e, w) \<Rightarrow> (Inl (f e), w) | (Inr x, w) \<Rightarrow> (Inr x, w))"

text \<open>\<open>ensure!(c, e)\<close>: the check as an operation that leaves the world alone.\<close>

definition ensureE :: "bool \<Rightarrow> 'e \<Rightarrow> 'w \<Rightarrow> ('e + unit) \<times> 'w" where
  "ensureE c e w = (if c then (Inr (), w) else (Inl e, w))"

definition is_ok :: "'e + 'a \<Rightarrow> bool" where
  "is_ok r = (case r of Inl _ \<Rightarrow> False | Inr _ \<Rightarrow> True)"

lemma is_ok_simps [simp]: "is_ok (Inl e) = False" "is_ok (Inr x) = True"
  by (simp_all add: is_ok_def)

lemma bindE_simps [simp]:
  "bindE (Inl e, w) k = (Inl e, w)" "bindE (Inr x, w) k = k x w"
  by (simp_all add: bindE_def)

lemma mapE_simps [simp]:
  "mapE f (Inl e, w) = (Inl (f e), w)" "mapE f (Inr x, w) = (Inr x, w)"
  by (simp_all add: mapE_def)

lemma snd_mapE [simp]: "snd (mapE f m) = snd m"
  by (cases m) (auto simp: mapE_def split: sum.splits)

lemma mapE_Inr_iff [simp]: "mapE f m = (Inr x, w) \<longleftrightarrow> m = (Inr x, w)"
  by (cases m) (auto simp: mapE_def split: sum.splits)

lemma ensureE_simps [simp]:
  "ensureE True e w = (Inr (), w)" "ensureE False e w = (Inl e, w)"
  by (simp_all add: ensureE_def)

lemma snd_ensureE [simp]: "snd (ensureE c e w) = w"
  by (simp add: ensureE_def)

lemma ensureE_Inr_iff [simp]: "ensureE c e w = (Inr u, w') \<longleftrightarrow> c \<and> w' = w"
  by (auto simp: ensureE_def)

lemma bindE_Inr_iff:
  "bindE m k = (Inr y, w') \<longleftrightarrow> (\<exists>x w. m = (Inr x, w) \<and> k x w = (Inr y, w'))"
  by (cases m) (auto simp: bindE_def split: sum.splits)

lemma bindE_Inl_iff:
  "bindE m k = (Inl e, w') \<longleftrightarrow>
     m = (Inl e, w') \<or> (\<exists>x w. m = (Inr x, w) \<and> k x w = (Inl e, w'))"
  by (cases m) (auto simp: bindE_def split: sum.splits)

text \<open>An invariant of the world passes through a composition.\<close>

lemma bindE_inv:
  assumes "I (snd m)" and "\<And>x w. m = (Inr x, w) \<Longrightarrow> I w \<Longrightarrow> I (snd (k x w))"
  shows "I (snd (bindE m k))"
  using assms by (cases m) (auto simp: bindE_def split: sum.splits)

section \<open>Preorders that every operation respects\<close>

text \<open>
  Several facts of this development have the form "every operation moves the world along
  a preorder \<open>R\<close>" (the life cycle of jobs moves forward, bytes sent to a printer are
  never taken back, the environment is not touched). The composition rules are proved
  once, for any such preorder.
\<close>

locale respected =
  fixes R :: "'w \<Rightarrow> 'w \<Rightarrow> bool"
  assumes refl: "R w w"
    and trans: "R w1 w2 \<Longrightarrow> R w2 w3 \<Longrightarrow> R w1 w3"
begin

lemma bindE_respects:
  assumes "R w (snd m)" and "\<And>x w'. m = (Inr x, w') \<Longrightarrow> R w' (snd (k x w'))"
  shows "R w (snd (bindE m k))"
  using assms by (cases m) (auto simp: bindE_def split: sum.splits intro: trans)

lemma fold_respects:
  assumes "\<And>x w. x \<in> set xs \<Longrightarrow> R w (f x w)"
  shows "R w (fold f xs w)"
  using assms
proof (induction xs arbitrary: w)
  case Nil
  show ?case by (simp add: refl)
next
  case (Cons x xs)
  then have "R w (f x w)" and "R (f x w) (fold f xs (f x w))" by auto
  then have "R w (fold f xs (f x w))" by (rule trans)
  then show ?case by simp
qed

end

section \<open>Codecs\<close>

text \<open>A printer and the parser that must read its output back.\<close>

locale codec =
  fixes enc :: "'a \<Rightarrow> 'b" and dec :: "'b \<Rightarrow> 'a option"
  assumes roundtrip: "dec (enc x) = Some x"
begin

lemma enc_inject: "enc x = enc y \<longleftrightarrow> x = y"
  using roundtrip by (metis option.inject)

lemma dec_surj: "\<exists>s. dec s = Some x"
  using roundtrip by blast

end

section \<open>Lists\<close>

lemma take_min_length [simp]: "take (min n (length xs)) xs = take n xs"
  by (cases "n \<le> length xs") (simp_all add: min_def)

lemma map_of_filter_snd_other:
  "k \<notin> fst ` {x \<in> set al. \<not> P x} \<Longrightarrow> map_of (filter P al) k = map_of al k"
  by (induction al) (force split: if_splits)+

lemma find_Some_first:
  "find P xs = Some x \<Longrightarrow> P x \<and> x \<in> set xs"
  by (induction xs) (auto split: if_splits)

end
