(* ===== verification/Rust_Text.thy ===== *)
theory Rust_Text
  imports Prelude
begin

text \<open>
  The parts of Rust's string library the program uses, on UTF-8 byte strings: a \<open>str\<close>
  is the list of its bytes (\<open>string\<close>), so \<open>length\<close> is \<open>len()\<close>. Trimming and splitting
  work on the UTF-8 encodings of the characters with the Unicode property White_Space
  (and, for the configuration parser, of the control characters), so they agree with Rust
  on every valid string. Decimal and hexadecimal printing and parsing come with their
  round trips.
\<close>

section \<open>White space, trimming and splitting\<close>

definition byte_char :: "nat \<Rightarrow> char" where
  "byte_char n = char_of n"

definition ascii_ws :: "string list" where
  "ascii_ws = map (\<lambda>n. [byte_char n]) [9, 10, 11, 12, 13, 32]"

definition ws_codes :: "string list" where
  "ws_codes = ascii_ws @
     map (map byte_char)
       [[0xC2, 0x85], [0xC2, 0xA0], [0xE1, 0x9A, 0x80],
        [0xE2, 0x80, 0xA8], [0xE2, 0x80, 0xA9], [0xE2, 0x80, 0xAF],
        [0xE2, 0x81, 0x9F], [0xE3, 0x80, 0x80]] @
     map (\<lambda>n. map byte_char [0xE2, 0x80, n]) [0x80..<0x8B]"

definition control_codes :: "string list" where
  "control_codes = map (\<lambda>n. [byte_char n]) [0..<32] @ [[byte_char 127]] @
     map (\<lambda>n. map byte_char [0xC2, n]) [0x80..<0xA0]"

text \<open>Drop one leading character of a set of characters.\<close>

definition strip_one :: "string list \<Rightarrow> string \<Rightarrow> string option" where
  "strip_one codes s =
     (case find (\<lambda>c. c \<noteq> [] \<and> take (length c) s = c) codes of
        None \<Rightarrow> None
      | Some c \<Rightarrow> Some (drop (length c) s))"

lemma strip_one_shorter: "strip_one codes s = Some t \<Longrightarrow> length t < length s"
  by (auto simp: strip_one_def split: option.splits dest!: find_Some_first)
     (metis diff_less length_0_conv length_drop length_greater_0_conv length_take min_0L
        min_0R)

function trim_codes :: "string list \<Rightarrow> string \<Rightarrow> string" where
  "trim_codes codes s =
     (case strip_one codes s of None \<Rightarrow> s | Some t \<Rightarrow> trim_codes codes t)"
  by pat_completeness auto
termination
  by (relation "measure (length \<circ> snd)") (auto simp: strip_one_shorter)

declare trim_codes.simps [simp del]

definition trim_start :: "string \<Rightarrow> string" where
  "trim_start s = trim_codes ws_codes s"

definition trim_end :: "string \<Rightarrow> string" where
  "trim_end s = rev (trim_codes (map rev ws_codes) (rev s))"

definition trim_ws :: "string \<Rightarrow> string" where
  "trim_ws s = trim_end (trim_start s)"

definition trim_control_ws :: "string \<Rightarrow> string" where
  "trim_control_ws s =
     rev (trim_codes (map rev (control_codes @ ws_codes))
       (rev (trim_codes (control_codes @ ws_codes) s)))"

function split_ws :: "string \<Rightarrow> string \<Rightarrow> string list" where
  "split_ws cur s =
     (case s of
        [] \<Rightarrow> (if cur = [] then [] else [rev cur])
      | c # cs \<Rightarrow>
          (case strip_one ws_codes s of
             Some t \<Rightarrow> (if cur = [] then split_ws [] t else rev cur # split_ws [] t)
           | None \<Rightarrow> split_ws (c # cur) cs))"
  by pat_completeness auto
termination
  by (relation "measure (length \<circ> snd)") (auto dest: strip_one_shorter)

declare split_ws.simps [simp del]

definition split_whitespace :: "string \<Rightarrow> string list" where
  "split_whitespace s = split_ws [] s"

text \<open>\<open>str::split(c)\<close> on an ASCII separator, and \<open>lines()\<close>.\<close>

fun split_char :: "char \<Rightarrow> string \<Rightarrow> string list" where
  "split_char c [] = [[]]"
| "split_char c (x # xs) =
     (if x = c then [] # split_char c xs
      else (case split_char c xs of [] \<Rightarrow> [[x]] | p # ps \<Rightarrow> (x # p) # ps))"

definition strip_cr :: "string \<Rightarrow> string" where
  "strip_cr l = (if l \<noteq> [] \<and> last l = byte_char 13 then butlast l else l)"

definition text_lines :: "string \<Rightarrow> string list" where
  "text_lines s =
     (let ps = split_char (byte_char 10) s
      in map strip_cr (butlast ps) @ (if last ps = [] then [] else [last ps]))"

definition starts_with :: "string \<Rightarrow> string \<Rightarrow> bool" where
  "starts_with p s = (take (length p) s = p)"

definition ends_with :: "string \<Rightarrow> string \<Rightarrow> bool" where
  "ends_with p s = (length p \<le> length s \<and> drop (length s - length p) s = p)"

definition strip_prefix :: "string \<Rightarrow> string \<Rightarrow> string option" where
  "strip_prefix p s = (if starts_with p s then Some (drop (length p) s) else None)"

definition strip_suffix :: "string \<Rightarrow> string \<Rightarrow> string option" where
  "strip_suffix p s = (if ends_with p s then Some (take (length s - length p) s) else None)"

fun contains_str :: "string \<Rightarrow> string \<Rightarrow> bool" where
  "contains_str p [] = (p = [])"
| "contains_str p (x # xs) = (starts_with p (x # xs) \<or> contains_str p xs)"

lemma split_char_nonempty: "split_char c s \<noteq> []"
  by (induction s) (auto split: list.splits)

lemma split_char_first: "hd (split_char c s) = takeWhile (\<lambda>x. x \<noteq> c) s"
  by (induction s) (auto split: list.splits simp: split_char_nonempty)

lemma strip_prefix_Some: "strip_prefix p s = Some t \<longleftrightarrow> s = p @ t"
  by (auto simp: strip_prefix_def starts_with_def) (metis append_take_drop_id)

lemma strip_suffix_Some: "strip_suffix p s = Some t \<longleftrightarrow> s = t @ p"
  by (auto simp: strip_suffix_def ends_with_def) (metis append_take_drop_id)

section \<open>Characters\<close>

definition char_code :: "char \<Rightarrow> nat" where
  "char_code c = of_char c"

definition is_digit :: "char \<Rightarrow> bool" where
  "is_digit c = (48 \<le> char_code c \<and> char_code c \<le> 57)"

definition is_upper :: "char \<Rightarrow> bool" where
  "is_upper c = (65 \<le> char_code c \<and> char_code c \<le> 90)"

definition is_lower :: "char \<Rightarrow> bool" where
  "is_lower c = (97 \<le> char_code c \<and> char_code c \<le> 122)"

definition is_alnum :: "char \<Rightarrow> bool" where
  "is_alnum c = (is_digit c \<or> is_upper c \<or> is_lower c)"

definition is_hexdigit :: "char \<Rightarrow> bool" where
  "is_hexdigit c =
     (is_digit c \<or> 65 \<le> char_code c \<and> char_code c \<le> 70 \<or>
      97 \<le> char_code c \<and> char_code c \<le> 102)"

definition upper_char :: "char \<Rightarrow> char" where
  "upper_char c = (if is_lower c then byte_char (char_code c - 32) else c)"

definition lower_char :: "char \<Rightarrow> char" where
  "lower_char c = (if is_upper c then byte_char (char_code c + 32) else c)"

definition ascii_uppercase :: "string \<Rightarrow> string" where
  "ascii_uppercase s = map upper_char s"

definition ascii_lowercase :: "string \<Rightarrow> string" where
  "ascii_lowercase s = map lower_char s"

definition eq_ignore_ascii_case :: "string \<Rightarrow> string \<Rightarrow> bool" where
  "eq_ignore_ascii_case a b = (ascii_lowercase a = ascii_lowercase b)"

lemma length_ascii_uppercase [simp]: "length (ascii_uppercase s) = length s"
  by (simp add: ascii_uppercase_def)

lemma length_ascii_lowercase [simp]: "length (ascii_lowercase s) = length s"
  by (simp add: ascii_lowercase_def)

lemma char_code_byte_char: "n < 256 \<Longrightarrow> char_code (byte_char n) = n"
  by (simp add: char_code_def byte_char_def)

lemma byte_char_char_code [simp]: "byte_char (char_code c) = c"
  by (simp add: char_code_def byte_char_def)

section \<open>Decimal numbers\<close>

definition digit_char :: "nat \<Rightarrow> char" where
  "digit_char d = byte_char (48 + d)"

fun show_nat :: "nat \<Rightarrow> string" where
  "show_nat n = (if n < 10 then [digit_char n] else show_nat (n div 10) @ [digit_char (n mod 10)])"

declare show_nat.simps [simp del]

definition show_word :: "'l::len word \<Rightarrow> string" where
  "show_word w = show_nat (unat w)"

text \<open>The value of a digit string, most significant digit first.\<close>

fun digits_value :: "nat \<Rightarrow> string \<Rightarrow> nat" where
  "digits_value acc [] = acc"
| "digits_value acc (c # cs) = digits_value (10 * acc + (char_code c - 48)) cs"

definition all_digits :: "string \<Rightarrow> bool" where
  "all_digits s = (s \<noteq> [] \<and> list_all is_digit s)"

text \<open>\<open>str::parse\<close> for an unsigned integer below \<open>bound\<close>: an optional plus sign, then
  at least one digit, and no overflow.\<close>

definition parse_unsigned :: "nat \<Rightarrow> string \<Rightarrow> nat option" where
  "parse_unsigned bound s =
     (let ds = (case s of c # cs \<Rightarrow> if c = CHR ''+'' then cs else s | [] \<Rightarrow> [])
      in if all_digits ds \<and> digits_value 0 ds < bound then Some (digits_value 0 ds) else None)"

definition parse_word :: "string \<Rightarrow> 'l::len word option" where
  "parse_word s = map_option of_nat (parse_unsigned (2 ^ LENGTH('l)) s)"

text \<open>\<open>str::parse\<close> for a signed integer of width \<open>'l\<close>.\<close>

definition parse_signed :: "string \<Rightarrow> 'l::len word option" where
  "parse_signed s =
     (case s of
        [] \<Rightarrow> None
      | c # cs \<Rightarrow>
          if c = CHR ''-''
          then (if all_digits cs \<and> digits_value 0 cs \<le> 2 ^ (LENGTH('l) - 1)
                then Some (- of_nat (digits_value 0 cs)) else None)
          else map_option of_nat (parse_unsigned (2 ^ (LENGTH('l) - 1)) s))"

text \<open>\<open>Display\<close> of a signed integer.\<close>

definition show_signed :: "'l::len word \<Rightarrow> string" where
  "show_signed w =
     (if sint w < 0 then CHR ''-'' # show_nat (nat (- sint w)) else show_nat (nat (sint w)))"

lemma is_digit_digit_char: "d < 10 \<Longrightarrow> is_digit (digit_char d)"
  by (simp add: is_digit_def digit_char_def char_code_byte_char)

lemma char_code_digit_char: "d < 10 \<Longrightarrow> char_code (digit_char d) = 48 + d"
  by (simp add: digit_char_def char_code_byte_char)

lemma digits_value_append:
  "digits_value acc (xs @ ys) = digits_value (digits_value acc xs) ys"
  by (induction xs arbitrary: acc) auto

lemma all_digits_show_nat: "all_digits (show_nat n)"
proof (induction n rule: show_nat.induct)
  case (1 n)
  then show ?case
    by (cases "n < 10")
       (auto simp: show_nat.simps [of n] all_digits_def is_digit_digit_char)
qed

lemma digits_value_show_nat: "digits_value 0 (show_nat n) = n"
proof (induction n rule: show_nat.induct)
  case (1 n)
  then show ?case
    by (cases "n < 10")
       (auto simp: show_nat.simps [of n] digits_value_append char_code_digit_char)
qed

lemma digit_not_sign: "is_digit c \<Longrightarrow> c \<noteq> CHR ''+'' \<and> c \<noteq> CHR ''-''"
  by (auto simp: is_digit_def char_code_def)

lemma parse_unsigned_show_nat: "n < b \<Longrightarrow> parse_unsigned b (show_nat n) = Some n"
  using all_digits_show_nat [of n] digits_value_show_nat [of n]
  by (auto simp: parse_unsigned_def all_digits_def split: list.splits dest: digit_not_sign)

lemma parse_word_show_word: "parse_word (show_word w) = Some w"
  by (simp add: parse_word_def show_word_def parse_unsigned_show_nat)

interpretation decimal: codec "show_word :: 'l::len word \<Rightarrow> string" "parse_word"
  by unfold_locales (rule parse_word_show_word)

section \<open>Bytes and hexadecimal text\<close>

definition bytes_of :: "string \<Rightarrow> u8 list" where
  "bytes_of s = map of_char s"

definition string_of_bytes :: "u8 list \<Rightarrow> string" where
  "string_of_bytes bs = map (\<lambda>b. byte_char (unat b)) bs"

lemma length_bytes_of [simp]: "length (bytes_of s) = length s"
  by (simp add: bytes_of_def)

lemma bytes_of_append [simp]: "bytes_of (a @ b) = bytes_of a @ bytes_of b"
  by (simp add: bytes_of_def)

definition hex_char :: "bool \<Rightarrow> nat \<Rightarrow> char" where
  "hex_char upper d =
     (if d < 10 then byte_char (48 + d)
      else byte_char ((if upper then 55 else 87) + d))"

text \<open>\<open>{byte:02x}\<close> and \<open>{byte:02X}\<close>.\<close>

definition hex_byte :: "bool \<Rightarrow> u8 \<Rightarrow> string" where
  "hex_byte upper b = [hex_char upper (unat b div 16), hex_char upper (unat b mod 16)]"

definition hex_value :: "char \<Rightarrow> nat" where
  "hex_value c =
     (if is_digit c then char_code c - 48
      else if char_code c \<le> 70 then char_code c - 55 else char_code c - 87)"

text \<open>The reading of a hexadecimal string, used to state round trips.\<close>

fun decode_hex :: "string \<Rightarrow> u8 list option" where
  "decode_hex [] = Some []"
| "decode_hex [c] = None"
| "decode_hex (c # d # s) =
     (if is_hexdigit c \<and> is_hexdigit d
      then map_option ((#) (of_nat (16 * hex_value c + hex_value d))) (decode_hex s)
      else None)"

lemma hex_char_ok:
  "d < 16 \<Longrightarrow> is_hexdigit (hex_char u d) \<and> hex_value (hex_char u d) = d"
  by (auto simp: hex_char_def is_hexdigit_def hex_value_def is_digit_def char_code_byte_char)

lemma decode_hex_concat: "decode_hex (concat (map (hex_byte u) bs)) = Some bs"
proof (induction bs)
  case Nil
  show ?case by simp
next
  case (Cons b bs)
  have "unat b < 256" using unsigned_less [of b] by simp
  then have "unat b div 16 < 16" "unat b mod 16 < 16" by simp_all
  then show ?case
    using Cons.IH by (simp add: hex_byte_def hex_char_ok)
qed

section \<open>Lossy decoding of UTF-8\<close>

text \<open>
  \<open>String::from_utf8_lossy\<close>: a maximal prefix of an ill-formed sequence becomes U+FFFD.
  \<open>utf8_step\<close> is the length of the next sequence and whether it is well formed.
\<close>

definition in_range :: "nat \<Rightarrow> nat \<Rightarrow> nat \<Rightarrow> bool" where
  "in_range lo hi b = (lo \<le> b \<and> b \<le> hi)"

definition byte_at :: "nat \<Rightarrow> nat list \<Rightarrow> nat" where
  "byte_at i bs = (if i < length bs then bs ! i else 0)"

definition second_ok :: "nat \<Rightarrow> nat \<Rightarrow> bool" where
  "second_ok a b =
     (if a = 0xE0 then in_range 0xA0 0xBF b
      else if a = 0xED then in_range 0x80 0x9F b
      else if a = 0xF0 then in_range 0x90 0xBF b
      else if a = 0xF4 then in_range 0x80 0x8F b
      else in_range 0x80 0xBF b)"

definition utf8_width :: "nat \<Rightarrow> nat" where
  "utf8_width a =
     (if a < 0x80 then 1 else if in_range 0xC2 0xDF a then 2 else if in_range 0xE0 0xEF a then 3
      else if in_range 0xF0 0xF4 a then 4 else 0)"

definition utf8_step :: "nat list \<Rightarrow> nat \<times> bool" where
  "utf8_step bs =
     (let a = byte_at 0 bs; n = utf8_width a
      in if n = 0 then (1, False)
         else if n = 1 then (1, True)
         else if \<not> second_ok a (byte_at 1 bs) then (1, False)
         else if n = 2 then (2, True)
         else if \<not> in_range 0x80 0xBF (byte_at 2 bs) then (2, False)
         else if n = 3 then (3, True)
         else if \<not> in_range 0x80 0xBF (byte_at 3 bs) then (3, False)
         else (4, True))"

lemma utf8_step_pos: "0 < fst (utf8_step bs)"
  by (simp add: utf8_step_def Let_def)

function utf8_lossy :: "string \<Rightarrow> string" where
  "utf8_lossy [] = []"
| "utf8_lossy (c # cs) =
     (let (n, ok) = utf8_step (map char_code (c # cs))
      in (if ok then take n (c # cs) else map byte_char [0xEF, 0xBF, 0xBD]) @
         utf8_lossy (drop n (c # cs)))"
  by pat_completeness auto
termination
  by (relation "measure length") (auto dest: arg_cong [where f = fst] simp: utf8_step_pos)

definition lossy_text :: "u8 list \<Rightarrow> string" where
  "lossy_text bs = utf8_lossy (string_of_bytes bs)"

lemma utf8_lossy_ascii: "list_all (\<lambda>c. char_code c < 0x80) s \<Longrightarrow> utf8_lossy s = s"
  by (induction s) (simp_all add: utf8_step_def byte_at_def utf8_width_def)

section \<open>Texts that need no trimming\<close>

definition printable :: "char \<Rightarrow> bool" where
  "printable c = (32 < char_code c \<and> char_code c < 127)"

lemma trimmed_codes:
  "c \<in> set (control_codes @ ws_codes) \<Longrightarrow> c \<noteq> [] \<and> \<not> printable (hd c) \<and> \<not> printable (last c)"
  by (auto simp: control_codes_def ws_codes_def ascii_ws_def printable_def char_code_byte_char)

lemma strip_one_printable:
  assumes "\<forall>c \<in> set codes. c \<noteq> [] \<longrightarrow> \<not> printable (hd c)" and "s \<noteq> [] \<Longrightarrow> printable (hd s)"
  shows "strip_one codes s = None"
proof -
  have "find (\<lambda>c. c \<noteq> [] \<and> take (length c) s = c) codes = None"
    using assms by (auto simp: find_None_iff) (metis hd_take length_greater_0_conv take_eq_Nil)
  then show ?thesis by (simp add: strip_one_def)
qed

lemma trim_printable:
  assumes "s \<noteq> [] \<Longrightarrow> printable (hd s) \<and> printable (last s)"
  shows "trim_ws s = s" "trim_control_ws s = s"
proof -
  have "strip_one codes s = None" if "set codes \<subseteq> set (control_codes @ ws_codes)" for codes
    using that trimmed_codes assms by (intro strip_one_printable) auto
  moreover have "strip_one (map rev codes) (rev s) = None"
      if "set codes \<subseteq> set (control_codes @ ws_codes)" for codes
    using that trimmed_codes assms
    by (intro strip_one_printable) (auto simp: hd_rev)
  ultimately show "trim_ws s = s" "trim_control_ws s = s"
    by (simp_all add: trim_ws_def trim_control_ws_def trim_start_def trim_end_def trim_codes.simps
        del: map_append)
qed

lemma text_lines_single: "byte_char 10 \<notin> set s \<Longrightarrow> s \<noteq> [] \<Longrightarrow> text_lines s = [s]"
proof -
  assume "byte_char 10 \<notin> set s" and "s \<noteq> []"
  moreover from this(1) have "split_char (byte_char 10) s = [s]" by (induction s) auto
  ultimately show "text_lines s = [s]" by (simp add: text_lines_def)
qed

lemma no_words: "split_whitespace [] = []"
  by (simp add: split_whitespace_def split_ws.simps)

lemma string_of_bytes_of: "string_of_bytes (bytes_of s) = s"
proof -
  have "unat (of_char c :: u8) = of_char c" for c
  proof -
    have "of_char c < (256 :: nat)" by (rule nat_of_char_less_256)
    then have "unat (of_nat (of_char c) :: u8) = of_char c" by (simp add: unat_of_nat)
    then show ?thesis unfolding of_nat_of_char .
  qed
  then show ?thesis by (induction s) (simp_all add: string_of_bytes_def bytes_of_def byte_char_def)
qed
end
