(* ===== verification/Data_Model.thy ===== *)
theory Data_Model
  imports Rust_Text
begin

text \<open>
  The data of the service: \<open>src/model.rs\<close> (observations, printer snapshot, jobs, events,
  media), the configuration structs of \<open>src/config.rs\<close>, the device structs of
  \<open>src/device.rs\<close>, and the files of the data directory that \<open>src/persist.rs\<close> names. A Rust
  struct is a record whose fields carry a prefix for the struct, an enum a datatype, a
  \<open>u64\<close> a 64-bit word, an \<open>f64\<close> its 64-bit pattern. A UUID is its 128-bit number and a
  \<open>DateTime\<close> its number of nanoseconds.
\<close>

section \<open>Identifiers, time, floating point\<close>

type_synonym uuid = "128 word"
type_synonym time = int
type_synonym f64 = "64 word"

definition f64_exponent :: "f64 \<Rightarrow> nat" where
  "f64_exponent x = unat (drop_bit 52 x AND 0x7FF)"

definition f64_magnitude :: "f64 \<Rightarrow> nat" where
  "f64_magnitude x = unat (x AND 0x7FFFFFFFFFFFFFFF)"

definition f64_negative :: "f64 \<Rightarrow> bool" where
  "f64_negative x = bit x 63"

definition f64_is_finite :: "f64 \<Rightarrow> bool" where
  "f64_is_finite x = (f64_exponent x \<noteq> 0x7FF)"

definition f64_is_nan :: "f64 \<Rightarrow> bool" where
  "f64_is_nan x = (f64_magnitude x > 0x7FF0000000000000)"

text \<open>IEEE 754 orders floating point numbers as their sign-and-magnitude patterns; the two
  zeros are equal and a NaN is related to nothing.\<close>

definition f64_key :: "f64 \<Rightarrow> int" where
  "f64_key x = (if f64_negative x then - int (f64_magnitude x) else int (f64_magnitude x))"

definition f64_le :: "f64 \<Rightarrow> f64 \<Rightarrow> bool" where
  "f64_le a b = (\<not> f64_is_nan a \<and> \<not> f64_is_nan b \<and> f64_key a \<le> f64_key b)"

definition f64_lt :: "f64 \<Rightarrow> f64 \<Rightarrow> bool" where
  "f64_lt a b = (\<not> f64_is_nan a \<and> \<not> f64_is_nan b \<and> f64_key a < f64_key b)"

definition f64_eq :: "f64 \<Rightarrow> f64 \<Rightarrow> bool" where
  "f64_eq a b = (\<not> f64_is_nan a \<and> \<not> f64_is_nan b \<and> f64_key a = f64_key b)"

definition f64_zero :: f64 where "f64_zero = 0"
definition f64_thirty :: f64 where "f64_thirty = 0x403E000000000000"
definition f64_ten_thousand :: f64 where "f64_ten_thousand = 0x40C3880000000000"
definition f64_hundred_thousand :: f64 where "f64_hundred_thousand = 0x40F86A0000000000"

lemmas f64_defs = f64_le_def f64_lt_def f64_eq_def f64_is_nan_def f64_key_def f64_negative_def
  f64_magnitude_def f64_is_finite_def f64_exponent_def f64_zero_def f64_thirty_def
  f64_ten_thousand_def f64_hundred_thousand_def

lemma f64_zero_le_thirty: "f64_le f64_zero f64_thirty"
  by (simp add: f64_defs)

lemma f64_thirty_finite: "f64_is_finite f64_thirty"
  by (simp add: f64_defs)

text \<open>JSON values (\<open>serde_json::Value\<close>).\<close>

datatype json =
    JNull | JBool bool | JNat u64 | JNeg i64 | JFloat f64 | JString string
  | JArray "json list" | JObject "(string \<times> json) list"

section \<open>Paths of the data directory\<close>

text \<open>
  One constructor per file name that \<open>src/persist.rs\<close>, \<open>src/config.rs\<close>,
  \<open>src/media.rs\<close> and \<open>src/worker.rs\<close> build; \<open>Tmp p u\<close> is \<open>p\<close> with the extension
  \<open>tmp-<u>\<close>. A printer is named by its identifier.
\<close>

datatype path =
    JobFile uuid | PayloadFile uuid | SpoolFile uuid
  | JobIndex | EventLog | BootIdFile | PrinterConfigsFile | AgentIdFile
  | QueueFile string | QueuePausedFile string | MediaFile string | MediaArchive string uuid
  | LedgerFile string | SnapshotFile string | ConfigurationFile string | AttemptFile string
  | Tmp path uuid

section \<open>Observations\<close>

datatype value_state = Value | Stale | NotSupported | Unavailable | Unknown | NotConfigured

record 'a observed =
  obs_state :: value_state
  obs_value :: "'a option"
  obs_unit :: "string option"
  obs_source :: string
  obs_at :: "time option"
  obs_reason :: "string option"

definition observed_unknown :: "'a observed" where
  "observed_unknown = \<lparr>obs_state = Unknown, obs_value = None, obs_unit = None,
     obs_source = ''agent'', obs_at = None, obs_reason = Some ''not_observed_yet''\<rparr>"

definition observed_not_supported :: "time \<Rightarrow> string \<Rightarrow> 'a observed" where
  "observed_not_supported t reason = \<lparr>obs_state = NotSupported, obs_value = None, obs_unit = None,
     obs_source = ''printer'', obs_at = Some t, obs_reason = Some reason\<rparr>"

definition observed_value :: "time \<Rightarrow> 'a \<Rightarrow> string option \<Rightarrow> string \<Rightarrow> 'a observed" where
  "observed_value t v un src = \<lparr>obs_state = Value, obs_value = Some v, obs_unit = un,
     obs_source = src, obs_at = Some t, obs_reason = None\<rparr>"

definition observed_unavailable :: "time \<Rightarrow> string \<Rightarrow> 'a observed" where
  "observed_unavailable t reason = \<lparr>obs_state = Unavailable, obs_value = None, obs_unit = None,
     obs_source = ''printer'', obs_at = Some t, obs_reason = Some reason\<rparr>"

section \<open>Jobs and events\<close>

datatype jstate =
    Receiving | Queued | Writing | Verifying | TransportAccepted | CompletedObserved
  | Held | Cancelled | Failed | OutcomeUnknown

record job =
  job_id :: uuid
  job_printer_id :: string
  job_state :: jstate
  job_created_at :: time
  job_updated_at :: time
  job_label_count :: "u64 option"
  job_label_count_source :: "string option"
  job_origin :: "string option"
  job_description :: "string option"
  job_idempotency_key :: "string option"
  job_sha256 :: "string option"
  job_bytes :: u64
  job_bytes_transferred :: u64
  job_delivery_attempts :: u32
  job_payload_path :: "path option"
  job_error :: "string option"

record event =
  ev_sequence :: u64
  ev_at :: time
  ev_kind :: string
  ev_printer_id :: "string option"
  ev_job_id :: "uuid option"
  ev_data :: json

record job_summary =
  js_queue_depth :: u64
  js_queue_paused :: bool
  js_open_jobs :: u64
  js_last_job_id :: "uuid option"
  js_last_job_state :: "jstate option"

section \<open>Media\<close>

datatype accounting_confidence = Exact | Estimated | Degraded | UnknownConfidence
datatype tracking_type = Gap | BlackMark | Continuous | Notch | Hole | UnknownTracking
datatype print_technology = DirectThermal | ThermalTransfer | UnknownTechnology

record media_color =
  mc_name :: string
  mc_hex :: "string option"
  mc_description :: "string option"

record ribbon =
  rb_name :: string
  rb_width_mm :: "f64 option"
  rb_material :: "string option"

record preferred_settings =
  ps_darkness :: "f64 option"
  ps_speed :: "f64 option"
  ps_x_offset :: "i64 option"
  ps_y_offset :: "i64 option"
  ps_print_mode :: "string option"

record media_definition =
  md_display_name :: string
  md_product_number :: "string option"
  md_manufacturer :: "string option"
  md_description :: "string option"
  md_width_mm :: f64
  md_height_mm :: f64
  md_gap_mm :: "f64 option"
  md_corner_radius_mm :: "f64 option"
  md_black_mark_width_mm :: "f64 option"
  md_black_mark_height_mm :: "f64 option"
  md_core_diameter_mm :: "f64 option"
  md_outer_diameter_mm :: "f64 option"
  md_shape :: string
  md_tracking :: tracking_type
  md_print_technology :: print_technology
  md_color :: media_color
  md_material :: "string option"
  md_surface :: "string option"
  md_transparent :: "bool option"
  md_thermal_coating :: "string option"
  md_thickness_micrometers :: "f64 option"
  md_adhesive :: "string option"
  md_liner :: "string option"
  md_ribbon :: "ribbon option"
  md_preferred_settings :: preferred_settings
  md_labels_available_at_load :: u64
  md_nominal_full_roll_labels :: "u64 option"
  md_low_warning_threshold :: u64
  md_custom :: "(string \<times> json) list"

record media_state =
  ms_media :: media_definition
  ms_loaded_at :: time
  ms_initial_labels :: u64
  ms_remaining_labels :: u64
  ms_consumed_labels_total :: u64
  ms_accounting_deficit_labels :: u64
  ms_accounting_confidence :: accounting_confidence
  ms_last_accounting_event_at :: "time option"
  ms_ledger_sequence :: u64

record media_adjustment =
  ma_delta :: i64
  ma_reason :: string
  ma_source :: string
  ma_job_id :: "uuid option"
  ma_hardware_counter_before :: "u64 option"
  ma_hardware_counter_after :: "u64 option"

record media_ledger_event =
  le_sequence :: u64
  le_at :: time
  le_delta :: i64
  le_reason :: string
  le_source :: string
  le_job_id :: "uuid option"
  le_before :: u64
  le_after :: u64
  le_deficit_after :: u64
  le_hardware_counter_before :: "u64 option"
  le_hardware_counter_after :: "u64 option"

section \<open>Device settings and configuration\<close>

record device_profile =
  dp_resolution_dpi :: "u32 option"
  dp_max_width_dots :: u32
  dp_max_length_dots :: u32
  dp_max_speed_ips :: u32
  dp_max_offset_dots :: i32
  dp_thermal_transfer :: bool
  dp_peel_off :: bool
  dp_cutter :: bool

definition default_profile :: device_profile where
  "default_profile = \<lparr>dp_resolution_dpi = None, dp_max_width_dots = 832,
     dp_max_length_dots = 32000, dp_max_speed_ips = 6, dp_max_offset_dots = 64,
     dp_thermal_transfer = False, dp_peel_off = False, dp_cutter = False\<rparr>"

datatype print_mode = TearOff | PeelOff | Cutter
datatype print_method = DirectThermalMethod | ThermalTransferMethod
datatype tracking = GapTracking | BlackMarkTracking | ContinuousTracking

record device_settings =
  ds_darkness :: "f64 option"
  ds_print_speed :: "u32 option"
  ds_x_offset :: "i32 option"
  ds_y_offset :: "i32 option"
  ds_print_width :: "u32 option"
  ds_label_length :: "u32 option"
  ds_print_mode :: "print_mode option"
  ds_print_method :: "print_method option"
  ds_tracking :: "tracking option"

record observation =
  on_settings :: device_settings
  on_resolution_dpi :: "u32 option"
  on_revision :: string
  on_observed_at :: time
  on_raw :: string

record save_request =
  sr_revision :: string
  sr_settings :: device_settings
  sr_confirm_save_all :: bool

text \<open>The JSON report that \<open>save_configuration\<close> builds and stores.\<close>

record save_report =
  rp_requested :: device_settings
  rp_state :: string
  rp_save_command_sent :: bool
  rp_active_values_verified :: bool
  rp_power_cycle_verified :: bool
  rp_observation :: "observation option"
  rp_error :: "string option"
  rp_started_at :: time
  rp_finished_at :: "time option"

datatype storage_mode = Full | MetadataOnly
datatype hardware_counter_policy = Disabled | Prefer | Require

record printer_config =
  pc_id :: string
  pc_display_name :: string
  pc_enabled :: bool
  pc_device :: string
  pc_transport :: string
  pc_usb_vendor_id :: "u16 option"
  pc_usb_product_id :: "u16 option"
  pc_usb_serial :: "string option"
  pc_tcp_host :: "string option"
  pc_tcp_port :: u16
  pc_connect_timeout_ms :: u64
  pc_driver :: string
  pc_model_hint :: "string option"
  pc_device_profile :: device_profile
  pc_first_byte_timeout_ms :: u64
  pc_idle_timeout_ms :: u64
  pc_write_timeout_ms :: u64
  pc_max_response_bytes :: usize

definition default_printer_config :: printer_config where
  "default_printer_config = \<lparr>pc_id = '''', pc_display_name = '''', pc_enabled = True,
     pc_device = '''', pc_transport = ''char_device'', pc_usb_vendor_id = None,
     pc_usb_product_id = None, pc_usb_serial = None, pc_tcp_host = None, pc_tcp_port = 9100,
     pc_connect_timeout_ms = 3000, pc_driver = ''zpl'', pc_model_hint = None,
     pc_device_profile = default_profile, pc_first_byte_timeout_ms = 3000,
     pc_idle_timeout_ms = 300, pc_write_timeout_ms = 30000,
     pc_max_response_bytes = 1048576\<rparr>"

record config =
  cf_agent_id :: "string option"
  cf_webui_enabled :: bool
  cf_read_token :: "string option"
  cf_read_token_file :: "string option"
  cf_print_token :: "string option"
  cf_print_token_file :: "string option"
  cf_admin_token :: "string option"
  cf_admin_token_file :: "string option"
  cf_listen :: string
  cf_data_dir :: string
  cf_storage_mode :: storage_mode
  cf_mdns_enabled :: bool
  cf_poll_interval_secs :: u64
  cf_capability_poll_interval_secs :: u64
  cf_host_boot_loss_labels :: u64
  cf_printer_reconnect_loss_labels :: u64
  cf_calibration_loss_labels :: u64
  cf_reconnect_debounce_secs :: u64
  cf_max_job_bytes :: usize
  cf_max_active_jobs_per_printer :: usize
  cf_hardware_counters :: hardware_counter_policy
  cf_printers :: "printer_config list"

definition MAX_ARTIFACTS :: nat where "MAX_ARTIFACTS = 100"
definition MAX_ARTIFACT_BYTES :: usize where "MAX_ARTIFACT_BYTES = 4 * 1024 * 1024"
definition MAX_JOB_BYTES :: usize where "MAX_JOB_BYTES = 8 * 1024 * 1024"

text \<open>\<open>Config::default\<close>: the values a missing key of the configuration file takes.\<close>

definition default_config :: config where
  "default_config = \<lparr>cf_agent_id = None, cf_webui_enabled = False, cf_read_token = None,
     cf_read_token_file = None, cf_print_token = None, cf_print_token_file = None,
     cf_admin_token = None, cf_admin_token_file = None, cf_listen = ''0.0.0.0:8080'',
     cf_data_dir = ''/var/lib/zpl-agent'', cf_storage_mode = Full,
     cf_mdns_enabled = True, cf_poll_interval_secs = 30,
     cf_capability_poll_interval_secs = 3600, cf_host_boot_loss_labels = 2,
     cf_printer_reconnect_loss_labels = 2, cf_calibration_loss_labels = 0,
     cf_reconnect_debounce_secs = 5, cf_max_job_bytes = MAX_JOB_BYTES,
     cf_max_active_jobs_per_printer = 1000, cf_hardware_counters = Prefer,
     cf_printers = []\<rparr>"

section \<open>The snapshot of a printer\<close>

text \<open>
  Of a raw response the bytes are kept, of which the code stores a lossy text and a base64
  rendering. The maps of the snapshot are association lists with one entry per key.
\<close>

record transport_snapshot =
  ts_present :: "bool observed"
  ts_open :: "bool observed"
  ts_protocol_up :: "bool observed"
  ts_connected_at :: "time observed"
  ts_disconnected_at :: "time observed"
  ts_last_response_at :: "time observed"

record identity_snapshot =
  id_model :: "string observed"
  id_firmware :: "string observed"
  id_hardware_id :: "string observed"
  id_serial_number :: "string observed"
  id_resolution_dpi :: "u64 observed"

record status_snapshot =
  st_ready :: "bool observed"
  st_paused :: "bool observed"
  st_media_out :: "bool observed"
  st_ribbon_out :: "bool observed"
  st_head_open :: "bool observed"
  st_temperature_fault :: "bool observed"
  st_buffer_available_bytes :: "u64 observed"
  st_print_mode :: "string observed"
  st_batch_remaining :: "u64 observed"

record settings_snapshot =
  se_darkness :: "f64 observed"
  se_print_speed :: "f64 observed"
  se_slew_speed :: "f64 observed"
  se_backfeed_speed :: "f64 observed"
  se_label_length_dots :: "u64 observed"
  se_print_width_dots :: "u64 observed"
  se_label_top_dots :: "i64 observed"
  se_x_offset_dots :: "i64 observed"
  se_y_offset_dots :: "i64 observed"
  se_format_prefix :: "string observed"
  se_control_prefix :: "string observed"
  se_delimiter :: "string observed"
  se_communication :: "string observed"

record diagnostics_snapshot =
  dg_head_test :: "string observed"
  dg_temperature_celsius :: "f64 observed"
  dg_sensor_values :: "json observed"
  dg_voltage_raw :: "json observed"
  dg_pitch_values :: "json observed"

record memory_snapshot =
  my_ram_free_bytes :: "u64 observed"
  my_ram_total_bytes :: "u64 observed"
  my_flash_free_bytes :: "u64 observed"
  my_flash_total_bytes :: "u64 observed"
  my_other :: "json observed"

record counter_snapshot =
  ct_odometer :: "u64 observed"
  ct_labels_printed :: "u64 observed"
  ct_marker_count :: "u64 observed"
  ct_manual_feed_detection :: "bool observed"

record raw_response =
  rr_bytes :: "u8 list"
  rr_observed_at :: time
  rr_duration_ms :: u64
  rr_error :: "string option"
  rr_classification :: string

record query_stats =
  qs_count :: u64
  qs_duration_ms_total :: u64
  qs_response_bytes_total :: u64
  qs_timeouts :: u64

record printer_snapshot =
  sn_schema_version :: u32
  sn_printer_id :: string
  sn_transport :: transport_snapshot
  sn_identity :: identity_snapshot
  sn_status :: status_snapshot
  sn_settings :: settings_snapshot
  sn_diagnostics :: diagnostics_snapshot
  sn_memory :: memory_snapshot
  sn_counters :: counter_snapshot
  sn_media :: "media_state observed"
  sn_jobs :: job_summary
  sn_capabilities :: "(string \<times> bool observed) list"
  sn_raw_responses :: "(string \<times> raw_response) list"
  sn_query_stats :: "(string \<times> query_stats) list"
  sn_updated_at :: time

definition default_query_stats :: query_stats where
  "default_query_stats = \<lparr>qs_count = 0, qs_duration_ms_total = 0,
     qs_response_bytes_total = 0, qs_timeouts = 0\<rparr>"

text \<open>\<open>Default\<close> of the groups: every field is the unknown observation.\<close>

definition unknown_transport :: transport_snapshot where
  "unknown_transport = \<lparr>ts_present = observed_unknown, ts_open = observed_unknown,
     ts_protocol_up = observed_unknown, ts_connected_at = observed_unknown,
     ts_disconnected_at = observed_unknown, ts_last_response_at = observed_unknown\<rparr>"

definition unknown_identity :: identity_snapshot where
  "unknown_identity = \<lparr>id_model = observed_unknown, id_firmware = observed_unknown,
     id_hardware_id = observed_unknown, id_serial_number = observed_unknown,
     id_resolution_dpi = observed_unknown\<rparr>"

definition unknown_status :: status_snapshot where
  "unknown_status = \<lparr>st_ready = observed_unknown, st_paused = observed_unknown,
     st_media_out = observed_unknown, st_ribbon_out = observed_unknown,
     st_head_open = observed_unknown, st_temperature_fault = observed_unknown,
     st_buffer_available_bytes = observed_unknown, st_print_mode = observed_unknown,
     st_batch_remaining = observed_unknown\<rparr>"

definition unknown_settings :: settings_snapshot where
  "unknown_settings = \<lparr>se_darkness = observed_unknown, se_print_speed = observed_unknown,
     se_slew_speed = observed_unknown, se_backfeed_speed = observed_unknown,
     se_label_length_dots = observed_unknown, se_print_width_dots = observed_unknown,
     se_label_top_dots = observed_unknown, se_x_offset_dots = observed_unknown,
     se_y_offset_dots = observed_unknown, se_format_prefix = observed_unknown,
     se_control_prefix = observed_unknown, se_delimiter = observed_unknown,
     se_communication = observed_unknown\<rparr>"

definition unknown_diagnostics :: diagnostics_snapshot where
  "unknown_diagnostics = \<lparr>dg_head_test = observed_unknown,
     dg_temperature_celsius = observed_unknown, dg_sensor_values = observed_unknown,
     dg_voltage_raw = observed_unknown, dg_pitch_values = observed_unknown\<rparr>"

definition unknown_memory :: memory_snapshot where
  "unknown_memory = \<lparr>my_ram_free_bytes = observed_unknown, my_ram_total_bytes = observed_unknown,
     my_flash_free_bytes = observed_unknown, my_flash_total_bytes = observed_unknown,
     my_other = observed_unknown\<rparr>"

definition unknown_counters :: counter_snapshot where
  "unknown_counters = \<lparr>ct_odometer = observed_unknown, ct_labels_printed = observed_unknown,
     ct_marker_count = observed_unknown, ct_manual_feed_detection = observed_unknown\<rparr>"

definition default_job_summary :: job_summary where
  "default_job_summary = \<lparr>js_queue_depth = 0, js_queue_paused = False, js_open_jobs = 0,
     js_last_job_id = None, js_last_job_state = None\<rparr>"

text \<open>\<open>PrinterSnapshot::new\<close> at the time \<open>t\<close>.\<close>

definition new_snapshot :: "time \<Rightarrow> string \<Rightarrow> printer_snapshot" where
  "new_snapshot t pid = \<lparr>sn_schema_version = 1, sn_printer_id = pid,
     sn_transport = unknown_transport, sn_identity = unknown_identity,
     sn_status = unknown_status, sn_settings = unknown_settings,
     sn_diagnostics = unknown_diagnostics, sn_memory = unknown_memory,
     sn_counters = unknown_counters, sn_media = observed_unknown,
     sn_jobs = default_job_summary, sn_capabilities = [], sn_raw_responses = [],
     sn_query_stats = [], sn_updated_at = t\<rparr>"

section \<open>File contents\<close>

text \<open>
  The typed JSON documents the service stores. \<open>serde_json\<close> is not part of the
  repository: a JSON file is represented by the value its text decodes to.
\<close>

datatype doc =
    DJob job | DQueue "uuid list" | DPaused bool | DMedia media_state
  | DConfigs "printer_config list" | DBootId string | DSnapshot printer_snapshot
  | DObservation observation | DReport save_report
  | DUuid uuid | DEvent event | DLedger media_ledger_event

text \<open>
  A line of a newline-delimited log holds one document, or text that does not decode. A
  file is a whole JSON document, a document whose writing did not finish, a log (its
  terminated lines and the unterminated rest, if any), or plain bytes.
\<close>

datatype log_line = Entry doc | Torn

datatype fcontent =
    Doc doc | Partial | Log "log_line list" "log_line option" | Data "u8 list"

end
