(* ===== verification/Storage.thy ===== *)
theory Storage
  imports Data_Model
begin

text \<open>
  The environment and the file primitives of \<open>src/persist.rs\<close>. The world holds the files
  of the data directory in directory order, the bytes each printer has accepted, and the
  environment: for the \<open>n\<close>-th interaction with the operating system what the clock, the
  UUID generator, the file system and the printer's device answer. The environment is
  arbitrary, so a theorem over all worlds covers every failure; a crash is an environment
  whose calls all fail from some interaction on. The monotonic clock advances by at
  least one nanosecond with every interaction, so a loop with a deadline ends.
\<close>

section \<open>Environment and world\<close>

datatype dev_write = WrOk nat | WrBlock | WrErr string
datatype dev_read = RdOk "u8 list" | RdTimeout | RdErr string
datatype dev_poll = PollReady | PollTimeout | PollErr string

text \<open>What a USB bus shows: descriptors that can fail to be read, and per configuration the
  alternate settings of its interfaces with their endpoints.\<close>

record usb_endpoint =
  ue_bulk :: bool
  ue_in :: bool
  ue_address :: u8

record usb_setting =
  us_class :: u8
  us_interface :: u8
  us_alternate :: u8
  us_endpoints :: "usb_endpoint list"

record usb_device =
  ud_ids :: "string + (u16 \<times> u16)"
  ud_class :: u8
  ud_configs :: "(string + usb_setting list list) list"
  ud_active :: "string + usb_setting list list"
  ud_open :: "string option"
  ud_serial :: "string + string"
  ud_manufacturer :: "string option"
  ud_product :: "string option"
  ud_bus :: u8
  ud_address :: u8

record env =
  env_dt :: "nat \<Rightarrow> nat"                     \<comment> \<open>extra nanoseconds the call takes\<close>
  env_utc :: "nat \<Rightarrow> time"                    \<comment> \<open>\<open>Utc::now()\<close>\<close>
  env_uuid :: "nat \<Rightarrow> uuid"                   \<comment> \<open>\<open>Uuid::new_v4()\<close>\<close>
  env_fs :: "nat \<Rightarrow> (string \<times> bool) option"   \<comment> \<open>file system error; did bytes reach the file\<close>
  env_write :: "nat \<Rightarrow> dev_write"
  env_read :: "nat \<Rightarrow> dev_read"
  env_poll :: "nat \<Rightarrow> dev_poll"
  env_open :: "nat \<Rightarrow> string option"          \<comment> \<open>connect, open or configuration error\<close>
  env_resolve :: "nat \<Rightarrow> string + string list"  \<comment> \<open>addresses of the configured host\<close>
  env_usb :: "nat \<Rightarrow> string + usb_device list"

record world =
  w_env :: env
  w_tick :: nat
  w_clock :: nat
  w_files :: "(path \<times> fcontent) list"
  w_wire :: "string \<Rightarrow> u8 list"

definition advance :: "world \<Rightarrow> world" where
  "advance w = w\<lparr>w_tick := Suc (w_tick w),
     w_clock := w_clock w + 1 + env_dt (w_env w) (w_tick w)\<rparr>"

text \<open>\<open>Utc::now()\<close>, \<open>Uuid::new_v4()\<close> and \<open>thread::sleep\<close>.\<close>

definition now :: "world \<Rightarrow> time \<times> world" where
  "now w = (env_utc (w_env w) (w_tick w), advance w)"

definition new_uuid :: "world \<Rightarrow> uuid \<times> world" where
  "new_uuid w = (env_uuid (w_env w) (w_tick w), advance w)"

definition sleep_ms :: "nat \<Rightarrow> world \<Rightarrow> world" where
  "sleep_ms n w = (advance w)\<lparr>w_clock := w_clock (advance w) + n * 1000000\<rparr>"

text \<open>One call into the file system.\<close>

definition sys :: "world \<Rightarrow> (string + unit) \<times> world" where
  "sys w = (case env_fs (w_env w) (w_tick w) of
              None \<Rightarrow> (Inr (), advance w)
            | Some (e, _) \<Rightarrow> (Inl e, advance w))"

definition lookup :: "path \<Rightarrow> world \<Rightarrow> fcontent option" where
  "lookup p w = map_of (w_files w) p"

definition put :: "path \<Rightarrow> fcontent \<Rightarrow> world \<Rightarrow> world" where
  "put p c w = w\<lparr>w_files := AList.update p c (w_files w)\<rparr>"

definition del :: "path \<Rightarrow> world \<Rightarrow> world" where
  "del p w = w\<lparr>w_files := AList.delete p (w_files w)\<rparr>"

text \<open>Every name occurs once in a directory.\<close>

definition wf_files :: "world \<Rightarrow> bool" where
  "wf_files w = distinct (map fst (w_files w))"

lemma advance_simps [simp]:
  "w_env (advance w) = w_env w" "w_files (advance w) = w_files w" "w_wire (advance w) = w_wire w"
  "lookup p (advance w) = lookup p w" "wf_files (advance w) = wf_files w"
  by (simp_all add: advance_def lookup_def wf_files_def)

lemma advance_clock: "w_clock w < w_clock (advance w)"
  by (simp add: advance_def)

lemma sleep_simps [simp]:
  "w_env (sleep_ms n w) = w_env w" "w_files (sleep_ms n w) = w_files w"
  "w_wire (sleep_ms n w) = w_wire w" "lookup p (sleep_ms n w) = lookup p w"
  "wf_files (sleep_ms n w) = wf_files w"
  by (simp_all add: sleep_ms_def lookup_def wf_files_def)

lemma now_simps [simp]: "snd (now w) = advance w"
  by (simp add: now_def)

lemma new_uuid_simps [simp]: "snd (new_uuid w) = advance w"
  by (simp add: new_uuid_def)

lemma snd_sys [simp]: "snd (sys w) = advance w"
  by (auto simp: sys_def split: option.splits)

lemma sys_Inr [simp]: "sys w = (Inr u, w') \<longleftrightarrow> env_fs (w_env w) (w_tick w) = None \<and> w' = advance w"
  by (auto simp: sys_def split: option.splits)

lemma put_simps [simp]:
  "w_env (put p c w) = w_env w" "w_wire (put p c w) = w_wire w"
  "w_tick (put p c w) = w_tick w" "w_clock (put p c w) = w_clock w"
  "lookup q (put p c w) = (if q = p then Some c else lookup q w)"
  "wf_files w \<Longrightarrow> wf_files (put p c w)"
  by (simp_all add: put_def lookup_def update_conv' wf_files_def distinct_update)

lemma del_simps [simp]:
  "w_env (del p w) = w_env w" "w_wire (del p w) = w_wire w"
  "w_tick (del p w) = w_tick w" "w_clock (del p w) = w_clock w"
  "lookup q (del p w) = (if q = p then None else lookup q w)"
  "wf_files w \<Longrightarrow> wf_files (del p w)"
  by (simp_all add: del_def lookup_def delete_conv' wf_files_def distinct_delete)

section \<open>System calls\<close>

definition create_dir_all :: "world \<Rightarrow> (string + unit) \<times> world" where
  "create_dir_all w = sys w"

definition create_new :: "path \<Rightarrow> world \<Rightarrow> (string + unit) \<times> world" where
  "create_new p w =
     bindE (sys w) (\<lambda>_ w.
       case lookup p w of
         Some _ \<Rightarrow> (Inl ''file exists'', w)
       | None \<Rightarrow> (Inr (), put p Partial w))"

definition write_doc :: "path \<Rightarrow> doc \<Rightarrow> world \<Rightarrow> (string + unit) \<times> world" where
  "write_doc p d w = bindE (sys w) (\<lambda>_ w. (Inr (), put p (Doc d) w))"

definition write_newline :: "world \<Rightarrow> (string + unit) \<times> world" where
  "write_newline w = sys w"

definition sync_call :: "world \<Rightarrow> (string + unit) \<times> world" where
  "sync_call w = sys w"

definition rename_file :: "path \<Rightarrow> path \<Rightarrow> world \<Rightarrow> (string + unit) \<times> world" where
  "rename_file p q w =
     bindE (sys w) (\<lambda>_ w.
       case lookup p w of
         None \<Rightarrow> (Inl ''not found'', w)
       | Some c \<Rightarrow> (Inr (), put q c (del p w)))"

definition remove_file :: "path \<Rightarrow> world \<Rightarrow> (string + unit) \<times> world" where
  "remove_file p w =
     bindE (sys w) (\<lambda>_ w.
       case lookup p w of
         None \<Rightarrow> (Inl ''not found'', w)
       | Some _ \<Rightarrow> (Inr (), del p w))"

text \<open>\<open>Path::exists\<close> answers false when the call fails.\<close>

definition path_exists :: "path \<Rightarrow> world \<Rightarrow> bool \<times> world" where
  "path_exists p w = (case sys w of
     (Inl _, w) \<Rightarrow> (False, w)
   | (Inr _, w) \<Rightarrow> (lookup p w \<noteq> None, w))"

lemma lookup_rename:
  "rename_file p q w = (Inr u, w') \<Longrightarrow>
     lookup q w' = (if p = q then lookup p w else lookup p w) \<and> lookup p w \<noteq> None"
  by (auto simp: rename_file_def bindE_Inr_iff split: option.splits)

section \<open>Atomic replacement of a JSON file\<close>

text \<open>A sequence of calls, each with a question mark.\<close>

fun seqE :: "('w \<Rightarrow> ('e + unit) \<times> 'w) list \<Rightarrow> 'w \<Rightarrow> ('e + unit) \<times> 'w" where
  "seqE [] w = (Inr (), w)"
| "seqE (s # ss) w = bindE (s w) (\<lambda>_ w. seqE ss w)"

text \<open>The closure of \<open>atomic_json\<close>: create the temporary file exclusively, write the
  document and the newline, flush, rename over the target, flush the directory.\<close>

definition atomic_steps :: "path \<Rightarrow> path \<Rightarrow> doc \<Rightarrow> (world \<Rightarrow> (string + unit) \<times> world) list" where
  "atomic_steps tmp p d =
     [create_new tmp, write_doc tmp d, write_newline, sync_call, rename_file tmp p, sync_call]"

definition atomic_json :: "path \<Rightarrow> doc \<Rightarrow> world \<Rightarrow> (string + unit) \<times> world" where
  "atomic_json p d w =
     bindE (create_dir_all w) (\<lambda>_ w.
       let (u, w) = new_uuid w; tmp = Tmp p u; (result, w) = seqE (atomic_steps tmp p d) w
       in if is_ok result then (result, w) else (result, snd (remove_file tmp w)))"

definition read_doc :: "path \<Rightarrow> world \<Rightarrow> (string + doc) \<times> world" where
  "read_doc p w =
     bindE (sys w) (\<lambda>_ w.
       case lookup p w of
         None \<Rightarrow> (Inl ''not found'', w)
       | Some c \<Rightarrow>
           bindE (sys w) (\<lambda>_ w.
             case c of Doc d \<Rightarrow> (Inr d, w) | _ \<Rightarrow> (Inl ''invalid JSON'', w)))"

text \<open>\<open>read_json\<close> at a type: \<open>sel\<close> picks the documents of that type.\<close>

definition read_json :: "(doc \<Rightarrow> 'a option) \<Rightarrow> path \<Rightarrow> world \<Rightarrow> (string + 'a) \<times> world" where
  "read_json sel p w =
     bindE (read_doc p w) (\<lambda>d w.
       case sel d of None \<Rightarrow> (Inl ''unexpected JSON'', w) | Some x \<Rightarrow> (Inr x, w))"

lemma tmp_neq [simp]: "Tmp p u \<noteq> p" "p \<noteq> Tmp p u"
proof -
  have "size (Tmp p u) \<noteq> size p" by simp
  then show "Tmp p u \<noteq> p" by (metis (no_types))
  then show "p \<noteq> Tmp p u" by (rule not_sym)
qed

text \<open>
  What a call of the file system may change: the wire and the environment never, the
  file \<open>p\<close> at most. The relation is a preorder, so it composes.
\<close>

definition only_files :: "path set \<Rightarrow> world \<Rightarrow> world \<Rightarrow> bool" where
  "only_files P w w' =
     (w_env w' = w_env w \<and> w_wire w' = w_wire w \<and> (wf_files w \<longrightarrow> wf_files w') \<and>
      (\<forall>q. q \<notin> P \<longrightarrow> lookup q w' = lookup q w))"

interpretation only_files: respected "only_files P"
  by unfold_locales (auto simp: only_files_def)

lemma only_files_mono: "only_files P w w' \<Longrightarrow> P \<subseteq> Q \<Longrightarrow> only_files Q w w'"
  by (auto simp: only_files_def)

lemma only_files_advance [simp]: "only_files P w (advance w)"
  by (simp add: only_files_def)

lemma only_files_advance_iff [simp]: "only_files P (advance w) w' = only_files P w w'"
  by (simp add: only_files_def)

lemma only_files_sleep [simp]: "only_files P w (sleep_ms n w)"
  by (simp add: only_files_def)

lemma only_files_put [simp]: "p \<in> P \<Longrightarrow> only_files P w (put p c w)"
  by (auto simp: only_files_def)

lemma only_files_del [simp]: "p \<in> P \<Longrightarrow> only_files P w (del p w)"
  by (auto simp: only_files_def)

lemma only_files_lookup: "only_files P w w' \<Longrightarrow> q \<notin> P \<Longrightarrow> lookup q w' = lookup q w"
  by (auto simp: only_files_def)

lemmas call_defs = create_dir_all_def create_new_def write_doc_def write_newline_def sync_call_def
  rename_file_def remove_file_def path_exists_def read_doc_def read_json_def

lemma only_files_calls [simp]:
  "only_files P w (snd (create_dir_all w))"
  "only_files P w (snd (write_newline w))"
  "only_files P w (snd (sync_call w))"
  "only_files P w (snd (path_exists p w))"
  "only_files P w (snd (read_doc p w))"
  "only_files P w (snd (read_json sel p w))"
  by (auto simp: call_defs only_files_def bindE_def sys_def
      split: option.splits prod.splits sum.splits fcontent.splits)

lemma only_files_create_new: "p \<in> P \<Longrightarrow> only_files P w (snd (create_new p w))"
  by (auto simp: call_defs only_files_def bindE_def sys_def split: option.splits)

lemma only_files_write_doc: "p \<in> P \<Longrightarrow> only_files P w (snd (write_doc p d w))"
  by (auto simp: call_defs only_files_def bindE_def sys_def split: option.splits)

lemma only_files_rename: "p \<in> P \<Longrightarrow> q \<in> P \<Longrightarrow> only_files P w (snd (rename_file p q w))"
  by (auto simp: call_defs only_files_def bindE_def sys_def split: option.splits)

lemma only_files_remove: "p \<in> P \<Longrightarrow> only_files P w (snd (remove_file p w))"
  by (auto simp: call_defs only_files_def bindE_def sys_def split: option.splits)

lemmas only_files_file_calls =
  only_files_create_new only_files_write_doc only_files_rename only_files_remove

subsection \<open>The contract of atomic replacement\<close>

text \<open>
  Whatever call fails, and wherever the sequence stops, the target holds its old
  contents or the whole new document.
\<close>

definition old_or_new :: "path \<Rightarrow> doc \<Rightarrow> world \<Rightarrow> world \<Rightarrow> bool" where
  "old_or_new p d w w' = (lookup p w' = lookup p w \<or> lookup p w' = Some (Doc d))"

lemma create_new_Inr:
  "create_new p w = (Inr u, w') \<Longrightarrow> lookup p w' = Some Partial \<and> lookup p w = None"
  by (auto simp: create_new_def bindE_Inr_iff split: option.splits)

lemma write_doc_Inr: "write_doc p d w = (Inr u, w') \<Longrightarrow> lookup p w' = Some (Doc d)"
  by (auto simp: write_doc_def bindE_Inr_iff)

lemma only_files_snd: "f w = (r, w') \<Longrightarrow> only_files P w (snd (f w)) \<Longrightarrow> only_files P w w'"
  by simp

lemma rename_file_Inr:
  "rename_file p q w = (Inr u, w') \<Longrightarrow> p \<noteq> q \<Longrightarrow> lookup q w' = lookup p w \<and> lookup p w' = None"
  by (auto simp: rename_file_def bindE_Inr_iff split: option.splits)

lemma rename_file_Inl: "rename_file p q w = (Inl e, w') \<Longrightarrow> lookup r w' = lookup r w"
  by (auto simp: rename_file_def bindE_Inl_iff sys_def split: option.splits)

lemma seqE_only_files:
  "(\<And>s w. s \<in> set ss \<Longrightarrow> only_files P w (snd (s w))) \<Longrightarrow> only_files P w (snd (seqE ss w))"
  by (induction ss arbitrary: w) (auto simp: only_files.refl intro!: only_files.bindE_respects)

lemma atomic_steps_only_files:
  "s \<in> set (atomic_steps tmp p d) \<Longrightarrow> {tmp, p} \<subseteq> P \<Longrightarrow> only_files P w (snd (s w))"
  by (auto simp: atomic_steps_def intro: only_files_file_calls)

text \<open>The steps before the rename leave the target alone; after \<open>write_doc\<close> the
  temporary file holds the document.\<close>

lemma atomic_prefix_target:
  assumes "tmp \<noteq> p"
  shows "lookup p (snd (seqE (take k [create_new tmp, write_doc tmp d, write_newline, sync_call]) w))
    = lookup p w"
proof (rule only_files_lookup [where P = "{tmp}"])
  show "only_files {tmp} w (snd (seqE (take k [create_new tmp, write_doc tmp d, write_newline,
      sync_call]) w))"
    by (rule seqE_only_files) (auto dest!: in_set_takeD intro: only_files_file_calls)
qed (use assms in simp)

lemma atomic_prefix_Inr:
  assumes "seqE [create_new tmp, write_doc tmp d, write_newline, sync_call] w = (Inr u, w')"
  shows "lookup tmp w' = Some (Doc d)"
proof -
  obtain w1 w2 where "write_doc tmp d w1 = (Inr (), w2)" and w': "w' = advance (advance w2)"
    using assms by (auto simp: bindE_Inr_iff write_newline_def sync_call_def)
  then have "lookup tmp w2 = Some (Doc d)" by (blast dest: write_doc_Inr)
  with w' show ?thesis by simp
qed

lemma seqE_append: "seqE (xs @ ys) w = bindE (seqE xs w) (\<lambda>_ w. seqE ys w)"
proof (induction xs arbitrary: w)
  case Nil
  show ?case by simp
next
  case (Cons x xs)
  then show ?case
    by (cases "x w") (auto simp: bindE_def split: sum.splits)
qed

lemma atomic_suffix:
  assumes "lookup tmp w = Some (Doc d)" and "tmp \<noteq> p"
  shows "old_or_new p d w (snd (seqE (take k [rename_file tmp p, sync_call]) w))"
proof -
  have *: "old_or_new p d w (snd (rename_file tmp p w))"
    using assms by (cases "rename_file tmp p w"; cases "fst (rename_file tmp p w)")
      (auto simp: old_or_new_def dest: rename_file_Inr rename_file_Inl)
  consider "k = 0" | "k = 1" | "k = Suc (Suc (k - 2))" by linarith
  then show ?thesis
  proof cases
    case 1 then show ?thesis by (simp add: old_or_new_def)
  next
    case 2
    with * show ?thesis
      by (cases "rename_file tmp p w") (auto simp: bindE_def split: sum.splits)
  next
    case 3
    have "old_or_new p d w (snd (seqE [rename_file tmp p, sync_call] w))"
      using * by (cases "rename_file tmp p w")
        (auto simp: bindE_def sync_call_def sys_def old_or_new_def split: sum.splits option.splits)
    moreover have "take k [rename_file tmp p, sync_call] = [rename_file tmp p, sync_call]"
      by (rule take_all) (use 3 in simp)
    ultimately show ?thesis by simp
  qed
qed

lemma atomic_steps_split:
  "atomic_steps tmp p d =
     [create_new tmp, write_doc tmp d, write_newline, sync_call] @ [rename_file tmp p, sync_call]"
  by (simp add: atomic_steps_def)

lemma atomic_steps_crash:
  assumes "tmp \<noteq> p"
  shows "old_or_new p d w (snd (seqE (take k (atomic_steps tmp p d)) w))"
proof (cases "k \<le> 4")
  case True
  then have "take k (atomic_steps tmp p d) =
      take k [create_new tmp, write_doc tmp d, write_newline, sync_call]"
    by (simp only: atomic_steps_split take_append) simp
  then show ?thesis using atomic_prefix_target [OF assms, of k d w] by (simp add: old_or_new_def)
next
  case False
  let ?pre = "[create_new tmp, write_doc tmp d, write_newline, sync_call]"
  have split: "take k (atomic_steps tmp p d) = ?pre @ take (k - 4) [rename_file tmp p, sync_call]"
    using False by (simp only: atomic_steps_split take_append) (simp add: eval_nat_numeral)
  have keep: "lookup p (snd (seqE ?pre w)) = lookup p w"
    using atomic_prefix_target [OF assms, of 4 d w] by simp
  obtain r w1 where pre: "seqE ?pre w = (r, w1)" by fastforce
  show ?thesis
  proof (cases r)
    case (Inl e)
    with pre keep show ?thesis
      by (simp only: split seqE_append pre bindE_simps old_or_new_def snd_conv) simp
  next
    case (Inr u)
    have "old_or_new p d w1 (snd (seqE (take (k - 4) [rename_file tmp p, sync_call]) w1))"
      by (rule atomic_suffix [OF atomic_prefix_Inr assms]) (use pre Inr in simp)
    with keep show ?thesis
      by (simp only: split seqE_append pre Inr bindE_simps old_or_new_def snd_conv)
  qed
qed

text \<open>The temporary names of a path.\<close>

definition with_tmps :: "path \<Rightarrow> path set" where
  "with_tmps p = insert p (range (Tmp p))"

lemma atomic_steps_all: "take 6 (atomic_steps tmp p d) = atomic_steps tmp p d"
  by (simp add: atomic_steps_def)

lemma atomic_json_cases:
  obtains (dir) e where "atomic_json p d w = (Inl e, advance w)"
  | (ok) u w1 where "seqE (atomic_steps (Tmp p u) p d) (advance (advance w)) = (Inr (), w1)"
      "atomic_json p d w = (Inr (), w1)"
  | (err) u e w1 where "seqE (atomic_steps (Tmp p u) p d) (advance (advance w)) = (Inl e, w1)"
      "atomic_json p d w = (Inl e, snd (remove_file (Tmp p u) w1))"
proof (cases "env_fs (w_env w) (w_tick w)")
  case (Some x)
  then show ?thesis
    by (cases x) (auto simp: atomic_json_def create_dir_all_def sys_def intro: dir)
next
  case None
  let ?u = "env_uuid (w_env w) (w_tick (advance w))"
  obtain r w1 where seq: "seqE (atomic_steps (Tmp p ?u) p d) (advance (advance w)) = (r, w1)"
    by fastforce
  show ?thesis
  proof (cases r)
    case (Inl e)
    with seq None show ?thesis
      by (auto simp: atomic_json_def create_dir_all_def sys_def new_uuid_def Let_def intro!: err)
  next
    case (Inr x)
    with seq None show ?thesis
      by (auto simp: atomic_json_def create_dir_all_def sys_def new_uuid_def Let_def intro!: ok)
  qed
qed

lemma atomic_json_only_files: "only_files (with_tmps p) w (snd (atomic_json p d w))"
proof -
  have steps: "only_files (with_tmps p) v (snd (seqE (atomic_steps (Tmp p u) p d) v))" for u v
    by (rule seqE_only_files) (auto simp: with_tmps_def intro: atomic_steps_only_files)
  have rm: "only_files (with_tmps p) v (snd (remove_file (Tmp p u) v))" for u v
    by (rule only_files_remove) (simp add: with_tmps_def)
  show ?thesis
  proof (cases rule: atomic_json_cases [of p d w])
    case (ok u w1)
    with steps [of "advance (advance w)" u] show ?thesis by simp
  next
    case (err u e w1)
    from steps [of "advance (advance w)" u] err have "only_files (with_tmps p) w w1" by simp
    with rm [of w1 u] err show ?thesis by (auto intro: only_files.trans)
  qed simp
qed

lemma atomic_json_old_or_new: "old_or_new p d w (snd (atomic_json p d w))"
proof -
  have steps: "old_or_new p d (advance (advance w))
      (snd (seqE (atomic_steps (Tmp p u) p d) (advance (advance w))))" for u
    using atomic_steps_crash [of "Tmp p u" p d "advance (advance w)" 6, OF tmp_neq(1)]
    by (simp only: atomic_steps_all)
  show ?thesis
  proof (cases rule: atomic_json_cases [of p d w])
    case (dir e)
    then show ?thesis by (simp add: old_or_new_def)
  next
    case (ok u w1)
    with steps [of u] show ?thesis by (simp add: old_or_new_def)
  next
    case (err u e w1)
    have "lookup p (snd (remove_file (Tmp p u) w1)) = lookup p w1"
      by (rule only_files_lookup [where P = "{Tmp p u}"]) (simp_all add: only_files_remove)
    with steps [of u] err show ?thesis by (simp add: old_or_new_def)
  qed
qed

lemma atomic_json_Inr:
  assumes "atomic_json p d w = (Inr u, w')"
  shows "lookup p w' = Some (Doc d)"
proof (cases rule: atomic_json_cases [of p d w])
  case (ok v w1)
  let ?pre = "[create_new (Tmp p v), write_doc (Tmp p v) d, write_newline, sync_call]"
  obtain w2 where pre: "seqE ?pre (advance (advance w)) = (Inr (), w2)"
      and suf: "seqE [rename_file (Tmp p v) p, sync_call] w2 = (Inr (), w1)"
    using ok(1) by (simp only: atomic_steps_split seqE_append bindE_Inr_iff) fastforce
  then obtain w3 where "rename_file (Tmp p v) p w2 = (Inr (), w3)" and "w1 = advance w3"
    by (auto simp: bindE_Inr_iff sync_call_def)
  moreover have "lookup (Tmp p v) w2 = Some (Doc d)" by (rule atomic_prefix_Inr [OF pre])
  ultimately have "lookup p w1 = Some (Doc d)"
    by (metis advance_simps(4) rename_file_Inr tmp_neq(1))
  with ok assms show ?thesis by simp
qed (use assms in simp_all)

lemma read_doc_Inr: "read_doc p w = (Inr d, w') \<Longrightarrow> lookup p w = Some (Doc d)"
  by (auto simp: read_doc_def bindE_Inr_iff split: option.splits fcontent.splits)

lemma read_json_Inr:
  "read_json sel p w = (Inr x, w') \<Longrightarrow> \<exists>d. lookup p w = Some (Doc d) \<and> sel d = Some x"
  by (auto simp: read_json_def bindE_Inr_iff split: option.splits dest: read_doc_Inr)

lemma read_json_ok:
  assumes "env_fs (w_env w) = (\<lambda>_. None)" and "lookup p w = Some (Doc d)" and "sel d = Some x"
  shows "fst (read_json sel p w) = Inr x"
  using assms by (simp add: read_json_def read_doc_def sys_def)

lemma read_json_missing: "lookup p w = None \<Longrightarrow> \<exists>e. fst (read_json sel p w) = Inl e"
  by (auto simp: read_json_def read_doc_def bindE_def sys_def split: option.splits)

section \<open>Newline-delimited logs\<close>

definition log_parts :: "fcontent option \<Rightarrow> log_line list \<times> log_line option" where
  "log_parts c = (case c of
     None \<Rightarrow> ([], None)
   | Some (Log es t) \<Rightarrow> (es, t)
   | Some _ \<Rightarrow> ([], Some Torn))"

text \<open>The lines \<open>BufRead::lines\<close> yields: an unterminated rest is a line too.\<close>

definition lines_of :: "fcontent option \<Rightarrow> log_line list" where
  "lines_of c = (case log_parts c of (es, t) \<Rightarrow> es @ (case t of None \<Rightarrow> [] | Some l \<Rightarrow> [l]))"

text \<open>A document written behind an unterminated rest makes a line that does not decode.\<close>

definition open_line :: "log_line option \<Rightarrow> doc \<Rightarrow> log_line" where
  "open_line t d = (case t of None \<Rightarrow> Entry d | Some _ \<Rightarrow> Torn)"

definition append_doc :: "path \<Rightarrow> doc \<Rightarrow> world \<Rightarrow> (string + unit) \<times> world" where
  "append_doc p d w =
     (let (es, t) = log_parts (lookup p w)
      in case env_fs (w_env w) (w_tick w) of
           None \<Rightarrow> (Inr (), put p (Log es (Some (open_line t d))) (advance w))
         | Some (e, torn) \<Rightarrow>
             (Inl e, if torn then put p (Log es (Some Torn)) (advance w) else advance w))"

definition append_newline :: "path \<Rightarrow> world \<Rightarrow> (string + unit) \<times> world" where
  "append_newline p w =
     bindE (sys w) (\<lambda>_ w.
       let (es, t) = log_parts (lookup p w)
       in (Inr (), put p (Log (es @ (case t of None \<Rightarrow> [] | Some l \<Rightarrow> [l])) None) w))"

definition open_append :: "path \<Rightarrow> world \<Rightarrow> (string + unit) \<times> world" where
  "open_append p w =
     bindE (sys w) (\<lambda>_ w.
       (Inr (), case lookup p w of None \<Rightarrow> put p (Log [] None) w | Some _ \<Rightarrow> w))"

definition append_ndjson :: "path \<Rightarrow> doc \<Rightarrow> world \<Rightarrow> (string + unit) \<times> world" where
  "append_ndjson p d w =
     bindE (create_dir_all w) (\<lambda>_ w.
     bindE (open_append p w) (\<lambda>_ w.
     bindE (append_doc p d w) (\<lambda>_ w.
     bindE (append_newline p w) (\<lambda>_ w.
     sync_call w))))"

definition next_sequence :: "path \<Rightarrow> world \<Rightarrow> u64 \<times> world" where
  "next_sequence p w = (case sys w of
     (Inl _, w) \<Rightarrow> (1, w)
   | (Inr _, w) \<Rightarrow>
       (case lookup p w of None \<Rightarrow> (1, w) | Some c \<Rightarrow> (of_nat (length (lines_of (Some c))) + 1, w)))"

text \<open>The loop of \<open>read_ndjson_page\<close>: \<open>i\<close> is the index of the next line, \<open>next\<close> the
  cursor reached so far, \<open>out\<close> the page.\<close>

fun page_loop :: "(doc \<Rightarrow> 'a option) \<Rightarrow> ('a \<Rightarrow> bool) \<Rightarrow> nat \<Rightarrow> nat \<Rightarrow> nat \<Rightarrow> nat \<Rightarrow> 'a list \<Rightarrow>
    log_line list \<Rightarrow> string + ('a list \<times> nat)" where
  "page_loop sel f cursor limit i nxt out [] = Inr (out, nxt)"
| "page_loop sel f cursor limit i nxt out (l # ls) =
     (if i < cursor then page_loop sel f cursor limit (Suc i) nxt out ls
      else (case (case l of Entry d \<Rightarrow> sel d | Torn \<Rightarrow> None) of
              None \<Rightarrow> Inl ''invalid JSON''
            | Some x \<Rightarrow>
                if f x
                then (if length out + 1 \<ge> limit then Inr (out @ [x], Suc i)
                      else page_loop sel f cursor limit (Suc i) (Suc i) (out @ [x]) ls)
                else page_loop sel f cursor limit (Suc i) (Suc i) out ls))"

definition read_ndjson_page :: "(doc \<Rightarrow> 'a option) \<Rightarrow> path \<Rightarrow> nat \<Rightarrow> nat \<Rightarrow> ('a \<Rightarrow> bool) \<Rightarrow> world \<Rightarrow>
    (string + ('a list \<times> nat)) \<times> world" where
  "read_ndjson_page sel p cursor limit f w =
     bindE (sys w) (\<lambda>_ w.
       case lookup p w of
         None \<Rightarrow> (Inr ([], cursor), w)
       | Some c \<Rightarrow> (page_loop sel f cursor limit 0 cursor [] (lines_of (Some c)), w))"

subsection \<open>Appending keeps what is written\<close>

lemma append_ndjson_only_files: "only_files {p} w (snd (append_ndjson p d w))"
  unfolding append_ndjson_def
  by (intro only_files.bindE_respects)
     (auto simp: open_append_def append_doc_def append_newline_def sync_call_def create_dir_all_def
        only_files_def bindE_def sys_def split: option.splits prod.splits)

lemma append_ndjson_Inr:
  assumes "append_ndjson p d w = (Inr u, w')"
    and "lookup p w = None \<and> es = [] \<or> lookup p w = Some (Log es None)"
  shows "lookup p w' = Some (Log (es @ [Entry d]) None)"
  using assms
  by (auto simp: append_ndjson_def bindE_Inr_iff open_append_def append_doc_def append_newline_def
      create_dir_all_def sync_call_def log_parts_def open_line_def
      split: option.splits prod.splits)

text \<open>Even a failing append never loses a terminated line.\<close>

lemma append_ndjson_prefix:
  assumes "lookup p w = Some (Log es t)"
  shows "\<exists>es' t'. lookup p (snd (append_ndjson p d w)) = Some (Log (es @ es') t')"
  using assms
  by (auto simp: append_ndjson_def bindE_def open_append_def append_doc_def append_newline_def
      create_dir_all_def sync_call_def sys_def log_parts_def
      split: option.splits prod.splits sum.splits)

subsection \<open>Paging through a log\<close>

text \<open>The documents of a log all of whose lines decode.\<close>

definition decode_lines :: "(doc \<Rightarrow> 'a option) \<Rightarrow> log_line list \<Rightarrow> 'a list option" where
  "decode_lines sel ls = those (map (\<lambda>l. case l of Entry d \<Rightarrow> sel d | Torn \<Rightarrow> None) ls)"

lemma decode_lines_simps [simp]:
  "decode_lines sel [] = Some []"
  "decode_lines sel (l # ls) =
     (case (case l of Entry d \<Rightarrow> sel d | Torn \<Rightarrow> None) of
        None \<Rightarrow> None | Some x \<Rightarrow> map_option ((#) x) (decode_lines sel ls))"
  by (simp_all add: decode_lines_def split: option.splits)

lemma length_decode_lines: "decode_lines sel ls = Some xs \<Longrightarrow> length xs = length ls"
  by (induction ls arbitrary: xs) (auto split: option.splits)

lemma page_loop_skip:
  "i \<le> cursor \<Longrightarrow>
     page_loop sel f cursor limit i nxt out ls =
       page_loop sel f cursor limit (min cursor (i + length ls)) nxt out (drop (cursor - i) ls)"
proof (induction ls arbitrary: i)
  case Nil
  show ?case by simp
next
  case (Cons l ls)
  show ?case
  proof (cases "i < cursor")
    case True
    with Cons.IH [of "Suc i"] show ?thesis by (simp add: drop_Cons' Suc_diff_Suc)
  next
    case False
    with Cons.prems have "i = cursor" by simp
    then show ?thesis by simp
  qed
qed

lemma page_loop_from:
  assumes "decode_lines sel ls = Some xs" and "cursor \<le> i" and "length out < limit"
  shows "\<exists>ys nxt. page_loop sel f cursor limit i i out ls = Inr (out @ ys, nxt) \<and>
     ys = take (limit - length out) (filter f xs) \<and> i \<le> nxt \<and> nxt \<le> i + length xs \<and>
     filter f xs = ys @ filter f (drop (nxt - i) xs)"
  using assms
proof (induction ls arbitrary: xs i out)
  case Nil
  then show ?case by simp
next
  case (Cons l ls)
  from Cons.prems(1) obtain x xs' where sel: "(case l of Entry d \<Rightarrow> sel d | Torn \<Rightarrow> None) = Some x"
    and dec: "decode_lines sel ls = Some xs'" and xs: "xs = x # xs'"
    by (auto split: option.splits)
  have ih: "length out' < limit \<Longrightarrow> \<exists>ys nxt. page_loop sel f cursor limit (Suc i) (Suc i) out' ls
      = Inr (out' @ ys, nxt) \<and> ys = take (limit - length out') (filter f xs') \<and> Suc i \<le> nxt \<and>
      nxt \<le> Suc i + length xs' \<and> filter f xs' = ys @ filter f (drop (nxt - Suc i) xs')" for out'
    by (rule Cons.IH [OF dec]) (use Cons.prems(2) in simp_all)
  have shift: "Suc i \<le> n \<Longrightarrow> drop (n - i) (x # xs') = drop (n - Suc i) xs'" for n
    by (simp add: drop_Cons' )
  consider (skip) "\<not> f x" | (full) "f x" "limit \<le> Suc (length out)"
    | (more) "f x" "Suc (length out) < limit" by linarith
  then show ?case
  proof cases
    case skip
    with ih [OF Cons.prems(3)] sel xs Cons.prems(2) show ?thesis
      by (auto simp: shift intro: Suc_leD)
  next
    case full
    with sel xs Cons.prems(2,3) show ?thesis by (auto simp: take_Cons')
  next
    case more
    have "length (out @ [x]) < limit" using more(2) by simp
    then obtain ys nxt where
      run: "page_loop sel f cursor limit (Suc i) (Suc i) (out @ [x]) ls = Inr ((out @ [x]) @ ys, nxt)"
      and ys: "ys = take (limit - length (out @ [x])) (filter f xs')"
      and nxt: "Suc i \<le> nxt" "nxt \<le> Suc i + length xs'"
      and rest: "filter f xs' = ys @ filter f (drop (nxt - Suc i) xs')"
      using ih by blast
    have lim: "limit - length out = Suc (limit - Suc (length out))" using more by simp
    have "page_loop sel f cursor limit i i out (l # ls) = Inr (out @ (x # ys), nxt)"
      using more sel run Cons.prems(2) by simp
    moreover have "x # ys = take (limit - length out) (filter f xs)"
      using more(1) ys by (simp add: xs lim)
    moreover have "filter f xs = (x # ys) @ filter f (drop (nxt - i) xs)"
      using more(1) rest nxt(1) by (simp add: xs shift)
    ultimately show ?thesis using nxt xs by (intro exI [of _ "x # ys"] exI [of _ nxt]) simp
  qed
qed

end
