(* ===== verification/Store.thy ===== *)
theory Store
  imports Storage "HOL-Library.Product_Lexorder"
begin

text \<open>
  The \<open>Store\<close> of \<open>src/persist.rs\<close>: the typed documents of the data directory (jobs,
  queues, media, printer configurations), the scans of the job directory, the recovery of
  jobs at start-up, and the job index and event log. The abstraction \<open>jobs_of\<close> reads the
  data directory as a map from identifiers to jobs.
\<close>

section \<open>Documents by type\<close>

definition as_job :: "doc \<Rightarrow> job option" where
  "as_job d = (case d of DJob j \<Rightarrow> Some j | _ \<Rightarrow> None)"

definition as_queue :: "doc \<Rightarrow> uuid list option" where
  "as_queue d = (case d of DQueue q \<Rightarrow> Some q | _ \<Rightarrow> None)"

definition as_paused :: "doc \<Rightarrow> bool option" where
  "as_paused d = (case d of DPaused b \<Rightarrow> Some b | _ \<Rightarrow> None)"

definition as_media :: "doc \<Rightarrow> media_state option" where
  "as_media d = (case d of DMedia m \<Rightarrow> Some m | _ \<Rightarrow> None)"

definition as_configs :: "doc \<Rightarrow> printer_config list option" where
  "as_configs d = (case d of DConfigs c \<Rightarrow> Some c | _ \<Rightarrow> None)"

definition as_boot_id :: "doc \<Rightarrow> string option" where
  "as_boot_id d = (case d of DBootId b \<Rightarrow> Some b | _ \<Rightarrow> None)"

definition as_uuid :: "doc \<Rightarrow> uuid option" where
  "as_uuid d = (case d of DUuid u \<Rightarrow> Some u | _ \<Rightarrow> None)"

definition as_event :: "doc \<Rightarrow> event option" where
  "as_event d = (case d of DEvent e \<Rightarrow> Some e | _ \<Rightarrow> None)"

lemmas as_doc_defs = as_job_def as_queue_def as_paused_def as_media_def as_configs_def
  as_boot_id_def as_uuid_def as_event_def

section \<open>Jobs\<close>

definition save_job :: "job \<Rightarrow> world \<Rightarrow> (string + unit) \<times> world" where
  "save_job j w = atomic_json (JobFile (job_id j)) (DJob j) w"

definition load_job :: "uuid \<Rightarrow> world \<Rightarrow> (string + job) \<times> world" where
  "load_job jid w = read_json as_job (JobFile jid) w"

definition register_job :: "uuid \<Rightarrow> world \<Rightarrow> (string + unit) \<times> world" where
  "register_job jid w = append_ndjson JobIndex (DUuid jid) w"

text \<open>The entries of the directory \<open>jobs\<close>: job files and the temporary files beside
  them, whose extension is not \<open>json\<close>.\<close>

fun in_jobs_dir :: "path \<Rightarrow> bool" where
  "in_jobs_dir (JobFile _) = True"
| "in_jobs_dir (Tmp p _) = in_jobs_dir p"
| "in_jobs_dir _ = False"

fun has_json_extension :: "path \<Rightarrow> bool" where
  "has_json_extension (JobFile _) = True"
| "has_json_extension _ = False"

definition read_jobs_dir :: "world \<Rightarrow> (string + path list) \<times> world" where
  "read_jobs_dir w = bindE (sys w) (\<lambda>_ w. (Inr (filter in_jobs_dir (map fst (w_files w))), w))"

definition is_open_state :: "jstate \<Rightarrow> bool" where
  "is_open_state s = (s \<in> {Receiving, Queued, Writing, Verifying, Held})"

definition is_open_job :: "string \<Rightarrow> job \<Rightarrow> bool" where
  "is_open_job pid j = (job_printer_id j = pid \<and> is_open_state (job_state j))"

text \<open>
  The loop the four scans share: list the directory, skip other extensions and files that
  do not decode, and hand every job to \<open>step\<close> with the accumulator; the flag of the
  step's result is an early return.
\<close>

fun scan_jobs :: "(job \<Rightarrow> 'a \<Rightarrow> world \<Rightarrow> (string + 'a \<times> bool) \<times> world) \<Rightarrow> path list \<Rightarrow> 'a \<Rightarrow> world \<Rightarrow>
    (string + 'a) \<times> world" where
  "scan_jobs step [] a w = (Inr a, w)"
| "scan_jobs step (p # ps) a w =
     bindE (sys w) (\<lambda>_ w.
       if \<not> has_json_extension p then scan_jobs step ps a w
       else case read_json as_job p w of
         (Inl _, w) \<Rightarrow> scan_jobs step ps a w
       | (Inr j, w) \<Rightarrow>
           bindE (step j a w) (\<lambda>r w.
             if snd r then (Inr (fst r), w) else scan_jobs step ps (fst r) w))"

definition for_jobs :: "(job \<Rightarrow> 'a \<Rightarrow> world \<Rightarrow> (string + 'a \<times> bool) \<times> world) \<Rightarrow> 'a \<Rightarrow> world \<Rightarrow>
    (string + 'a) \<times> world" where
  "for_jobs step a w = bindE (read_jobs_dir w) (\<lambda>ps w. scan_jobs step ps a w)"

definition count_step :: "string \<Rightarrow> job \<Rightarrow> nat \<Rightarrow> nat \<times> bool" where
  "count_step pid j n = (if is_open_job pid j then n + 1 else n, False)"

definition count_active_jobs :: "string \<Rightarrow> world \<Rightarrow> (string + nat) \<times> world" where
  "count_active_jobs pid w = for_jobs (\<lambda>j n w. (Inr (count_step pid j n), w)) 0 w"

definition open_step :: "string \<Rightarrow> job \<Rightarrow> bool \<Rightarrow> bool \<times> bool" where
  "open_step pid j b = (if is_open_job pid j then (True, True) else (b, False))"

definition has_open_jobs :: "string \<Rightarrow> world \<Rightarrow> (string + bool) \<times> world" where
  "has_open_jobs pid w = for_jobs (\<lambda>j b w. (Inr (open_step pid j b), w)) False w"

text \<open>A job answers an idempotency key when its upload is complete (it has a hash).\<close>

definition answers_key :: "string \<Rightarrow> uuid option \<Rightarrow> job \<Rightarrow> bool" where
  "answers_key key exclude j =
     (Some (job_id j) \<noteq> exclude \<and> job_sha256 j \<noteq> None \<and> job_idempotency_key j = Some key)"

definition find_step :: "string \<Rightarrow> uuid option \<Rightarrow> job \<Rightarrow> job option \<Rightarrow> job option \<times> bool" where
  "find_step key exclude j r =
     (if answers_key key exclude j then (Some j, True) else (r, False))"

definition find_job_by_idempotency_key_inner ::
    "string \<Rightarrow> uuid option \<Rightarrow> world \<Rightarrow> (string + job option) \<times> world" where
  "find_job_by_idempotency_key_inner key exclude w =
     for_jobs (\<lambda>j r w. (Inr (find_step key exclude j r), w)) None w"

definition find_job_by_idempotency_key ::
    "string \<Rightarrow> uuid \<Rightarrow> world \<Rightarrow> (string + job option) \<times> world" where
  "find_job_by_idempotency_key key exclude w =
     find_job_by_idempotency_key_inner key (Some exclude) w"

definition find_job_by_idempotency_key_any ::
    "string \<Rightarrow> world \<Rightarrow> (string + job option) \<times> world" where
  "find_job_by_idempotency_key_any key w = find_job_by_idempotency_key_inner key None w"

definition remove_unregistered_job :: "uuid \<Rightarrow> world \<Rightarrow> world" where
  "remove_unregistered_job jid w =
     (let w = snd (remove_file (JobFile jid) w);
          w = snd (remove_file (PayloadFile jid) w)
      in snd (remove_file (SpoolFile jid) w))"

fun list_loop :: "nat \<Rightarrow> job list \<Rightarrow> log_line list \<Rightarrow> world \<Rightarrow> (string + job list) \<times> world" where
  "list_loop limit out [] w = (Inr out, w)"
| "list_loop limit out (l # ls) w =
     (if length out \<ge> limit then (Inr out, w)
      else case (case l of Entry d \<Rightarrow> as_uuid d | Torn \<Rightarrow> None) of
        None \<Rightarrow> (Inl ''invalid JSON'', w)
      | Some jid \<Rightarrow>
          (case load_job jid w of
             (Inl _, w) \<Rightarrow> list_loop limit out ls w
           | (Inr j, w) \<Rightarrow> list_loop limit (out @ [j]) ls w))"

definition list_jobs_page :: "nat \<Rightarrow> nat \<Rightarrow> world \<Rightarrow> (string + job list) \<times> world" where
  "list_jobs_page cursor limit w =
     bindE (sys w) (\<lambda>_ w.
       case lookup JobIndex w of
         None \<Rightarrow> (Inr [], w)
       | Some c \<Rightarrow> list_loop limit [] (drop cursor (lines_of (Some c))) w)"

section \<open>Recovery at start-up\<close>

text \<open>What the loop of \<open>recover_jobs\<close> does with one job.\<close>

definition recover_step :: "job \<Rightarrow> job list \<Rightarrow> world \<Rightarrow> (string + job list \<times> bool) \<times> world" where
  "recover_step j queued w =
     (if job_state j = Receiving then
        (let (t, w) = now w;
             j = j\<lparr>job_state := Failed, job_updated_at := t,
                   job_error := Some ''agent_restarted_during_upload''\<rparr>;
             w = snd (remove_file (SpoolFile (job_id j)) w)
         in bindE (save_job j w) (\<lambda>_ w. (Inr (queued, False), w)))
      else if job_state j = Writing \<or> job_state j = Verifying then
        (let (t, w) = now w;
             j = j\<lparr>job_state := OutcomeUnknown, job_updated_at := t,
                   job_error := Some ''agent_restarted_during_delivery''\<rparr>
         in bindE (save_job j w) (\<lambda>_ w. (Inr (queued, False), w)))
      else if job_state j = Queued then (Inr (queued @ [j], False), w)
      else (Inr (queued, False), w))"

definition by_creation :: "job \<Rightarrow> time \<times> uuid" where
  "by_creation j = (job_created_at j, job_id j)"

definition recover_jobs :: "world \<Rightarrow> (string + job list) \<times> world" where
  "recover_jobs w =
     bindE (for_jobs recover_step [] w) (\<lambda>queued w. (Inr (sort_key by_creation queued), w))"

section \<open>Media, events, queues, printer configurations\<close>

definition load_media :: "string \<Rightarrow> world \<Rightarrow> (string + media_state option) \<times> world" where
  "load_media pid w =
     (case path_exists (MediaFile pid) w of
        (True, w) \<Rightarrow> bindE (read_json as_media (MediaFile pid) w) (\<lambda>m w. (Inr (Some m), w))
      | (False, w) \<Rightarrow> (Inr None, w))"

definition save_media :: "string \<Rightarrow> media_state \<Rightarrow> world \<Rightarrow> (string + unit) \<times> world" where
  "save_media pid m w =
     bindE (create_dir_all w) (\<lambda>_ w. atomic_json (MediaFile pid) (DMedia m) w)"

definition append_media_ledger :: "string \<Rightarrow> media_ledger_event \<Rightarrow> world \<Rightarrow> (string + unit) \<times> world"
  where "append_media_ledger pid e w = append_ndjson (LedgerFile pid) (DLedger e) w"

definition append_event :: "event \<Rightarrow> world \<Rightarrow> (string + unit) \<times> world" where
  "append_event e w = append_ndjson EventLog (DEvent e) w"

definition next_event :: "string \<Rightarrow> string option \<Rightarrow> uuid option \<Rightarrow> json \<Rightarrow> world \<Rightarrow> event \<times> world"
  where
  "next_event kind pid jid data w =
     (let (s, w) = next_sequence EventLog w; (t, w) = now w
      in (\<lparr>ev_sequence = s, ev_at = t, ev_kind = kind, ev_printer_id = pid, ev_job_id = jid,
            ev_data = data\<rparr>, w))"

definition event_filter :: "uuid option \<Rightarrow> event \<Rightarrow> bool" where
  "event_filter jid e = (case jid of None \<Rightarrow> True | Some u \<Rightarrow> ev_job_id e = Some u)"

definition read_events :: "nat \<Rightarrow> nat \<Rightarrow> uuid option \<Rightarrow> world \<Rightarrow> (string + (event list \<times> nat)) \<times> world"
  where "read_events cursor limit jid w =
     read_ndjson_page as_event EventLog cursor limit (event_filter jid) w"

definition save_queue :: "string \<Rightarrow> uuid list \<Rightarrow> world \<Rightarrow> (string + unit) \<times> world" where
  "save_queue pid q w =
     bindE (create_dir_all w) (\<lambda>_ w. atomic_json (QueueFile pid) (DQueue q) w)"

definition load_queue :: "string \<Rightarrow> world \<Rightarrow> (string + uuid list) \<times> world" where
  "load_queue pid w =
     (case path_exists (QueueFile pid) w of
        (True, w) \<Rightarrow> read_json as_queue (QueueFile pid) w
      | (False, w) \<Rightarrow> (Inr [], w))"

definition save_queue_paused :: "string \<Rightarrow> bool \<Rightarrow> world \<Rightarrow> (string + unit) \<times> world" where
  "save_queue_paused pid b w =
     bindE (create_dir_all w) (\<lambda>_ w. atomic_json (QueuePausedFile pid) (DPaused b) w)"

definition load_queue_paused :: "string \<Rightarrow> world \<Rightarrow> (string + bool) \<times> world" where
  "load_queue_paused pid w =
     (case path_exists (QueuePausedFile pid) w of
        (True, w) \<Rightarrow> read_json as_paused (QueuePausedFile pid) w
      | (False, w) \<Rightarrow> (Inr False, w))"

definition load_printer_configs :: "world \<Rightarrow> (string + printer_config list option) \<times> world" where
  "load_printer_configs w =
     (case path_exists PrinterConfigsFile w of
        (True, w) \<Rightarrow>
          bindE (read_json as_configs PrinterConfigsFile w) (\<lambda>c w. (Inr (Some c), w))
      | (False, w) \<Rightarrow> (Inr None, w))"

definition save_printer_configs :: "printer_config list \<Rightarrow> world \<Rightarrow> (string + unit) \<times> world" where
  "save_printer_configs ps w = atomic_json PrinterConfigsFile (DConfigs ps) w"

section \<open>A document per key\<close>

text \<open>
  The contract the typed save and load pairs share: \<open>save k v\<close> touches the file of \<open>k\<close>
  and its temporary files only, replaces it as a whole, and \<open>load\<close> finds what a
  successful \<open>save\<close> stored. \<open>matches k v\<close> says that \<open>v\<close> is a document for \<open>k\<close>, \<open>wrap\<close>
  how \<open>load\<close> returns it.
\<close>

definition quiet :: "world \<Rightarrow> bool" where
  "quiet w = (env_fs (w_env w) = (\<lambda>_. None))"

definition no_tmp :: "world \<Rightarrow> bool" where
  "no_tmp w = (\<forall>p u. lookup (Tmp p u) w = None)"

fun is_tmp :: "path \<Rightarrow> bool" where
  "is_tmp (Tmp _ _) = True"
| "is_tmp _ = False"

locale doc_store =
  fixes save :: "'k \<Rightarrow> 'v \<Rightarrow> world \<Rightarrow> (string + unit) \<times> world"
    and load :: "'k \<Rightarrow> world \<Rightarrow> (string + 'l) \<times> world"
    and file_of :: "'k \<Rightarrow> path"
    and doc_of :: "'v \<Rightarrow> doc"
    and matches :: "'k \<Rightarrow> 'v \<Rightarrow> bool"
    and wrap :: "'v \<Rightarrow> 'l"
  assumes save_only: "matches k v \<Longrightarrow> only_files (with_tmps (file_of k)) w (snd (save k v w))"
    and save_ok: "matches k v \<Longrightarrow> save k v w = (Inr u, w') \<Longrightarrow>
      lookup (file_of k) w' = Some (Doc (doc_of v))"
    and save_any: "matches k v \<Longrightarrow> old_or_new (file_of k) (doc_of v) w (snd (save k v w))"
    and save_quiet: "matches k v \<Longrightarrow> quiet w \<Longrightarrow> no_tmp w \<Longrightarrow>
      \<exists>w'. save k v w = (Inr (), w') \<and> no_tmp w'"
    and load_only: "only_files {} w (snd (load k w))"
    and load_quiet: "quiet w \<Longrightarrow> lookup (file_of k) w = Some (Doc (doc_of v)) \<Longrightarrow>
      fst (load k w) = Inr (wrap v)"
    and file_plain: "\<not> is_tmp (file_of k)"
    and file_inj: "file_of k = file_of k' \<longleftrightarrow> k = k'"
begin

lemma quiet_save: "matches k v \<Longrightarrow> quiet w \<Longrightarrow> quiet (snd (save k v w))"
  using save_only [of k v w] by (simp add: only_files_def quiet_def)

lemma load_saved:
  assumes "matches k v" and "save k v w = (Inr u, w')" and "quiet w"
  shows "fst (load k w') = Inr (wrap v)"
proof (rule load_quiet)
  show "quiet w'" using quiet_save [of k v w] assms by simp
qed (rule save_ok [OF assms(1,2)])

lemma save_other: "matches k v \<Longrightarrow> k' \<noteq> k \<Longrightarrow>
    lookup (file_of k') (snd (save k v w)) = lookup (file_of k') w"
  using file_plain [of k'] file_inj [of k' k]
  by (intro only_files_lookup [OF save_only]) (auto simp: with_tmps_def)

lemma save_then_load:
  assumes "matches k v" and "quiet w" and "no_tmp w"
  shows "fst (bindE (save k v w) (\<lambda>_ w. load k w)) = Inr (wrap v)"
  using save_quiet [OF assms] load_saved [OF assms(1) _ assms(2)] by auto

end

subsection \<open>Frames\<close>

lemma only_files_atomic:
  "with_tmps p \<subseteq> P \<Longrightarrow> only_files P w (snd (atomic_json p d w))"
  using atomic_json_only_files only_files_mono by blast

lemma only_files_then_atomic:
  "with_tmps p \<subseteq> P \<Longrightarrow> only_files P w (snd (bindE (create_dir_all w) (\<lambda>_ w. atomic_json p d w)))"
  by (rule only_files.bindE_respects) (simp_all add: only_files_atomic)

lemma only_files_loads [simp]:
  "only_files P w (snd (load_job jid w))"
  "only_files P w (snd (load_media pid w))"
  "only_files P w (snd (load_queue pid w))"
  "only_files P w (snd (load_queue_paused pid w))"
  "only_files P w (snd (load_printer_configs w))"
  by (auto simp: load_job_def load_media_def load_queue_def load_queue_paused_def
      load_printer_configs_def path_exists_def sys_def bindE_def
      read_json_def read_doc_def only_files_def
      split: option.splits prod.splits sum.splits bool.splits fcontent.splits)

lemma only_files_read_jobs_dir [simp]: "only_files P w (snd (read_jobs_dir w))"
  by (auto simp: read_jobs_dir_def bindE_def sys_def only_files_def split: option.splits)

subsection \<open>The stores of the program\<close>

lemma atomic_json_quiet:
  assumes "quiet w" and "no_tmp w" and "\<not> is_tmp p"
  shows "\<exists>w'. atomic_json p d w = (Inr (), w') \<and> no_tmp w'"
proof -
  have q: "env_fs (w_env w) = (\<lambda>_. None)" using assms(1) by (simp add: quiet_def)
  have n: "lookup (Tmp r v) w = None" for r v using assms(2) by (simp add: no_tmp_def)
  have s: "sys v = (Inr (), advance v)" if "env_fs (w_env v) = (\<lambda>_. None)" for v
    using that by (simp add: sys_def)
  from assms(3) have "p \<noteq> Tmp r v" for r v by auto
  then show ?thesis
    by (auto simp: atomic_json_def create_dir_all_def s q new_uuid_def Let_def atomic_steps_def
        create_new_def n write_doc_def write_newline_def sync_call_def rename_file_def no_tmp_def)
qed

lemma load_exists:
  assumes "quiet w" and "lookup p w \<noteq> None"
  shows "path_exists p w = (True, advance w)"
  using assms by (simp add: path_exists_def sys_def quiet_def)

lemma read_json_quiet:
  "quiet w \<Longrightarrow> lookup p w = Some (Doc d) \<Longrightarrow> sel d = Some x \<Longrightarrow> fst (read_json sel p w) = Inr x"
  by (rule read_json_ok) (simp_all add: quiet_def)

lemma quiet_advance [simp]: "quiet (advance w) = quiet w"
  by (simp add: quiet_def)

lemma no_tmp_advance [simp]: "no_tmp (advance w) = no_tmp w"
  by (simp add: no_tmp_def)

lemma fst_bindE_Some: "fst m = Inr x \<Longrightarrow> fst (bindE m (\<lambda>m w. (Inr (Some m), w))) = Inr (Some x)"
  by (cases m) auto

interpretation jobs: doc_store "\<lambda>_. save_job" load_job JobFile DJob "\<lambda>k j. job_id j = k" "\<lambda>j. j"
proof
  fix k :: uuid and v w w' and u :: unit
  show "job_id v = k \<Longrightarrow> only_files (with_tmps (JobFile k)) w (snd (save_job v w))"
    by (auto simp: save_job_def only_files_atomic)
  show "job_id v = k \<Longrightarrow> save_job v w = (Inr u, w') \<Longrightarrow> lookup (JobFile k) w' = Some (Doc (DJob v))"
    by (auto simp: save_job_def intro: atomic_json_Inr)
  show "job_id v = k \<Longrightarrow> old_or_new (JobFile k) (DJob v) w (snd (save_job v w))"
    using atomic_json_old_or_new by (auto simp: save_job_def)
  show "job_id v = k \<Longrightarrow> quiet w \<Longrightarrow> no_tmp w \<Longrightarrow> \<exists>w'. save_job v w = (Inr (), w') \<and> no_tmp w'"
    by (auto simp: save_job_def intro: atomic_json_quiet)
  show "quiet w \<Longrightarrow> lookup (JobFile k) w = Some (Doc (DJob v)) \<Longrightarrow> fst (load_job k w) = Inr v"
    by (auto simp: load_job_def as_job_def intro: read_json_quiet)
qed simp_all

lemma then_atomic_Inr:
  "bindE (create_dir_all w) (\<lambda>_ w. atomic_json p d w) = (Inr u, w') \<Longrightarrow> lookup p w' = Some (Doc d)"
  by (auto simp: bindE_Inr_iff intro: atomic_json_Inr)

lemma then_atomic_old_or_new:
  "old_or_new p d w (snd (bindE (create_dir_all w) (\<lambda>_ w. atomic_json p d w)))"
proof (cases "create_dir_all w")
  case (Pair r w1)
  then have "w1 = advance w" by (auto simp: create_dir_all_def sys_def split: option.splits)
  with Pair show ?thesis
    using atomic_json_old_or_new [of p d "advance w"]
    by (cases r) (simp_all add: old_or_new_def)
qed

lemma then_atomic_quiet:
  "quiet w \<Longrightarrow> no_tmp w \<Longrightarrow> \<not> is_tmp p \<Longrightarrow>
     \<exists>w'. bindE (create_dir_all w) (\<lambda>_ w. atomic_json p d w) = (Inr (), w') \<and> no_tmp w'"
  using atomic_json_quiet [of "advance w" p d] by (simp add: create_dir_all_def sys_def quiet_def)

lemmas then_atomic = then_atomic_Inr then_atomic_old_or_new then_atomic_quiet only_files_then_atomic

lemma loads_quiet:
  "quiet w \<Longrightarrow> lookup (QueueFile k) w = Some (Doc (DQueue q)) \<Longrightarrow> fst (load_queue k w) = Inr q"
  "quiet w \<Longrightarrow> lookup (QueuePausedFile k) w = Some (Doc (DPaused b)) \<Longrightarrow>
     fst (load_queue_paused k w) = Inr b"
  "quiet w \<Longrightarrow> lookup (MediaFile k) w = Some (Doc (DMedia m)) \<Longrightarrow>
     fst (load_media k w) = Inr (Some m)"
  "quiet w \<Longrightarrow> lookup PrinterConfigsFile w = Some (Doc (DConfigs c)) \<Longrightarrow>
     fst (load_printer_configs w) = Inr (Some c)"
  by (auto simp: load_queue_def load_queue_paused_def load_media_def load_printer_configs_def
      load_exists as_doc_defs intro!: read_json_quiet fst_bindE_Some)

interpretation queues: doc_store save_queue load_queue QueueFile DQueue "\<lambda>_ _. True" "\<lambda>q. q"
  by unfold_locales (auto simp: save_queue_def then_atomic loads_quiet intro: then_atomic)

interpretation pauses: doc_store save_queue_paused load_queue_paused QueuePausedFile DPaused
    "\<lambda>_ _. True" "\<lambda>b. b"
  by unfold_locales (auto simp: save_queue_paused_def then_atomic loads_quiet intro: then_atomic)

interpretation media_files: doc_store save_media load_media MediaFile DMedia "\<lambda>_ _. True" Some
  by unfold_locales (auto simp: save_media_def then_atomic loads_quiet intro: then_atomic)

interpretation configs: doc_store "\<lambda>_ :: unit. save_printer_configs" "\<lambda>_. load_printer_configs"
    "\<lambda>_. PrinterConfigsFile" DConfigs "\<lambda>_ _. True" Some
  by unfold_locales
     (auto simp: save_printer_configs_def loads_quiet only_files_atomic atomic_json_old_or_new
        atomic_json_quiet intro: atomic_json_Inr)

end
