(* ===== verification/Samples.thy ===== *)
theory Samples
  imports Store
begin

text \<open>
  Concrete inputs on which the properties of the development are evaluated: an environment
  whose calls all succeed, worlds holding given files, a job, a roll of media and a printer.
\<close>

definition calm_env :: env where
  "calm_env = \<lparr>env_dt = \<lambda>_. 0, env_utc = int, env_uuid = of_nat, env_fs = \<lambda>_. None,
     env_write = \<lambda>_. WrOk 4096, env_read = \<lambda>_. RdTimeout, env_poll = \<lambda>_. PollReady,
     env_open = \<lambda>_. None, env_resolve = \<lambda>_. Inr [''192.0.2.1:9100''],
     env_usb = \<lambda>_. Inr []\<rparr>"

definition world_with :: "(path \<times> fcontent) list \<Rightarrow> world" where
  "world_with fs = \<lparr>w_env = calm_env, w_tick = 0, w_clock = 0, w_files = fs, w_wire = \<lambda>_. []\<rparr>"

definition sample_job :: "jstate \<Rightarrow> job" where
  "sample_job s = \<lparr>job_id = 7, job_printer_id = ''p'', job_state = s, job_created_at = 0,
     job_updated_at = 0, job_label_count = Some 3, job_label_count_source = Some ''declared'',
     job_origin = None, job_description = None, job_idempotency_key = None, job_sha256 = None,
     job_bytes = 4, job_bytes_transferred = 0, job_delivery_attempts = 0,
     job_payload_path = Some (PayloadFile 7), job_error = None\<rparr>"

definition sample_media_definition :: media_definition where
  "sample_media_definition = \<lparr>md_display_name = ''Yellow labels'', md_product_number = None,
     md_manufacturer = None, md_description = None, md_width_mm = f64_thirty,
     md_height_mm = f64_thirty, md_gap_mm = None, md_corner_radius_mm = None,
     md_black_mark_width_mm = None, md_black_mark_height_mm = None, md_core_diameter_mm = None,
     md_outer_diameter_mm = None, md_shape = ''rectangle'', md_tracking = Gap,
     md_print_technology = DirectThermal,
     md_color = \<lparr>mc_name = ''Yellow'', mc_hex = Some ''#ffdd00'', mc_description = None\<rparr>,
     md_material = None, md_surface = None, md_transparent = None, md_thermal_coating = None,
     md_thickness_micrometers = None, md_adhesive = None, md_liner = None, md_ribbon = None,
     md_preferred_settings = \<lparr>ps_darkness = None, ps_speed = None, ps_x_offset = None,
       ps_y_offset = None, ps_print_mode = None\<rparr>,
     md_labels_available_at_load = 100, md_nominal_full_roll_labels = None,
     md_low_warning_threshold = 10, md_custom = []\<rparr>"

definition sample_media :: "u64 \<Rightarrow> u64 \<Rightarrow> media_state" where
  "sample_media remaining consumed = \<lparr>ms_media = sample_media_definition, ms_loaded_at = 0,
     ms_initial_labels = 100, ms_remaining_labels = remaining,
     ms_consumed_labels_total = consumed, ms_accounting_deficit_labels = 0,
     ms_accounting_confidence = Estimated, ms_last_accounting_event_at = None,
     ms_ledger_sequence = 0\<rparr>"

definition sample_printer :: printer_config where
  "sample_printer = default_printer_config\<lparr>pc_id := ''p'', pc_display_name := ''Printer'',
     pc_transport := ''tcp'', pc_tcp_host := Some ''192.0.2.1''\<rparr>"

lemma world_with_simps [simp]:
  "w_env (world_with fs) = calm_env" "w_tick (world_with fs) = 0" "w_clock (world_with fs) = 0"
  "w_files (world_with fs) = fs" "w_wire (world_with fs) = (\<lambda>_. [])"
  "lookup p (world_with fs) = map_of fs p" "quiet (world_with fs)"
  "wf_files (world_with fs) = distinct (map fst fs)"
  by (simp_all add: world_with_def lookup_def quiet_def wf_files_def calm_env_def)

text \<open>The definitions that run file operations on a concrete world.\<close>

lemmas run_defs = bindE_def sys_def call_defs seqE.simps atomic_json_def atomic_steps_def new_uuid_def now_def
  Let_def save_media_def load_media_def as_media_def append_media_ledger_def append_ndjson_def
  open_append_def append_doc_def append_newline_def log_parts_def open_line_def save_job_def load_job_def as_job_def save_queue_def
  load_queue_def as_queue_def world_with_def calm_env_def advance_def lookup_def put_def del_def is_ok_def

lemma no_tmp_world_with [simp]:
  "no_tmp (world_with fs) = (\<forall>(p, c) \<in> set fs. \<not> is_tmp p)"
proof -
  have "(\<forall>p u. map_of fs (Tmp p u) = None) = (\<forall>(p, c) \<in> set fs. \<not> is_tmp p)"
  proof (induction fs)
    case Nil
    show ?case by simp
  next
    case (Cons f fs)
    have "(\<forall>p u. Tmp p u \<noteq> fst f) = (\<not> is_tmp (fst f))" by (cases "fst f") auto
    with Cons show ?case by (auto simp: eq_commute split: prod.splits)
  qed
  then show ?thesis by (simp add: no_tmp_def)
qed

end
