(* ===== verification/Lifecycle.thy ===== *)
theory Lifecycle
  imports Samples
begin

text \<open>
  The life cycle of jobs over the data directory. \<open>jobs_of\<close> abstracts the directory to a
  map from identifiers to jobs; \<open>can_reach\<close> is the life cycle the code implements;
  \<open>evolves\<close> says that a step of the program moves every job along it. The scans of the
  job directory are characterised over \<open>jobs_of\<close>, and recovery is shown to re-queue
  exactly the jobs that never started.
\<close>

section \<open>The job directory as a map\<close>

definition jobs_of :: "world \<Rightarrow> uuid \<Rightarrow> job option" where
  "jobs_of w jid = (case lookup (JobFile jid) w of Some (Doc (DJob j)) \<Rightarrow> Some j | _ \<Rightarrow> None)"

text \<open>Every job file holds the job of its name, and a job's payload is the file of its name.\<close>

definition payload_ok :: "job \<Rightarrow> bool" where
  "payload_ok j = (job_payload_path j = None \<or> job_payload_path j = Some (PayloadFile (job_id j)))"

definition jobs_keyed :: "world \<Rightarrow> bool" where
  "jobs_keyed w = (\<forall>jid j. jobs_of w jid = Some j \<longrightarrow> job_id j = jid \<and> payload_ok j)"

text \<open>What the code can make of a job in a given state, in any number of steps.\<close>

fun can_reach :: "jstate \<Rightarrow> jstate \<Rightarrow> bool" where
  "can_reach Receiving s = True"
| "can_reach Queued s =
     (s \<in> {Queued, Writing, TransportAccepted, Cancelled, Failed, OutcomeUnknown})"
| "can_reach Writing s = (s \<in> {Writing, TransportAccepted, Failed, OutcomeUnknown})"
| "can_reach Verifying s = (s \<in> {Verifying, OutcomeUnknown})"
| "can_reach s t = (t = s)"

lemma can_reach_refl [simp]: "can_reach s s"
  by (cases s) auto

lemma can_reach_trans: "can_reach s t \<Longrightarrow> can_reach t u \<Longrightarrow> can_reach s u"
  by (cases s; cases t) auto

text \<open>The fields a job keeps for life.\<close>

definition same_identity :: "job \<Rightarrow> job \<Rightarrow> bool" where
  "same_identity j j' =
     (job_id j' = job_id j \<and> job_printer_id j' = job_printer_id j \<and>
      job_created_at j' = job_created_at j)"

definition job_moves :: "job option \<Rightarrow> job option \<Rightarrow> bool" where
  "job_moves a b = (case a of
     None \<Rightarrow> True
   | Some j \<Rightarrow>
       (case b of
          None \<Rightarrow> job_state j = Receiving
        | Some j' \<Rightarrow> job_state j = Receiving \<or>
            can_reach (job_state j) (job_state j') \<and> same_identity j j'))"

definition evolves :: "world \<Rightarrow> world \<Rightarrow> bool" where
  "evolves w w' =
     (jobs_keyed w \<longrightarrow> jobs_keyed w' \<and> (\<forall>jid. job_moves (jobs_of w jid) (jobs_of w' jid)))"

lemma job_moves_refl [simp]: "job_moves a a"
  by (auto simp: job_moves_def same_identity_def split: option.splits)

lemma can_reach_Receiving [simp]: "can_reach s Receiving \<longleftrightarrow> s = Receiving"
  by (cases s) auto

lemma same_identity_refl [simp]: "same_identity j j"
  by (simp add: same_identity_def)

lemma same_identity_trans: "same_identity a b \<Longrightarrow> same_identity b c \<Longrightarrow> same_identity a c"
  by (simp add: same_identity_def)

lemma job_moves_trans: "job_moves a b \<Longrightarrow> job_moves b c \<Longrightarrow> job_moves a c"
  by (auto simp: job_moves_def split: option.splits
      dest: can_reach_trans same_identity_trans)

interpretation evolves: respected evolves
  by unfold_locales (auto simp: evolves_def intro: job_moves_trans)

text \<open>Operations that touch no job file leave every job alone.\<close>

definition no_job_file :: "path set \<Rightarrow> bool" where
  "no_job_file P = (\<forall>jid. JobFile jid \<notin> P)"

lemma no_job_file_simps [simp]:
  "no_job_file {}" "no_job_file (range (Tmp p))"
  "no_job_file (insert p P) \<longleftrightarrow> (\<forall>jid. p \<noteq> JobFile jid) \<and> no_job_file P"
  "no_job_file (P \<union> Q) \<longleftrightarrow> no_job_file P \<and> no_job_file Q"
  "no_job_file (with_tmps p) \<longleftrightarrow> (\<forall>jid. p \<noteq> JobFile jid)"
  by (auto simp: no_job_file_def with_tmps_def)

lemma only_files_jobs: "only_files P w w' \<Longrightarrow> no_job_file P \<Longrightarrow> jobs_of w' = jobs_of w"
  by (auto simp: only_files_def no_job_file_def jobs_of_def fun_eq_iff)

lemma evolves_same: "jobs_of w' = jobs_of w \<Longrightarrow> evolves w w'"
  by (simp add: evolves_def jobs_keyed_def)

lemma evolves_only_files: "only_files P w w' \<Longrightarrow> no_job_file P \<Longrightarrow> evolves w w'"
  by (rule evolves_same) (rule only_files_jobs)

lemma jobs_of_simps [simp]:
  "jobs_of (advance w) = jobs_of w" "jobs_of (sleep_ms n w) = jobs_of w"
  by (simp_all add: jobs_of_def fun_eq_iff)

lemma evolves_advance [evo_intros]: "evolves w (advance w)" "evolves w (sleep_ms n w)"
  by (simp_all add: evolves_same)

lemma jobs_of_save:
  "jobs_of (snd (save_job j w)) jid =
     (if jid = job_id j \<and> lookup (JobFile (job_id j)) (snd (save_job j w)) = Some (Doc (DJob j))
      then Some j else jobs_of w jid)"
proof (cases "jid = job_id j")
  case False
  then have "lookup (JobFile jid) (snd (save_job j w)) = lookup (JobFile jid) w"
    using jobs.save_other [of j "job_id j" jid w] by simp
  with False show ?thesis by (simp add: jobs_of_def)
next
  case True
  have "old_or_new (JobFile jid) (DJob j) w (snd (save_job j w))"
    using jobs.save_any [of j "job_id j" w] True by simp
  with True show ?thesis by (auto simp: jobs_of_def old_or_new_def)
qed

lemma jobs_of_save_ok:
  "save_job j w = (Inr u, w') \<Longrightarrow> jobs_of w' = (jobs_of w)(job_id j := Some j)"
  using jobs_of_save [of j w] jobs.save_ok [of j "job_id j" w u w'] by (auto simp: fun_eq_iff)

text \<open>Operations that use a device and touch no file outside a set.\<close>

definition touches :: "path set \<Rightarrow> world \<Rightarrow> world \<Rightarrow> bool" where
  "touches P w w' =
     (w_env w' = w_env w \<and> (wf_files w \<longrightarrow> wf_files w') \<and> (\<forall>q. q \<notin> P \<longrightarrow> lookup q w' = lookup q w))"

interpretation touches: respected "touches P"
  by unfold_locales (auto simp: touches_def)

lemma touches_only_files: "only_files P w w' \<Longrightarrow> touches P w w'"
  by (simp add: only_files_def touches_def)

lemma touches_mono: "touches P w w' \<Longrightarrow> P \<subseteq> Q \<Longrightarrow> touches Q w w'"
  by (auto simp: touches_def)

lemma touches_files: "w_files w' = w_files w \<Longrightarrow> w_env w' = w_env w \<Longrightarrow> touches P w w'"
  by (simp add: touches_def lookup_def wf_files_def)

lemma touches_advance [simp]: "touches P w (advance w)" "touches P w (sleep_ms n w)"
  by (simp_all add: touches_def)

lemma touches_jobs: "touches P w w' \<Longrightarrow> no_job_file P \<Longrightarrow> jobs_of w' = jobs_of w"
  by (auto simp: touches_def no_job_file_def jobs_of_def fun_eq_iff)

lemma evolves_touches: "touches P w w' \<Longrightarrow> no_job_file P \<Longrightarrow> evolves w w'"
  by (rule evolves_same) (rule touches_jobs)

text \<open>Saving a job whose stored state may move to the new one.\<close>

definition may_save :: "job \<Rightarrow> world \<Rightarrow> bool" where
  "may_save j w = (payload_ok j \<and> (\<forall>j0. jobs_of w (job_id j) = Some j0 \<longrightarrow> job_moves (Some j0) (Some j)))"

lemma save_job_evolves: "may_save j w \<Longrightarrow> evolves w (snd (save_job j w))"
  unfolding evolves_def
proof (intro impI conjI allI)
  fix jid
  assume may: "may_save j w" and keyed: "jobs_keyed w"
  show "jobs_keyed (snd (save_job j w))"
    using keyed may by (auto simp: jobs_keyed_def jobs_of_save may_save_def split: if_splits)
  show "job_moves (jobs_of w jid) (jobs_of (snd (save_job j w)) jid)"
    using may by (cases "jobs_of w jid") (auto simp: may_save_def jobs_of_save job_moves_def)
qed

lemma load_job_Inr: "load_job jid w = (Inr j, w') \<Longrightarrow> jobs_of w jid = Some j"
  by (auto simp: load_job_def jobs_of_def as_job_def split: doc.splits dest!: read_json_Inr)

lemma load_job_world: "load_job jid w = (r, w') \<Longrightarrow> jobs_of w' = jobs_of w"
  using only_files_loads(1) [of "{}" w jid] by (auto intro: only_files_jobs)

lemma load_job_quiet: "quiet w \<Longrightarrow> jobs_of w jid = Some j \<Longrightarrow> fst (load_job jid w) = Inr j"
  by (rule jobs.load_quiet)
     (auto simp: jobs_of_def split: option.splits fcontent.splits doc.splits)

lemma evolves_loads [evo_intros]:
  "evolves w (snd (load_job jid w))" "evolves w (snd (load_media pid w))"
  "evolves w (snd (load_queue pid w))" "evolves w (snd (load_queue_paused pid w))"
  "evolves w (snd (load_printer_configs w))" "evolves w (snd (read_json sel p w))"
  "evolves w (snd (read_jobs_dir w))"
  by (rule evolves_only_files [where P = "{}"]; simp)+

lemma evolves_saves [evo_intros]:
  "evolves w (snd (save_queue pid q w))" "evolves w (snd (save_queue_paused pid b w))"
  "evolves w (snd (save_media pid m w))" "evolves w (snd (save_printer_configs cs w))"
  by (rule evolves_only_files, rule queues.save_only pauses.save_only media_files.save_only
      configs.save_only, simp_all)+

lemma evolves_append [evo_intros]:
  "(\<forall>jid. p \<noteq> JobFile jid) \<Longrightarrow> evolves w (snd (append_ndjson p d w))"
  by (rule evolves_only_files [OF append_ndjson_only_files]) simp

lemma evolves_logs [evo_intros]:
  "evolves w (snd (append_event e w))" "evolves w (snd (append_media_ledger pid l w))"
  "evolves w (snd (register_job jid w))" "evolves w (snd (next_event k p jj d w))"
proof -
  show "evolves w (snd (next_event k p jj d w))"
    by (auto simp: next_event_def next_sequence_def sys_def now_def Let_def intro!: evolves_same
        split: option.splits prod.splits sum.splits)
qed (simp_all add: append_event_def append_media_ledger_def register_job_def evolves_append)

lemma evolves_remove [evo_intros]:
  "(\<forall>jid. p \<noteq> JobFile jid) \<Longrightarrow> evolves w (snd (remove_file p w))"
  by (rule evolves_only_files [OF only_files_remove [of p "{p}"]]) simp_all

text \<open>A job that left the queue never returns to it.\<close>

definition settled :: "jstate \<Rightarrow> bool" where
  "settled s = (s \<notin> {Receiving, Queued, Held})"

lemma can_reach_settled: "can_reach s t \<Longrightarrow> settled s \<Longrightarrow> settled t"
  by (cases s) (auto simp: settled_def)

lemma evolves_settled:
  assumes "evolves w w'" and "jobs_keyed w" and "jobs_of w jid = Some j" and "settled (job_state j)"
  shows "\<exists>j'. jobs_of w' jid = Some j' \<and> settled (job_state j')"
proof -
  have "job_moves (Some j) (jobs_of w' jid)" using assms(1-3) by (metis evolves_def)
  with assms(4) show ?thesis
    by (auto simp: job_moves_def settled_def split: option.splits dest: can_reach_settled [unfolded settled_def])
qed

section \<open>The scans of the job directory\<close>

text \<open>The jobs a scan of the given entries reads, in their order.\<close>

definition dir_jobs :: "path list \<Rightarrow> world \<Rightarrow> job list" where
  "dir_jobs ps w = List.map_filter (\<lambda>p. case p of JobFile jid \<Rightarrow> jobs_of w jid | _ \<Rightarrow> None) ps"

lemma dir_jobs_simps [simp]:
  "dir_jobs [] w = []"
  "dir_jobs (p # ps) w =
     (case p of
        JobFile jid \<Rightarrow> (case jobs_of w jid of None \<Rightarrow> dir_jobs ps w | Some j \<Rightarrow> j # dir_jobs ps w)
      | _ \<Rightarrow> dir_jobs ps w)"
  by (simp_all add: dir_jobs_def map_filter_simps split: path.splits option.splits)

lemma dir_jobs_cong: "jobs_of w' = jobs_of w \<Longrightarrow> dir_jobs ps w' = dir_jobs ps w"
  by (simp add: dir_jobs_def cong: path.case_cong)

lemma set_dir_jobs: "set (dir_jobs ps w) = {j. \<exists>jid. JobFile jid \<in> set ps \<and> jobs_of w jid = Some j}"
  by (induction ps) (auto split: path.splits option.splits)

definition jobs_entries :: "world \<Rightarrow> path list" where
  "jobs_entries w = filter in_jobs_dir (map fst (w_files w))"

definition all_jobs :: "world \<Rightarrow> job list" where
  "all_jobs w = dir_jobs (jobs_entries w) w"

lemma jobs_of_in_entries: "jobs_of w jid = Some j \<Longrightarrow> JobFile jid \<in> set (jobs_entries w)"
  by (auto simp: jobs_of_def jobs_entries_def lookup_def split: option.splits fcontent.splits
      dest!: map_of_SomeD intro: rev_image_eqI)

lemma set_all_jobs: "set (all_jobs w) = {j. \<exists>jid. jobs_of w jid = Some j}"
  by (auto simp: all_jobs_def set_dir_jobs dest: jobs_of_in_entries)

lemma distinct_jobs_entries: "wf_files w \<Longrightarrow> distinct (jobs_entries w)"
  by (simp add: jobs_entries_def wf_files_def)

lemma distinct_dir_jobs:
  "distinct ps \<Longrightarrow> jobs_keyed w \<Longrightarrow> distinct (map job_id (dir_jobs ps w))"
proof (induction ps)
  case Nil
  show ?case by simp
next
  case (Cons p ps)
  then show ?case
    by (auto simp: set_dir_jobs jobs_keyed_def split: path.splits option.splits)
qed

lemma distinct_all_jobs:
  "wf_files w \<Longrightarrow> jobs_keyed w \<Longrightarrow> distinct (map job_id (all_jobs w))"
  by (simp add: all_jobs_def distinct_dir_jobs distinct_jobs_entries)

lemma card_jobs:
  assumes "wf_files w" and "jobs_keyed w"
  shows "length (filter P (all_jobs w)) = card {jid. \<exists>j. jobs_of w jid = Some j \<and> P j}"
proof -
  have "distinct (map job_id (filter P (all_jobs w)))"
    using distinct_all_jobs [OF assms] by (simp add: distinct_map_filter)
  then have "length (filter P (all_jobs w)) = card (job_id ` set (filter P (all_jobs w)))"
    by (metis distinct_card length_map set_map)
  also have "job_id ` set (filter P (all_jobs w)) = {jid. \<exists>j. jobs_of w jid = Some j \<and> P j}"
    using assms(2) by (force simp: set_all_jobs jobs_keyed_def)
  finally show ?thesis .
qed

subsection \<open>Scans when every call succeeds\<close>

lemma read_job_quiet:
  assumes "quiet w"
  obtains (none) e w' where "read_json as_job (JobFile jid) w = (Inl e, w')"
      "jobs_of w jid = None" "only_files {} w w'"
  | (some) j w' where "read_json as_job (JobFile jid) w = (Inr j, w')"
      "jobs_of w jid = Some j" "only_files {} w w'"
proof -
  obtain r w' where run: "read_json as_job (JobFile jid) w = (r, w')" by fastforce
  have fr: "only_files {} w w'" using only_files_calls(6) [of "{}" w as_job "JobFile jid"] run by simp
  show thesis
  proof (cases "jobs_of w jid")
    case (Some j)
    then have "r = Inr j" using load_job_quiet [OF assms Some] run by (simp add: load_job_def)
    with some run Some fr show thesis by blast
  next
    case None
    have "\<And>j. r = Inr j \<Longrightarrow> False"
      using run None load_job_Inr [of jid w] by (fastforce simp: load_job_def)
    then obtain e where "r = Inl e" by (cases r) auto
    with none run None fr show thesis by blast
  qed
qed

lemma quiet_only_files: "quiet w \<Longrightarrow> only_files P w w' \<Longrightarrow> quiet w'"
  by (simp add: quiet_def only_files_def)

lemma sys_quiet: "quiet w \<Longrightarrow> sys w = (Inr (), advance w)"
  by (simp add: sys_def quiet_def)

lemma only_files_none_jobs: "only_files {} w w' \<Longrightarrow> jobs_of w' = jobs_of w"
  by (rule only_files_jobs [where P = "{}"]) simp_all

lemma has_json_extension_iff: "has_json_extension p \<longleftrightarrow> (\<exists>jid. p = JobFile jid)"
  by (cases p) auto

lemma dir_jobs_skip: "\<not> has_json_extension p \<Longrightarrow> dir_jobs (p # ps) w = dir_jobs ps w"
  by (cases p) auto

text \<open>What a scan with a pure step computes over the list of jobs.\<close>

fun scan_pure :: "(job \<Rightarrow> 'a \<Rightarrow> 'a \<times> bool) \<Rightarrow> job list \<Rightarrow> 'a \<Rightarrow> 'a" where
  "scan_pure g [] a = a"
| "scan_pure g (j # js) a =
     (if snd (g j a) then fst (g j a) else scan_pure g js (fst (g j a)))"

lemma scan_jobs_quiet:
  "quiet w \<Longrightarrow> \<exists>w'. scan_jobs (\<lambda>j a w. (Inr (g j a), w)) ps a w =
     (Inr (scan_pure g (dir_jobs ps w) a), w') \<and> only_files {} w w'"
proof (induction ps arbitrary: a w)
  case Nil
  show ?case by (simp add: only_files.refl)
next
  case (Cons p ps)
  note sq = sys_quiet [OF Cons.prems]
  have q: "quiet (advance w)" using Cons.prems by simp
  show ?case
  proof (cases "has_json_extension p")
    case False
    with Cons.IH [OF q, of a] show ?thesis
      by (simp add: sq dir_jobs_skip dir_jobs_cong [of "advance w" w] del: dir_jobs_simps)
  next
    case True
    then obtain jid where p: "p = JobFile jid" by (auto simp: has_json_extension_iff)
    show ?thesis
    proof (cases rule: read_job_quiet [OF q, of jid, case_names none some])
      case (none e w')
      then have w': "only_files {} w w'" "jobs_of w' = jobs_of w"
        by (simp_all add: only_files_none_jobs)
      from Cons.IH [OF quiet_only_files [OF q none(3)], of a] none w' show ?thesis
        by (auto simp: sq p dir_jobs_cong [OF w'(2)] intro: only_files.trans)
    next
      case (some j w')
      then have w': "only_files {} w w'" "jobs_of w' = jobs_of w"
        by (simp_all add: only_files_none_jobs)
      from Cons.IH [OF quiet_only_files [OF q some(3)], of "fst (g j a)"] some w' show ?thesis
        by (auto simp: sq p dir_jobs_cong [OF w'(2)] intro: only_files.trans)
    qed
  qed
qed

lemma read_jobs_dir_quiet: "quiet w \<Longrightarrow> read_jobs_dir w = (Inr (jobs_entries w), advance w)"
  by (simp add: read_jobs_dir_def sys_quiet jobs_entries_def)

lemma for_jobs_quiet:
  assumes "quiet w"
  shows "\<exists>w'. for_jobs (\<lambda>j a w. (Inr (g j a), w)) a w =
     (Inr (scan_pure g (all_jobs w) a), w') \<and> only_files {} w w'"
  using scan_jobs_quiet [of "advance w" g "jobs_entries w" a] assms
  by (simp add: for_jobs_def read_jobs_dir_quiet all_jobs_def dir_jobs_cong [of "advance w" w])

lemma scan_pure_count:
  "scan_pure (count_step pid) js n = n + length (filter (is_open_job pid) js)"
  by (induction js arbitrary: n) (auto simp: count_step_def)

lemma scan_pure_open:
  "scan_pure (open_step pid) js b = (b \<or> list_ex (is_open_job pid) js)"
  by (induction js arbitrary: b) (auto simp: open_step_def)

lemma scan_pure_find:
  "scan_pure (find_step key ex) js r =
     (case find (answers_key key ex) js of None \<Rightarrow> r | Some j \<Rightarrow> Some j)"
  by (induction js arbitrary: r) (auto simp: find_step_def split: option.splits)

lemma count_active_jobs_quiet:
  "quiet w \<Longrightarrow> \<exists>w'. count_active_jobs pid w =
     (Inr (length (filter (is_open_job pid) (all_jobs w))), w') \<and> only_files {} w w'"
  using for_jobs_quiet [of w "count_step pid" 0] by (simp add: count_active_jobs_def scan_pure_count)

lemma has_open_jobs_quiet:
  "quiet w \<Longrightarrow> \<exists>w'. has_open_jobs pid w =
     (Inr (list_ex (is_open_job pid) (all_jobs w)), w') \<and> only_files {} w w'"
  using for_jobs_quiet [of w "open_step pid" False] by (simp add: has_open_jobs_def scan_pure_open)

lemma find_key_quiet:
  "quiet w \<Longrightarrow> \<exists>w'. find_job_by_idempotency_key_inner key ex w =
     (Inr (find (answers_key key ex) (all_jobs w)), w') \<and> only_files {} w w'"
  using for_jobs_quiet [of w "find_step key ex" None]
  by (auto simp: find_job_by_idempotency_key_inner_def scan_pure_find split: option.splits)

subsection \<open>Scans in any environment\<close>

text \<open>A scan whose step moves jobs along their life cycle does so too; the step is only
  handed jobs that are stored.\<close>

lemma evolvesI: "(jobs_keyed w \<Longrightarrow> evolves w w') \<Longrightarrow> evolves w w'"
  by (auto simp: evolves_def)

lemma read_json_world: "read_json sel p w = (r, w') \<Longrightarrow> only_files {} w w'"
  using only_files_calls(6) [of "{}" w sel p] by simp

lemma read_job_stored:
  "read_json as_job p w = (Inr j, w') \<Longrightarrow> has_json_extension p \<Longrightarrow> jobs_keyed w \<Longrightarrow>
     p = JobFile (job_id j) \<and> jobs_of w' (job_id j) = Some j"
proof -
  assume rd: "read_json as_job p w = (Inr j, w')" and "has_json_extension p" and keyed: "jobs_keyed w"
  then obtain jid where p: "p = JobFile jid" by (auto simp: has_json_extension_iff)
  then have ld: "load_job jid w = (Inr j, w')" using rd by (simp add: load_job_def)
  then have "job_id j = jid" using keyed load_job_Inr by (auto simp: jobs_keyed_def)
  with p load_job_Inr [OF ld] load_job_world [OF ld] show ?thesis by simp
qed

lemma scan_jobs_evolves:
  assumes step: "\<And>j a w. jobs_of w (job_id j) = Some j \<Longrightarrow> evolves w (snd (step j a w))"
  shows "evolves w (snd (scan_jobs step ps a w))"
proof (induction ps arbitrary: a w)
  case Nil
  show ?case by (simp add: evolves.refl)
next
  case (Cons p ps)
  have entry: "evolves v (snd (if \<not> has_json_extension p then scan_jobs step ps a v
      else case read_json as_job p v of
         (Inl _, w) \<Rightarrow> scan_jobs step ps a w
       | (Inr j, w) \<Rightarrow> bindE (step j a w) (\<lambda>r w.
             if snd r then (Inr (fst r), w) else scan_jobs step ps (fst r) w)))" for v
  proof (rule evolvesI)
    assume keyed: "jobs_keyed v"
    obtain rd w2 where rd: "read_json as_job p v = (rd, w2)" by fastforce
    have ev: "evolves v w2" using evolves_only_files [OF read_json_world [OF rd]] by simp
    have cont: "evolves w2 (snd (bindE (step j a w2) (\<lambda>r w.
        if snd r then (Inr (fst r), w) else scan_jobs step ps (fst r) w)))"
      if "rd = Inr j" "has_json_extension p" for j
      using read_job_stored [of p v j w2] rd that keyed
      by (intro evolves.bindE_respects) (auto simp: step evolves.refl Cons.IH)
    show "evolves v (snd (if \<not> has_json_extension p then scan_jobs step ps a v
      else case read_json as_job p v of
         (Inl _, w) \<Rightarrow> scan_jobs step ps a w
       | (Inr j, w) \<Rightarrow> bindE (step j a w) (\<lambda>r w.
             if snd r then (Inr (fst r), w) else scan_jobs step ps (fst r) w)))"
      using rd cont Cons.IH [of v a] evolves.trans [OF ev Cons.IH [of w2 a]]
      by (cases rd) (auto intro: evolves.trans [OF ev])
  qed
  show ?case
    unfolding scan_jobs.simps
    by (rule evolves.bindE_respects) (simp_all add: evolves_advance entry del: scan_jobs.simps)
qed

lemma for_jobs_evolves:
  assumes "\<And>j a w. jobs_of w (job_id j) = Some j \<Longrightarrow> evolves w (snd (step j a w))"
  shows "evolves w (snd (for_jobs step a w))"
  unfolding for_jobs_def
  by (rule evolves.bindE_respects) (auto intro: evo_intros scan_jobs_evolves assms)

lemma evolves_scans [evo_intros]:
  "evolves w (snd (count_active_jobs pid w))" "evolves w (snd (has_open_jobs pid w))"
  "evolves w (snd (find_job_by_idempotency_key_inner key ex w))"
  by (auto simp: count_active_jobs_def has_open_jobs_def find_job_by_idempotency_key_inner_def
      intro!: for_jobs_evolves evolves.refl)

end
