(* ===== verification/Recovery.thy ===== *)
theory Recovery
  imports Lifecycle
begin

text \<open>
  Correctness of \<open>Store::recover_jobs\<close>: under any failures it only moves jobs along their
  life cycle and re-queues nothing but queued jobs; when the calls succeed it leaves no
  job in flight and returns the queued jobs in creation order.
\<close>

definition recovered_state :: "jstate \<Rightarrow> jstate" where
  "recovered_state s =
     (if s = Receiving then Failed
      else if s = Writing \<or> s = Verifying then OutcomeUnknown else s)"

definition is_queued :: "job \<Rightarrow> bool" where
  "is_queued j = (job_state j = Queued)"

section \<open>Any environment\<close>

lemma remove_spool_evolves [evo_intros]: "evolves w (snd (remove_file (SpoolFile u) w))"
  by (rule evolves_remove) simp

lemma remove_spool_jobs [simp]: "jobs_of (snd (remove_file (SpoolFile u) w)) = jobs_of w"
  by (rule only_files_jobs [OF only_files_remove [of "SpoolFile u" "{SpoolFile u}"]]) simp_all

text \<open>The two rewritings of recovery are steps of the life cycle.\<close>

lemma may_save_recovered:
  assumes "jobs_of w (job_id j) = Some j" and "can_reach (job_state j) s" and "payload_ok j"
  shows "may_save (j\<lparr>job_state := s, job_updated_at := t, job_error := e\<rparr>) w"
  using assms by (auto simp: may_save_def job_moves_def same_identity_def payload_ok_def)

lemma recover_step_evolves:
  assumes "jobs_of w (job_id j) = Some j"
  shows "evolves w (snd (recover_step j q w))"
proof (rule evolvesI)
  assume "jobs_keyed w"
  with assms have ok: "payload_ok j" by (simp add: jobs_keyed_def)
  have saved: "evolves w (snd (bindE (save_job (j\<lparr>job_state := s, job_updated_at := t,
      job_error := e\<rparr>) w1) (\<lambda>_ w. (Inr (q, False), w))))"
    if "jobs_of w1 = jobs_of w" "can_reach (job_state j) s" for w1 s t e
  proof (rule evolves.trans [OF evolves_same [of w1 w]])
    show "evolves w1 (snd (bindE (save_job (j\<lparr>job_state := s, job_updated_at := t,
        job_error := e\<rparr>) w1) (\<lambda>_ w. (Inr (q, False), w))))"
      using assms that ok
      by (intro evolves.bindE_respects save_job_evolves may_save_recovered)
         (simp_all add: evolves.refl)
  qed (rule that)
  show "evolves w (snd (recover_step j q w))"
    by (auto simp: recover_step_def now_def Let_def evolves.refl intro!: saved)
qed

lemma recover_jobs_evolves [evo_intros]: "evolves w (snd (recover_jobs w))"
  unfolding recover_jobs_def
  by (rule evolves.bindE_respects) (auto intro: for_jobs_evolves recover_step_evolves evolves.refl)

text \<open>Whatever fails, only queued jobs come back to the queue, each from the directory.\<close>

lemma recover_step_result:
  "recover_step j q w = (Inr (q', b), w') \<Longrightarrow> q' = q @ (if is_queued j then [j] else [])"
  by (auto simp: recover_step_def is_queued_def bindE_Inr_iff Let_def split: if_splits prod.splits)

lemma scan_recover_queued:
  "scan_jobs recover_step ps q w = (Inr q', w') \<Longrightarrow>
     \<exists>js. q' = q @ js \<and> list_all is_queued js"
proof (induction ps arbitrary: q w)
  case Nil
  then show ?case by simp
next
  case (Cons p ps)
  then obtain w1 where run: "(if \<not> has_json_extension p then scan_jobs recover_step ps q w1
      else case read_json as_job p w1 of
         (Inl _, w) \<Rightarrow> scan_jobs recover_step ps q w
       | (Inr j, w) \<Rightarrow> bindE (recover_step j q w) (\<lambda>r w.
             if snd r then (Inr (fst r), w) else scan_jobs recover_step ps (fst r) w))
      = (Inr q', w')"
    by (auto simp: bindE_Inr_iff)
  obtain rd w2 where rd: "read_json as_job p w1 = (rd, w2)" by fastforce
  consider (skip) v where "scan_jobs recover_step ps q v = (Inr q', w')"
    | (step) j v where "scan_jobs recover_step ps (q @ (if is_queued j then [j] else [])) v = (Inr q', w')"
    | (stop) j where "q' = q @ (if is_queued j then [j] else [])"
    using run rd by (cases rd) (fastforce simp: bindE_Inr_iff dest: recover_step_result split: if_splits)+
  then show ?case
  proof cases
    case skip
    then show ?thesis by (rule Cons.IH)
  next
    case (step j v)
    from Cons.IH [OF step] show ?thesis
      by (cases "is_queued j") auto
  next
    case (stop j)
    then show ?thesis by auto
  qed
qed

section \<open>When the calls succeed\<close>

text \<open>No call fails, no temporary file is left over, the job files hold their own jobs.\<close>

definition calm :: "world \<Rightarrow> bool" where
  "calm w = (quiet w \<and> no_tmp w \<and> wf_files w \<and> jobs_keyed w)"

definition recovered_as :: "job \<Rightarrow> job \<Rightarrow> bool" where
  "recovered_as j j' =
     (job_state j' = recovered_state (job_state j) \<and> same_identity j j' \<and>
      (recovered_state (job_state j) = job_state j \<longrightarrow> j' = j))"

lemma calm_advance [simp]: "calm (advance w) = calm w"
  by (simp add: calm_def jobs_keyed_def)

lemma recovered_as_refl: "recovered_state (job_state j) = job_state j \<Longrightarrow> recovered_as j j"
  by (simp add: recovered_as_def)

lemma calm_same:
  assumes "only_files P w w'" and "calm w" and "jobs_of w' = jobs_of w" and "no_tmp w'"
  shows "calm w'"
  using assms by (auto simp: calm_def jobs_keyed_def only_files_def quiet_def)

lemma calm_remove: "calm w \<Longrightarrow> calm (snd (remove_file (SpoolFile u) w))"
proof (rule calm_same [OF only_files_remove [of "SpoolFile u" "{SpoolFile u}"]])
  assume "calm w"
  then show "no_tmp (snd (remove_file (SpoolFile u) w))"
    by (auto simp: calm_def no_tmp_def remove_file_def bindE_def sys_def split: option.splits)
qed simp_all

lemma save_job_calm:
  assumes "calm w" and "payload_ok j"
  shows "\<exists>w'. save_job j w = (Inr (), w') \<and> calm w' \<and> jobs_of w' = (jobs_of w)(job_id j \<mapsto> j)"
proof -
  obtain w' where run: "save_job j w = (Inr (), w')" and nt: "no_tmp w'"
    using jobs.save_quiet [of j "job_id j" w] assms by (auto simp: calm_def)
  have fr: "only_files (with_tmps (JobFile (job_id j))) w w'"
    using jobs.save_only [of j "job_id j" w] run by simp
  have js: "jobs_of w' = (jobs_of w)(job_id j \<mapsto> j)" by (rule jobs_of_save_ok [OF run])
  have "calm w'"
    using assms nt fr js by (auto simp: calm_def jobs_keyed_def only_files_def quiet_def)
  with run js show ?thesis by blast
qed

lemma recover_step_calm:
  assumes "calm w" and "jobs_of w (job_id j) = Some j"
  shows "\<exists>w' j'. recover_step j q w = (Inr (q @ (if is_queued j then [j] else []), False), w') \<and>
     calm w' \<and> jobs_of w' = (jobs_of w)(job_id j \<mapsto> j') \<and> recovered_as j j'"
proof -
  have saved: "\<exists>w' j'. bindE (save_job (j\<lparr>job_state := s, job_updated_at := t, job_error := e\<rparr>) w1)
      (\<lambda>_ w. (Inr (q, False), w)) = (Inr (q, False), w') \<and>
     calm w' \<and> jobs_of w' = (jobs_of w)(job_id j \<mapsto> j') \<and> recovered_as j j'"
    if "calm w1" "jobs_of w1 = jobs_of w" "s = recovered_state (job_state j)"
      "s \<noteq> job_state j" for w1 s t e
  proof -
    let ?j = "j\<lparr>job_state := s, job_updated_at := t, job_error := e\<rparr>"
    note calm1 = that(1)
    have "payload_ok j" using assms unfolding calm_def jobs_keyed_def by blast
    then have ok: "payload_ok ?j" by (simp add: payload_ok_def)
    obtain w' where "save_job ?j w1 = (Inr (), w')" "calm w'" "jobs_of w' = (jobs_of w1)(job_id j \<mapsto> ?j)"
      using save_job_calm [OF calm1 ok] by auto
    with that show ?thesis
      by (intro exI [of _ w'] exI [of _ ?j]) (simp add: recovered_as_def same_identity_def)
  qed
  have same: "\<exists>w' j'. (Inr (q'', False), w) = (Inr (q'', False), w') \<and> calm w' \<and>
      jobs_of w' = (jobs_of w)(job_id j \<mapsto> j') \<and> recovered_as j j'"
    if "recovered_state (job_state j) = job_state j" for q'' :: "job list"
    using assms that by (intro exI [of _ w] exI [of _ j]) (simp add: recovered_as_refl fun_upd_idem)
  consider "job_state j = Receiving" | "job_state j = Writing \<or> job_state j = Verifying"
    | "recovered_state (job_state j) = job_state j" "job_state j \<notin> {Receiving, Writing, Verifying}"
    by (cases "job_state j") (auto simp: recovered_state_def)
  then show ?thesis
  proof cases
    case 1
    with saved [of "snd (remove_file (SpoolFile (job_id j)) (advance w))" Failed] assms(1)
    show ?thesis
      by (simp add: recover_step_def now_def Let_def is_queued_def calm_remove recovered_state_def)
  next
    case 2
    with saved [of "advance w" OutcomeUnknown] assms(1) show ?thesis
      by (auto simp: recover_step_def now_def Let_def is_queued_def recovered_state_def)
  next
    case 3
    with same [of "q @ (if is_queued j then [j] else [])"] show ?thesis
      by (auto simp: recover_step_def is_queued_def)
  qed
qed

lemma read_job_calm:
  assumes "calm w"
  obtains (none) e w' where "read_json as_job (JobFile jid) w = (Inl e, w')"
      "jobs_of w jid = None" "calm w'" "jobs_of w' = jobs_of w"
  | (some) j w' where "read_json as_job (JobFile jid) w = (Inr j, w')"
      "jobs_of w jid = Some j" "job_id j = jid" "calm w'" "jobs_of w' = jobs_of w"
proof -
  have q: "quiet w" and k: "jobs_keyed w" using assms by (simp_all add: calm_def)
  have c: "calm w'" "jobs_of w' = jobs_of w" if "only_files {} w w'" for w'
  proof -
    have "no_tmp w'" using that assms by (simp add: only_files_def no_tmp_def calm_def)
    with that show "calm w'" by (intro calm_same [OF that assms] only_files_none_jobs)
    show "jobs_of w' = jobs_of w" using that by (rule only_files_none_jobs)
  qed
  show thesis
  proof (cases rule: read_job_quiet [OF q, of jid, case_names none some])
    case (none e w')
    with that(1) c show thesis by blast
  next
    case (some j w')
    moreover from some(2) k have "job_id j = jid" by (simp add: jobs_keyed_def)
    ultimately show thesis using that(2) c by blast
  qed
qed

definition recovered_world :: "path list \<Rightarrow> world \<Rightarrow> world \<Rightarrow> bool" where
  "recovered_world ps w w' =
     (\<forall>jid. rel_option (if JobFile jid \<in> set ps then recovered_as else (=))
        (jobs_of w jid) (jobs_of w' jid))"

lemma recovered_world_Nil: "jobs_of w' = jobs_of w \<Longrightarrow> recovered_world [] w w'"
  by (simp add: recovered_world_def option.rel_refl)

lemma recovered_world_skip:
  assumes "recovered_world ps v w'" and "jobs_of v = jobs_of w"
    and none: "\<And>jid. p = JobFile jid \<Longrightarrow> jobs_of w jid = None"
  shows "recovered_world (p # ps) w w'"
  unfolding recovered_world_def
proof
  fix jid
  have "rel_option (if JobFile jid \<in> set ps then recovered_as else (=)) (jobs_of w jid) (jobs_of w' jid)"
    using assms(1,2) by (simp add: recovered_world_def)
  with none [of jid] show "rel_option (if JobFile jid \<in> set (p # ps) then recovered_as else (=))
      (jobs_of w jid) (jobs_of w' jid)"
    by (cases "p = JobFile jid") auto
qed

lemma recovered_world_step:
  assumes "recovered_world ps v w'" and "jobs_of v = (jobs_of w)(jid \<mapsto> j')"
    and "jobs_of w jid = Some j" and "recovered_as j j'" and "JobFile jid \<notin> set ps"
  shows "recovered_world (JobFile jid # ps) w w'"
  unfolding recovered_world_def
proof
  fix i
  have "rel_option (if JobFile i \<in> set ps then recovered_as else (=)) (jobs_of v i) (jobs_of w' i)"
    using assms(1) by (simp add: recovered_world_def)
  with assms(2-5) show "rel_option (if JobFile i \<in> set (JobFile jid # ps) then recovered_as else (=))
      (jobs_of w i) (jobs_of w' i)"
    by (cases "i = jid") (auto simp: option_rel_Some1)
qed

lemma dir_jobs_other:
  "JobFile jid \<notin> set ps \<Longrightarrow> jobs_of v = (jobs_of w)(jid := x) \<Longrightarrow> dir_jobs ps v = dir_jobs ps w"
  by (induction ps) (auto split: path.splits option.splits)

lemma scan_recover_calm:
  assumes "calm w" and "distinct ps"
  shows "\<exists>w'. scan_jobs recover_step ps q w = (Inr (q @ filter is_queued (dir_jobs ps w)), w') \<and>
     calm w' \<and> recovered_world ps w w'"
  using assms
proof (induction ps arbitrary: q w)
  case Nil
  then show ?case by (simp add: recovered_world_Nil)
next
  case (Cons p ps)
  have sq: "sys w = (Inr (), advance w)" using Cons.prems by (simp add: calm_def sys_quiet)
  have c: "calm (advance w)" and d: "distinct ps" "p \<notin> set ps" using Cons.prems by simp_all
  show ?case
  proof (cases "has_json_extension p")
    case False
    with Cons.IH [OF c d(1), of q] show ?thesis
      by (auto simp: sq dir_jobs_skip dir_jobs_cong [of "advance w" w] has_json_extension_iff
          simp del: dir_jobs_simps intro!: recovered_world_skip)
  next
    case True
    then obtain jid where p: "p = JobFile jid" by (auto simp: has_json_extension_iff)
    show ?thesis
    proof (cases rule: read_job_calm [OF c, of jid, case_names none some])
      case (none e w2)
      with Cons.IH [OF none(3) d(1), of q] show ?thesis
        by (auto simp: sq p dir_jobs_cong [of w2 w] intro!: recovered_world_skip)
    next
      case (some j w2)
      then obtain w3 j' where step: "recover_step j q w2 =
            (Inr (q @ (if is_queued j then [j] else []), False), w3)"
          and c3: "calm w3" and js: "jobs_of w3 = (jobs_of w2)(job_id j \<mapsto> j')"
          and rec: "recovered_as j j'"
        using recover_step_calm [OF some(4), of j q] by auto
      have same: "dir_jobs ps w3 = dir_jobs ps w"
        using dir_jobs_other [of jid ps w3 w "Some j'"] d(2) js some p by simp
      obtain w' where fin: "scan_jobs recover_step ps (q @ (if is_queued j then [j] else [])) w3 =
            (Inr ((q @ (if is_queued j then [j] else [])) @ filter is_queued (dir_jobs ps w)), w')"
          and c': "calm w'" and rw: "recovered_world ps w3 w'"
        using Cons.IH [OF c3 d(1)] same by metis
      have "recovered_world (p # ps) w w'"
        unfolding p by (rule recovered_world_step [OF rw _ _ rec]) (use js some d(2) p in simp_all)
      with some step fin c' show ?thesis by (auto simp: p sq)
    qed
  qed
qed

lemma all_jobs_advance [simp]: "all_jobs (advance w) = all_jobs w"
  by (simp add: all_jobs_def jobs_entries_def dir_jobs_cong [of "advance w" w])

lemma recover_jobs_calm:
  assumes "calm w"
  shows "\<exists>w'. recover_jobs w = (Inr (sort_key by_creation (filter is_queued (all_jobs w))), w') \<and>
     calm w' \<and> (\<forall>jid. rel_option recovered_as (jobs_of w jid) (jobs_of w' jid))"
proof -
  have d: "distinct (jobs_entries w)" using assms by (simp add: calm_def distinct_jobs_entries)
  obtain w' where run: "scan_jobs recover_step (jobs_entries w) [] (advance w) =
        (Inr (filter is_queued (all_jobs w)), w')" "calm w'"
      and rw: "recovered_world (jobs_entries w) (advance w) w'"
    using scan_recover_calm [of "advance w" "jobs_entries w" "[]"] assms d
    by (auto simp: all_jobs_def dir_jobs_cong [of "advance w" w])
  have "rel_option recovered_as (jobs_of w jid) (jobs_of w' jid)" for jid
  proof (cases "jobs_of w jid")
    case None
    with rw show ?thesis by (auto simp: recovered_world_def dest!: spec [of _ jid])
  next
    case (Some j)
    with rw jobs_of_in_entries [OF Some] show ?thesis
      by (auto simp: recovered_world_def dest!: spec [of _ jid])
  qed
  with run assms show ?thesis
    by (simp add: recover_jobs_def for_jobs_def read_jobs_dir_quiet calm_def)
qed

end
