(* ===== verification/Media.thy ===== *)
theory Media
  imports Recovery
begin

text \<open>
  Media and label accounting: \<open>src/media.rs\<close> and the debits of \<open>src/worker.rs\<close>
  (\<open>apply_reconnect_loss\<close>, \<open>apply_maintenance_media_loss\<close>, \<open>consume_media\<close>) and
  \<open>src/main.rs\<close> (\<open>apply_boot_accounting\<close>). All of them satisfy one contract, the locale
  \<open>label_debit\<close>: labels are neither created nor lost, what the roll cannot cover becomes
  deficit. The ledger events are shown to agree with the stored state.
\<close>

section \<open>Validation\<close>

definition check :: "bool \<Rightarrow> string \<Rightarrow> string + unit" where
  "check c e = (if c then Inr () else Inl e)"

text \<open>A sequence of checks: the first that fails is the error.\<close>

fun checks :: "(string + unit) list \<Rightarrow> string + unit" where
  "checks [] = Inr ()"
| "checks (c # cs) = (case c of Inl e \<Rightarrow> Inl e | Inr _ \<Rightarrow> checks cs)"

definition dimension_ok :: "f64 \<Rightarrow> bool" where
  "dimension_ok n = (f64_is_finite n \<and> f64_lt f64_zero n \<and> f64_le n f64_ten_thousand)"

definition measurement_ok :: "f64 \<Rightarrow> bool" where
  "measurement_ok n = (f64_is_finite n \<and> f64_le f64_zero n \<and> f64_le n f64_hundred_thousand)"

definition optional_measurements :: "media_definition \<Rightarrow> f64 list" where
  "optional_measurements m = List.map_filter (\<lambda>x. x)
     [md_gap_mm m, md_corner_radius_mm m, md_black_mark_width_mm m, md_black_mark_height_mm m,
      md_core_diameter_mm m, md_outer_diameter_mm m, md_thickness_micrometers m]"

definition hex_color_ok :: "string \<Rightarrow> bool" where
  "hex_color_ok h = (length h = 7 \<and> starts_with ''#'' h \<and> list_all is_hexdigit (drop 1 h))"

definition media_validate :: "media_definition \<Rightarrow> string + unit" where
  "media_validate m = checks (
     [check (trim_ws (md_display_name m) \<noteq> [] \<and> length (md_display_name m) \<le> 200)
        ''Media name is required (max 200 characters)''] @
     map (\<lambda>n. check (dimension_ok n)
        ''Media dimensions must be finite and between 0 and 10000 mm'')
       [md_width_mm m, md_height_mm m] @
     map (\<lambda>n. check (measurement_ok n) ''Invalid media measurement'') (optional_measurements m) @
     [check (trim_ws (mc_name (md_color m)) \<noteq> [] \<and> length (mc_name (md_color m)) \<le> 100)
        ''Color name is required (max 100 characters)'',
      check (case mc_hex (md_color m) of None \<Rightarrow> True | Some h \<Rightarrow> hex_color_ok h)
        ''Color hex must be #RRGGBB'',
      check (md_labels_available_at_load m \<le> 0x7FFFFFFFFFFFFFFF) ''Label count is too large''])"

lemma checks_Inr: "checks cs = Inr u \<longleftrightarrow> (\<forall>c \<in> set cs. is_ok c)"
  by (induction cs) (auto split: sum.splits)

lemma is_ok_check [simp]: "is_ok (check c e) = c"
  by (simp add: check_def)

section \<open>Accounting of labels\<close>

text \<open>The computation the three estimated losses share.\<close>

definition estimate_debit :: "u64 \<Rightarrow> media_state \<Rightarrow> media_state" where
  "estimate_debit n m = m\<lparr>
     ms_remaining_labels := sat_sub (ms_remaining_labels m) n,
     ms_consumed_labels_total := sat_add (ms_consumed_labels_total m) n,
     ms_accounting_deficit_labels :=
       sat_add (ms_accounting_deficit_labels m) (sat_sub n (ms_remaining_labels m)),
     ms_accounting_confidence := Degraded,
     ms_ledger_sequence := ms_ledger_sequence m + 1\<rparr>"

definition estimate_event :: "u64 \<Rightarrow> string \<Rightarrow> string \<Rightarrow> time \<Rightarrow> media_state \<Rightarrow> media_state \<Rightarrow>
    media_ledger_event" where
  "estimate_event n reason source t m m' = \<lparr>le_sequence = ms_ledger_sequence m', le_at = t,
     le_delta = - n, le_reason = reason, le_source = source, le_job_id = None,
     le_before = ms_remaining_labels m, le_after = ms_remaining_labels m',
     le_deficit_after = ms_accounting_deficit_labels m', le_hardware_counter_before = None,
     le_hardware_counter_after = None\<rparr>"

text \<open>\<open>let _ = append\<close>, \<open>let _ = save\<close>: the worker ignores failures of both.\<close>

definition store_debit :: "string \<Rightarrow> media_ledger_event \<Rightarrow> media_state \<Rightarrow> world \<Rightarrow> world" where
  "store_debit pid e m w = snd (save_media pid m (snd (append_media_ledger pid e w)))"

definition apply_reconnect_loss :: "string \<Rightarrow> u64 \<Rightarrow> world \<Rightarrow> world" where
  "apply_reconnect_loss pid n w =
     (if n = 0 then w
      else case load_media pid w of
        (Inr (Some m), w) \<Rightarrow>
          (let m' = estimate_debit n m;
               (t, w) = now w; m' = m'\<lparr>ms_last_accounting_event_at := Some t\<rparr>;
               (t, w) = now w
           in store_debit pid
                (estimate_event n ''printer_reconnect_loss'' ''configured_estimate'' t m m') m' w)
      | (_, w) \<Rightarrow> w)"

definition apply_maintenance_media_loss :: "string \<Rightarrow> u64 \<Rightarrow> string \<Rightarrow> world \<Rightarrow> world" where
  "apply_maintenance_media_loss pid n action w =
     (case load_media pid w of
        (Inr (Some m), w) \<Rightarrow>
          (let m' = estimate_debit n m;
               (t, w) = now w; m' = m'\<lparr>ms_last_accounting_event_at := Some t\<rparr>;
               (t, w) = now w
           in store_debit pid (estimate_event n action ''maintenance_estimate'' t m m') m' w)
      | (_, w) \<Rightarrow> w)"

text \<open>The debit of a delivered job: \<open>consumed = count.min(before)\<close> leaves the roll, the
  rest of the count is deficit.\<close>

definition job_debit :: "u64 \<Rightarrow> media_state \<Rightarrow> media_state" where
  "job_debit n m = m\<lparr>
     ms_remaining_labels := ms_remaining_labels m - min n (ms_remaining_labels m),
     ms_consumed_labels_total := sat_add (ms_consumed_labels_total m) n,
     ms_accounting_deficit_labels :=
       sat_add (ms_accounting_deficit_labels m) (n - min (ms_remaining_labels m) n),
     ms_ledger_sequence := ms_ledger_sequence m + 1\<rparr>"

definition job_ledger_event :: "u64 \<Rightarrow> job \<Rightarrow> time \<Rightarrow> media_state \<Rightarrow> media_state \<Rightarrow> media_ledger_event"
  where
  "job_ledger_event n j t m m' = \<lparr>le_sequence = ms_ledger_sequence m', le_at = t, le_delta = - n,
     le_reason = ''job'',
     le_source = (case job_label_count_source j of None \<Rightarrow> ''unknown'' | Some s \<Rightarrow> s),
     le_job_id = Some (job_id j), le_before = ms_remaining_labels m,
     le_after = ms_remaining_labels m', le_deficit_after = ms_accounting_deficit_labels m',
     le_hardware_counter_before = None, le_hardware_counter_after = None\<rparr>"

definition consume_media :: "string \<Rightarrow> job \<Rightarrow> world \<Rightarrow> world" where
  "consume_media pid j w =
     (case load_media pid w of
        (r, w) \<Rightarrow>
          (case (job_label_count j, r) of
             (Some n, Inr (Some m)) \<Rightarrow>
               (let m' = job_debit n m;
                    (t, w) = now w; m' = m'\<lparr>ms_last_accounting_event_at := Some t\<rparr>;
                    (t, w) = now w
                in store_debit pid (job_ledger_event n j t m m') m' w)
           | _ \<Rightarrow> w))"

text \<open>\<open>adjust\<close>: a signed correction by the operator.\<close>

definition adjust_state :: "i64 \<Rightarrow> media_state \<Rightarrow> media_state" where
  "adjust_state d m =
     (if d <s 0 then
        (let n = - d in m\<lparr>
           ms_remaining_labels := sat_sub (ms_remaining_labels m) n,
           ms_consumed_labels_total := sat_add (ms_consumed_labels_total m) n,
           ms_accounting_deficit_labels :=
             sat_add (ms_accounting_deficit_labels m) (sat_sub n (ms_remaining_labels m)),
           ms_ledger_sequence := ms_ledger_sequence m + 1\<rparr>)
      else m\<lparr>ms_remaining_labels := sat_add (ms_remaining_labels m) d,
             ms_ledger_sequence := ms_ledger_sequence m + 1\<rparr>)"

definition no_media :: string where "no_media = ''No media loaded''"

definition adjust_event :: "media_adjustment \<Rightarrow> time \<Rightarrow> media_state \<Rightarrow> media_state \<Rightarrow> media_ledger_event"
  where
  "adjust_event a t m m' = \<lparr>le_sequence = ms_ledger_sequence m', le_at = t, le_delta = ma_delta a,
     le_reason = ma_reason a, le_source = ma_source a, le_job_id = ma_job_id a,
     le_before = ms_remaining_labels m, le_after = ms_remaining_labels m',
     le_deficit_after = ms_accounting_deficit_labels m',
     le_hardware_counter_before = ma_hardware_counter_before a,
     le_hardware_counter_after = ma_hardware_counter_after a\<rparr>"

definition adjust_loaded :: "string \<Rightarrow> media_adjustment \<Rightarrow> media_state \<Rightarrow> world \<Rightarrow>
    (string + media_state) \<times> world" where
  "adjust_loaded pid a m w =
     (let m' = adjust_state (ma_delta a) m;
          (t, w) = now w; m' = m'\<lparr>ms_last_accounting_event_at := Some t\<rparr>;
          (t, w) = now w
      in bindE (append_media_ledger pid (adjust_event a t m m') w) (\<lambda>_ w.
         bindE (save_media pid m' w) (\<lambda>_ w. (Inr m', w))))"

definition media_adjust :: "string \<Rightarrow> media_adjustment \<Rightarrow> world \<Rightarrow> (string + media_state) \<times> world" where
  "media_adjust pid a w =
     bindE (load_media pid w) (\<lambda>r w.
       case r of None \<Rightarrow> (Inl no_media, w) | Some m \<Rightarrow> adjust_loaded pid a m w)"

section \<open>Loading, editing and unloading a roll\<close>

text \<open>\<open>digest\<close> is \<open>device::revision\<close>, the SHA-256 of the JSON text (not part of the
  repository); the revision of a roll covers when it was loaded and its definition.\<close>

definition media_revision :: "(time \<times> media_definition \<Rightarrow> string) \<Rightarrow> media_state \<Rightarrow> string" where
  "media_revision digest m = digest (ms_loaded_at m, ms_media m)"

definition archive :: "string \<Rightarrow> media_state \<Rightarrow> world \<Rightarrow> (string + unit) \<times> world" where
  "archive pid m w = (let (u, w) = new_uuid w in atomic_json (MediaArchive pid u) (DMedia m) w)"

definition fresh_roll :: "media_definition \<Rightarrow> time \<Rightarrow> media_state" where
  "fresh_roll d t = \<lparr>ms_media = d, ms_loaded_at = t,
     ms_initial_labels = md_labels_available_at_load d,
     ms_remaining_labels = md_labels_available_at_load d, ms_consumed_labels_total = 0,
     ms_accounting_deficit_labels = 0, ms_accounting_confidence = Estimated,
     ms_last_accounting_event_at = None, ms_ledger_sequence = 0\<rparr>"

definition store_fresh :: "string \<Rightarrow> media_definition \<Rightarrow> world \<Rightarrow> (string + media_state) \<times> world" where
  "store_fresh pid d w =
     (let (t, w) = now w; m = fresh_roll d t
      in bindE (save_media pid m w) (\<lambda>_ w. (Inr m, w)))"

definition media_load :: "string \<Rightarrow> media_definition \<Rightarrow> world \<Rightarrow> (string + media_state) \<times> world" where
  "media_load pid d w =
     bindE (media_validate d, w) (\<lambda>_ w.
     bindE (load_media pid w) (\<lambda>old w.
     bindE (case old of None \<Rightarrow> (Inr (), w) | Some m \<Rightarrow> archive pid m w) (\<lambda>_ w.
     store_fresh pid d w)))"

definition edited_roll :: "media_definition \<Rightarrow> media_state \<Rightarrow> media_state" where
  "edited_roll d m = m\<lparr>ms_media := d\<lparr>md_labels_available_at_load := ms_initial_labels m\<rparr>\<rparr>"

definition media_edit :: "(time \<times> media_definition \<Rightarrow> string) \<Rightarrow> string \<Rightarrow> string \<Rightarrow> media_definition \<Rightarrow>
    world \<Rightarrow> (string + media_state) \<times> world" where
  "media_edit digest pid expected d w =
     bindE (media_validate d, w) (\<lambda>_ w.
     bindE (load_media pid w) (\<lambda>r w.
       case r of
         None \<Rightarrow> (Inl no_media, w)
       | Some m \<Rightarrow>
           bindE (ensureE (media_revision digest m = expected)
             ''conflict: Loaded media changed; refresh before saving'' w) (\<lambda>_ w.
             let m' = edited_roll d m
             in bindE (save_media pid m' w) (\<lambda>_ w. (Inr m', w)))))"

definition media_unload :: "string \<Rightarrow> world \<Rightarrow> (string + unit) \<times> world" where
  "media_unload pid w =
     bindE (load_media pid w) (\<lambda>r w.
       case r of
         None \<Rightarrow> (Inl no_media, w)
       | Some m \<Rightarrow> bindE (archive pid m w) (\<lambda>_ w. remove_file (MediaFile pid) w))"

definition state_with_revision :: "(time \<times> media_definition \<Rightarrow> string) \<Rightarrow> string \<Rightarrow> world \<Rightarrow>
    (string + media_state option \<times> string option) \<times> world" where
  "state_with_revision digest pid w =
     bindE (load_media pid w) (\<lambda>r w. (Inr (r, map_option (media_revision digest) r), w))"

section \<open>The loss at a boot of the host\<close>

text \<open>The loop of \<open>apply_boot_accounting\<close>: here failures are not ignored.\<close>

fun boot_losses :: "u64 \<Rightarrow> printer_config list \<Rightarrow> world \<Rightarrow> (string + unit) \<times> world" where
  "boot_losses n [] w = (Inr (), w)"
| "boot_losses n (p # ps) w =
     bindE (load_media (pc_id p) w) (\<lambda>r w.
       case r of
         None \<Rightarrow> boot_losses n ps w
       | Some m \<Rightarrow>
           (let m' = estimate_debit n m;
                (t, w) = now w; m' = m'\<lparr>ms_last_accounting_event_at := Some t\<rparr>;
                (t, w) = now w
            in bindE (append_media_ledger (pc_id p)
                 (estimate_event n ''host_boot_loss'' ''configured_estimate'' t m m') w) (\<lambda>_ w.
               bindE (save_media (pc_id p) m' w) (\<lambda>_ w. boot_losses n ps w))))"

text \<open>\<open>boot\<close> is what reading \<open>/proc/sys/kernel/random/boot_id\<close> gave, if anything.\<close>

definition boot_text :: "string option \<Rightarrow> string" where
  "boot_text boot = trim_ws (case boot of None \<Rightarrow> ''unknown'' | Some b \<Rightarrow> b)"

definition apply_boot_accounting :: "config \<Rightarrow> string option \<Rightarrow> world \<Rightarrow> (string + unit) \<times> world" where
  "apply_boot_accounting c boot w =
     (let boot = boot_text boot;
          (r, w) = read_json as_boot_id BootIdFile w;
          previous = (case r of Inl _ \<Rightarrow> None | Inr b \<Rightarrow> Some b)
      in if previous = Some boot then (Inr (), w)
         else bindE
           (if previous \<noteq> None \<and> cf_host_boot_loss_labels c > 0
            then bindE (load_printer_configs w) (\<lambda>ps w.
                   boot_losses (cf_host_boot_loss_labels c)
                     (case ps of None \<Rightarrow> cf_printers c | Some ps \<Rightarrow> ps) w)
            else (Inr (), w))
           (\<lambda>_ w. atomic_json BootIdFile (DBootId boot) w))"

section \<open>The contract of a debit\<close>

lemma u64_bound: "unat (x :: u64) < 2 ^ 64"
proof -
  have "unat x < 2 ^ LENGTH(64)" by (rule unsigned_less)
  then show ?thesis by simp
qed

lemma deficit_add:
  "min (min (d + (a - r)) M + (b - (r - a))) M = min (d + (a + b - r)) M" for a b d r M :: nat
  by (cases "a \<le> r") (auto simp: min_def)

text \<open>
  Arithmetic over natural numbers that every debit implements: the roll goes down to zero
  at most, what it cannot cover is added to the deficit, the total counts everything.
\<close>

locale label_debit =
  fixes debit :: "u64 \<Rightarrow> media_state \<Rightarrow> media_state"
  assumes remaining: "unat (ms_remaining_labels (debit n m)) =
      unat (ms_remaining_labels m) - unat n"
    and consumed: "unat (ms_consumed_labels_total (debit n m)) =
      min (unat (ms_consumed_labels_total m) + unat n) (2 ^ 64 - 1)"
    and deficit: "unat (ms_accounting_deficit_labels (debit n m)) =
      min (unat (ms_accounting_deficit_labels m) + (unat n - unat (ms_remaining_labels m)))
        (2 ^ 64 - 1)"
    and roll: "ms_media (debit n m) = ms_media m" "ms_loaded_at (debit n m) = ms_loaded_at m"
      "ms_initial_labels (debit n m) = ms_initial_labels m"
    and sequence: "ms_ledger_sequence (debit n m) = ms_ledger_sequence m + 1"

text \<open>Every label of the roll is on the roll or consumed; a consumed label that the roll
  did not have is deficit.\<close>

definition balanced :: "media_state \<Rightarrow> bool" where
  "balanced m =
     (unat (ms_remaining_labels m) + unat (ms_consumed_labels_total m) =
        unat (ms_initial_labels m) + unat (ms_accounting_deficit_labels m))"

context label_debit begin

lemma never_more: "unat (ms_remaining_labels (debit n m)) \<le> unat (ms_remaining_labels m)"
  by (simp add: remaining)

lemma keeps_balance:
  assumes "balanced m" and "unat (ms_consumed_labels_total m) + unat n < 2 ^ 64"
  shows "balanced (debit n m)"
proof -
  have "unat (ms_accounting_deficit_labels m) \<le> unat (ms_remaining_labels m) +
      unat (ms_consumed_labels_total m)"
    using assms(1) by (simp add: balanced_def)
  moreover have "unat (ms_accounting_deficit_labels m) < 2 ^ 64" "unat n < 2 ^ 64"
    by (rule u64_bound)+
  ultimately show ?thesis
    using assms by (simp add: balanced_def remaining consumed deficit roll)
qed

lemma add_debits:
  assumes "unat a + unat b < 2 ^ 64"
  shows "ms_remaining_labels (debit b (debit a m)) = ms_remaining_labels (debit (a + b) m)"
    and "ms_consumed_labels_total (debit b (debit a m)) = ms_consumed_labels_total (debit (a + b) m)"
    and "ms_accounting_deficit_labels (debit b (debit a m)) =
      ms_accounting_deficit_labels (debit (a + b) m)"
proof -
  have ab: "unat (a + b) = unat a + unat b" using assms by (simp add: unat_word_ariths)
  show "ms_remaining_labels (debit b (debit a m)) = ms_remaining_labels (debit (a + b) m)"
    by (rule word_unat_eq_iff [THEN iffD2]) (simp add: remaining ab)
  show "ms_consumed_labels_total (debit b (debit a m)) = ms_consumed_labels_total (debit (a + b) m)"
    by (rule word_unat_eq_iff [THEN iffD2]) (simp add: consumed ab)
  show "ms_accounting_deficit_labels (debit b (debit a m)) =
      ms_accounting_deficit_labels (debit (a + b) m)"
    by (rule word_unat_eq_iff [THEN iffD2]) (simp only: deficit remaining ab deficit_add)
qed

lemma same_revision: "media_revision digest (debit n m) = media_revision digest m"
  by (simp add: media_revision_def roll)

end

interpretation estimate: label_debit estimate_debit
  by unfold_locales (simp_all add: estimate_debit_def unat_sat_add unat_sat_sub)

lemma unat_min: "unat (min a b) = min (unat a) (unat b)"
  by (simp add: min_def word_le_nat_alt)

interpretation job_use: label_debit job_debit
proof unfold_locales
  fix n m
  show "unat (ms_remaining_labels (job_debit n m)) = unat (ms_remaining_labels m) - unat n"
    by (simp add: job_debit_def unat_sub unat_min min_def word_le_nat_alt)
  show "unat (ms_accounting_deficit_labels (job_debit n m)) =
      min (unat (ms_accounting_deficit_labels m) + (unat n - unat (ms_remaining_labels m)))
        (2 ^ 64 - 1)"
    by (simp add: job_debit_def unat_sat_add unat_sub unat_min min_def word_le_nat_alt)
qed (simp_all add: job_debit_def unat_sat_add)

text \<open>A negative correction is a debit of its magnitude; a positive one adds labels.\<close>

lemma adjust_negative:
  "d <s 0 \<Longrightarrow> adjust_state d m = (estimate_debit (- d) m)
     \<lparr>ms_accounting_confidence := ms_accounting_confidence m\<rparr>"
  by (simp add: adjust_state_def estimate_debit_def Let_def)

section \<open>What the operations leave alone\<close>

definition media_paths :: "string \<Rightarrow> path set" where
  "media_paths pid = with_tmps (MediaFile pid) \<union> {LedgerFile pid} \<union>
     {q. \<exists>u. q \<in> with_tmps (MediaArchive pid u)}"

lemma media_paths_no_job [simp]: "no_job_file (media_paths pid)"
  by (auto simp: media_paths_def no_job_file_def with_tmps_def)

lemma load_media_Some:
  "load_media pid w = (Inr (Some m), w1) \<Longrightarrow> lookup (MediaFile pid) w = Some (Doc (DMedia m))"
  by (auto simp: load_media_def path_exists_def sys_def bindE_Inr_iff as_media_def
      split: option.splits bool.splits prod.splits doc.splits dest!: read_json_Inr)

lemma load_media_only: "load_media pid w = (r, w1) \<Longrightarrow> only_files P w w1"
  using only_files_loads(2) [where P = P and w = w and pid = pid] by simp

lemma only_files_save_media: "only_files (media_paths pid) w (snd (save_media pid m w))"
  using media_files.save_only [where k = pid and v = m and w = w]
  by (auto simp: media_paths_def elim: only_files_mono)

lemma only_files_ledger: "only_files (media_paths pid) w (snd (append_media_ledger pid e w))"
  unfolding append_media_ledger_def
  by (rule only_files_mono [OF append_ndjson_only_files]) (simp add: media_paths_def)

lemma only_files_archive: "only_files (media_paths pid) w (snd (archive pid m w))"
  using only_files_atomic [where p = "MediaArchive pid (env_uuid (w_env w) (w_tick w))"
      and P = "media_paths pid" and d = "DMedia m" and w = "advance w"]
  by (auto simp: archive_def new_uuid_def Let_def media_paths_def)

lemma only_files_store_debit: "only_files (media_paths pid) w (store_debit pid e m w)"
  unfolding store_debit_def
  by (rule only_files.trans [OF only_files_ledger only_files_save_media])

text \<open>A debit of the worker does nothing, or stores the debited state of the stored one.\<close>

definition debits :: "string \<Rightarrow> (media_state \<Rightarrow> media_state) \<Rightarrow> world \<Rightarrow> world \<Rightarrow> bool" where
  "debits pid f w w' =
     (only_files {} w w' \<or>
      (\<exists>m m' e w1. lookup (MediaFile pid) w = Some (Doc (DMedia m)) \<and> only_files {} w w1 \<and>
         (\<exists>t. m' = (f m)\<lparr>ms_last_accounting_event_at := Some t\<rparr>) \<and>
         le_sequence e = ms_ledger_sequence m' \<and> le_before e = ms_remaining_labels m \<and>
         le_after e = ms_remaining_labels m' \<and>
         le_deficit_after e = ms_accounting_deficit_labels m' \<and>
         w' = store_debit pid e m' w1))"

lemma debits_skip: "only_files {} w w' \<Longrightarrow> debits pid f w w'"
  by (simp add: debits_def)

lemma debits_store:
  assumes "load_media pid w = (Inr (Some m), w1)"
    and "m' = (f m)\<lparr>ms_last_accounting_event_at := Some t\<rparr>"
    and "le_sequence e = ms_ledger_sequence m'" and "le_before e = ms_remaining_labels m"
    and "le_after e = ms_remaining_labels m'"
    and "le_deficit_after e = ms_accounting_deficit_labels m'"
  shows "debits pid f w (store_debit pid e m' (advance (advance w1)))"
proof -
  have "only_files {} w (advance (advance w1))"
    by (rule only_files.trans [OF load_media_only [OF assms(1)]]) (simp add: only_files_def)
  with assms load_media_Some [OF assms(1)] show ?thesis unfolding debits_def by blast
qed

lemma debits_reconnect: "debits pid (estimate_debit n) w (apply_reconnect_loss pid n w)"
proof (cases "n = 0")
  case True
  then show ?thesis by (simp add: apply_reconnect_loss_def debits_skip only_files.refl)
next
  case False
  obtain r w1 where ld: "load_media pid w = (r, w1)" by fastforce
  note skip = debits_skip [OF load_media_only [OF ld]]
  show ?thesis
  proof (cases "\<exists>m. r = Inr (Some m)")
    case True
    with ld False show ?thesis
      by (auto simp: apply_reconnect_loss_def now_def Let_def estimate_event_def
          intro!: debits_store)
  next
    case nothing: False
    with ld False skip show ?thesis
      by (cases r; cases "projr r") (simp_all add: apply_reconnect_loss_def)
  qed
qed

lemma debits_maintenance:
  "debits pid (estimate_debit n) w (apply_maintenance_media_loss pid n action w)"
proof -
  obtain r w1 where ld: "load_media pid w = (r, w1)" by fastforce
  note skip = debits_skip [OF load_media_only [OF ld]]
  show ?thesis
  proof (cases "\<exists>m. r = Inr (Some m)")
    case True
    with ld show ?thesis
      by (auto simp: apply_maintenance_media_loss_def now_def Let_def estimate_event_def
          intro!: debits_store)
  next
    case nothing: False
    with ld skip show ?thesis
      by (cases r; cases "projr r") (simp_all add: apply_maintenance_media_loss_def)
  qed
qed

lemma consume_media_none: "job_label_count j = None \<Longrightarrow> only_files {} w (consume_media pid j w)"
  using load_media_only [where P = "{}" and w = w and pid = pid]
  by (cases "load_media pid w") (simp add: consume_media_def)

lemma debits_consume:
  assumes "job_label_count j = Some n"
  shows "debits pid (job_debit n) w (consume_media pid j w)"
proof -
  obtain r w1 where ld: "load_media pid w = (r, w1)" by fastforce
  note skip = debits_skip [OF load_media_only [OF ld]]
  show ?thesis
  proof (cases "\<exists>m. r = Inr (Some m)")
    case True
    with ld assms show ?thesis
      by (auto simp: consume_media_def now_def Let_def job_ledger_event_def intro!: debits_store)
  next
    case nothing: False
    with ld assms skip show ?thesis
      by (cases r; cases "projr r") (simp_all add: consume_media_def)
  qed
qed

lemma debits_only: "debits pid f w w' \<Longrightarrow> only_files (media_paths pid) w w'"
  unfolding debits_def
  by (elim disjE exE conjE)
     (auto elim: only_files_mono intro: only_files.trans only_files_store_debit)

lemma only_files_consume: "only_files (media_paths pid) w (consume_media pid j w)"
  by (cases "job_label_count j")
     (auto intro: only_files_mono [OF consume_media_none] debits_only debits_consume)

lemma evolves_debits [evo_intros]:
  "evolves w (apply_reconnect_loss pid n w)"
  "evolves w (apply_maintenance_media_loss pid n action w)"
  "evolves w (consume_media pid j w)"
  by (rule evolves_only_files, rule debits_only debits_reconnect debits_maintenance
      only_files_consume, (rule debits_reconnect debits_maintenance)?, simp)+

lemmas media_frames = only_files.bindE_respects only_files.refl only_files_ledger
  only_files_save_media only_files_archive only_files_loads

lemma only_files_skip: "only_files P (advance w) w' \<Longrightarrow> only_files P w w'"
  by simp

lemma only_files_adjust_loaded: "only_files (media_paths pid) w (snd (adjust_loaded pid a m w))"
  unfolding adjust_loaded_def now_def Let_def prod.case
  by (rule only_files_skip, rule only_files_skip)
     (rule media_frames | simp add: only_files.refl)+

lemma only_files_adjust: "only_files (media_paths pid) w (snd (media_adjust pid a w))"
  unfolding media_adjust_def
  by (rule only_files.bindE_respects)
     (auto simp: only_files.refl only_files_adjust_loaded split: option.split)

lemma only_files_unload: "only_files (media_paths pid) w (snd (media_unload pid w))"
proof -
  have "only_files (media_paths pid) w (snd (remove_file (MediaFile pid) w))" for w
    by (rule only_files_remove) (simp add: media_paths_def with_tmps_def)
  then show ?thesis
    unfolding media_unload_def
    by (intro only_files.bindE_respects)
       (auto simp: only_files.refl only_files_archive intro!: only_files.bindE_respects
         split: option.split)
qed

lemma only_files_edit: "only_files (media_paths pid) w (snd (media_edit digest pid expected d w))"
  unfolding media_edit_def Let_def
  by (intro only_files.bindE_respects)
     (auto simp: only_files.refl only_files_save_media intro!: only_files.bindE_respects
       split: option.split)

lemma only_files_media_load: "only_files (media_paths pid) w (snd (media_load pid d w))"
proof -
  have save: "only_files (media_paths pid) v (snd (store_fresh pid d v))" for v
    unfolding store_fresh_def now_def Let_def prod.case
    by (rule only_files_skip, rule only_files.bindE_respects [OF only_files_save_media])
       (simp add: only_files.refl)
  show ?thesis
    unfolding media_load_def
    by (intro only_files.bindE_respects)
       (auto simp: only_files.refl only_files_archive save split: option.split)
qed

lemma evolves_media [evo_intros]:
  "evolves w (snd (media_adjust pid a w))" "evolves w (snd (media_unload pid w))"
  "evolves w (snd (media_edit digest pid expected d w))" "evolves w (snd (media_load pid d w))"
  by (rule evolves_only_files, rule only_files_adjust only_files_unload only_files_edit
      only_files_media_load, simp)+

section \<open>What the operations store\<close>

definition media_of :: "world \<Rightarrow> string \<Rightarrow> media_state option" where
  "media_of w pid = (case lookup (MediaFile pid) w of Some (Doc (DMedia m)) \<Rightarrow> Some m | _ \<Rightarrow> None)"

lemma media_of_Some: "media_of w pid = Some m \<longleftrightarrow> lookup (MediaFile pid) w = Some (Doc (DMedia m))"
  by (auto simp: media_of_def split: option.splits fcontent.splits doc.splits)

lemma media_of_only: "only_files P w w' \<Longrightarrow> MediaFile pid \<notin> P \<Longrightarrow> media_of w' pid = media_of w pid"
  by (auto simp: only_files_def media_of_def)

lemma media_of_none: "only_files {} w w' \<Longrightarrow> media_of w' pid = media_of w pid"
  by (rule media_of_only [where P = "{}"]) simp_all

lemma media_of_simps [simp]: "media_of (advance w) pid = media_of w pid"
  by (simp add: media_of_def)

lemma media_of_ledger [simp]: "media_of (snd (append_media_ledger q e w)) pid = media_of w pid"
  unfolding append_media_ledger_def by (rule media_of_only [OF append_ndjson_only_files]) simp

lemma media_of_archive [simp]: "media_of (snd (archive q m w)) pid = media_of w pid"
  by (rule media_of_only [where P = "{p. \<exists>u. p \<in> with_tmps (MediaArchive q u)}"])
     (auto simp: archive_def new_uuid_def Let_def with_tmps_def
       intro!: only_files_skip [of _ w] only_files_atomic)

lemma media_of_save_ok: "save_media pid m w = (Inr u, w') \<Longrightarrow> media_of w' pid = Some m"
  using media_files.save_ok [where k = pid and v = m] by (auto simp: media_of_Some)

lemma media_of_save_any:
  "media_of (snd (save_media pid m w)) pid \<in> {media_of w pid, Some m}"
  using media_files.save_any [where k = pid and v = m and w = w]
  by (auto simp: media_of_def old_or_new_def)

lemma debits_media:
  assumes "debits pid f w w'" and "media_of w pid = Some m"
  shows "media_of w' pid = Some m \<or>
     (\<exists>t. media_of w' pid = Some ((f m)\<lparr>ms_last_accounting_event_at := Some t\<rparr>))"
  using assms(1) unfolding debits_def
proof (elim disjE exE conjE)
  assume "only_files {} w w'"
  with assms(2) show ?thesis by (simp add: media_of_none)
next
  fix m0 m' e w1 t
  assume m0: "lookup (MediaFile pid) w = Some (Doc (DMedia m0))" and fr: "only_files {} w w1"
    and m': "m' = (f m0)\<lparr>ms_last_accounting_event_at := Some t\<rparr>" and w': "w' = store_debit pid e m' w1"
  have "m0 = m" using m0 assms(2) by (simp add: media_of_Some)
  moreover have "media_of w' pid \<in> {media_of w1 pid, Some m'}"
    using media_of_save_any [of pid m' "snd (append_media_ledger pid e w1)"]
    by (simp add: w' store_debit_def)
  ultimately show ?thesis using assms(2) media_of_none [OF fr, of pid] m' by auto
qed

lemma balanced_stamp [simp]: "balanced (m\<lparr>ms_last_accounting_event_at := x\<rparr>) = balanced m"
  by (simp add: balanced_def)

text \<open>A world with one loaded roll, and the facts the witnesses below need of it.\<close>

definition sample_rolls :: world where
  "sample_rolls = world_with
     [(MediaFile ''p'', Doc (DMedia (sample_media 2 98))), (LedgerFile ''p'', Log [] None)]"

lemma sample_texts:
  "trim_ws ''Yellow labels'' \<noteq> []" "trim_ws ''Yellow'' \<noteq> []" "hex_color_ok ''#ffdd00''"
  by code_simp+

lemma media_validate_sample: "media_validate sample_media_definition = Inr ()"
  by (simp add: sample_media_definition_def media_validate_def f64_defs dimension_ok_def
      optional_measurements_def check_def sample_texts)

lemma sample_media_facts:
  "balanced (sample_media 2 98)" "unat (ms_consumed_labels_total (sample_media 2 98)) = 98"
  by (simp_all add: balanced_def sample_media_def)

lemma sample_rolls_facts [simp]:
  "media_of sample_rolls pid = (if pid = ''p'' then Some (sample_media 2 98) else None)"
  "quiet sample_rolls" "no_tmp sample_rolls"
  by (simp_all add: sample_rolls_def media_of_def)

text \<open>C19: when a delivered job is debited, whatever calls fail, the stored roll is either
  untouched or exactly the debited one, and no label is lost: what remains plus what was
  consumed is still what was loaded plus the deficit.\<close>

theorem consume_media_balanced:
  assumes "job_label_count j = Some n" and "media_of w pid = Some m" and "balanced m"
    and "unat (ms_consumed_labels_total m) + unat n < 2 ^ 64"
  shows "\<exists>m'. media_of (consume_media pid j w) pid = Some m' \<and> balanced m' \<and>
     (m' = m \<or> (\<exists>t. m' = (job_debit n m)\<lparr>ms_last_accounting_event_at := Some t\<rparr>))"
  using debits_media [OF debits_consume [OF assms(1)] assms(2)] assms(3)
    job_use.keeps_balance [OF assms(3,4)] by auto

theorem consume_media_balanced_witness:
  "\<exists>m'. media_of (consume_media ''p'' (sample_job Writing) sample_rolls) ''p'' = Some m' \<and> balanced m'"
  using consume_media_balanced [of "sample_job Writing" 3 sample_rolls "''p''" "sample_media 2 98"]
  by (auto simp: sample_job_def sample_media_facts)

text \<open>C36: the estimated losses of a reconnect, a maintenance label and a boot are exact over
  the natural numbers and saturate instead of wrapping around: the roll goes down to zero
  at most, what it cannot cover is deficit, and total and deficit stop at the largest
  64-bit value. Two losses in a row are one loss of the sum, and one that does not reach
  that limit keeps the balance of the roll.\<close>

theorem estimated_losses_add:
  assumes "unat a + unat b < 2 ^ 64"
  shows "unat (ms_remaining_labels (estimate_debit a m)) = unat (ms_remaining_labels m) - unat a \<and>
     unat (ms_consumed_labels_total (estimate_debit a m)) =
       min (unat (ms_consumed_labels_total m) + unat a) (2 ^ 64 - 1) \<and>
     unat (ms_accounting_deficit_labels (estimate_debit a m)) =
       min (unat (ms_accounting_deficit_labels m) + (unat a - unat (ms_remaining_labels m))) (2 ^ 64 - 1) \<and>
     ms_remaining_labels (estimate_debit b (estimate_debit a m)) =
      ms_remaining_labels (estimate_debit (a + b) m) \<and>
     ms_consumed_labels_total (estimate_debit b (estimate_debit a m)) =
      ms_consumed_labels_total (estimate_debit (a + b) m) \<and>
     ms_accounting_deficit_labels (estimate_debit b (estimate_debit a m)) =
      ms_accounting_deficit_labels (estimate_debit (a + b) m) \<and>
     (balanced m \<and> unat (ms_consumed_labels_total m) + unat a < 2 ^ 64 \<longrightarrow>
      balanced (estimate_debit a m))"
  using estimate.remaining [of a m] estimate.consumed [of a m] estimate.deficit [of a m]
    estimate.add_debits [OF assms, of m] estimate.keeps_balance [of m a] by blast

theorem estimated_losses_add_witness:
  "ms_accounting_deficit_labels (estimate_debit 4 (estimate_debit 3 (sample_media 5 95))) =
      ms_accounting_deficit_labels (estimate_debit (3 + 4) (sample_media 5 95)) \<and>
   unat (ms_consumed_labels_total (estimate_debit 3 (sample_media 5 0xFFFFFFFFFFFFFFFF))) = 2 ^ 64 - 1"
proof -
  have full: "unat (ms_consumed_labels_total (sample_media 5 0xFFFFFFFFFFFFFFFF)) = 2 ^ 64 - 1"
    by (simp add: sample_media_def)
  from estimated_losses_add [of 3 4 "sample_media 5 0xFFFFFFFFFFFFFFFF"]
  have "unat (ms_consumed_labels_total (estimate_debit 3 (sample_media 5 0xFFFFFFFFFFFFFFFF))) =
      min (2 ^ 64 - 1 + unat (3 :: u64)) (2 ^ 64 - 1)"
    unfolding full by simp
  moreover from estimated_losses_add [of 3 4 "sample_media 5 95"]
  have "ms_accounting_deficit_labels (estimate_debit 4 (estimate_debit 3 (sample_media 5 95))) =
      ms_accounting_deficit_labels (estimate_debit (3 + 4) (sample_media 5 95))" by simp
  ultimately show ?thesis by simp
qed

text \<open>C30: an edit of the definition succeeds only against the revision of the stored roll, and
  it changes nothing of the accounting: the counts, the ledger position and the number of
  labels loaded stay, whatever the request says.\<close>

theorem media_edit_keeps_accounting:
  assumes "media_edit digest pid expected d w = (Inr m', w')"
  shows "\<exists>m. media_of w pid = Some m \<and> media_revision digest m = expected \<and>
     media_of w' pid = Some m' \<and>
     m' = m\<lparr>ms_media := d\<lparr>md_labels_available_at_load := ms_initial_labels m\<rparr>\<rparr>"
  using assms
  by (auto simp: media_edit_def bindE_Inr_iff edited_roll_def Let_def media_of_Some [symmetric]
      dest!: load_media_Some media_of_save_ok split: option.splits)

theorem media_edit_keeps_accounting_witness:
  "\<exists>m' w'. media_edit (\<lambda>_. ''r'') ''p'' ''r'' sample_media_definition sample_rolls = (Inr m', w') \<and>
     media_of w' ''p'' = Some m'"
proof -
  obtain m' w' where
    edit: "media_edit (\<lambda>_. ''r'') ''p'' ''r'' sample_media_definition sample_rolls = (Inr m', w')"
    by (simp add: sample_rolls_def media_edit_def media_validate_sample media_revision_def run_defs)
  from media_edit_keeps_accounting [OF edit] edit show ?thesis by blast
qed

text \<open>Unloading removes the roll only after an archive file holds its last state.\<close>

theorem media_unload_archives:
  assumes "media_unload pid w = (Inr u, w')"
  shows "\<exists>m a. media_of w pid = Some m \<and> media_of w' pid = None \<and>
     lookup (MediaArchive pid a) w' = Some (Doc (DMedia m))"
proof -
  obtain m w1 w2 where ld: "load_media pid w = (Inr (Some m), w1)"
    and ar: "archive pid m w1 = (Inr (), w2)" and rm: "remove_file (MediaFile pid) w2 = (Inr u, w')"
    using assms by (auto simp: media_unload_def bindE_Inr_iff split: option.splits)
  have "lookup (MediaArchive pid (env_uuid (w_env w1) (w_tick w1))) w2 = Some (Doc (DMedia m))"
    using ar by (auto simp: archive_def new_uuid_def Let_def intro: atomic_json_Inr)
  moreover have "lookup (MediaFile pid) w' = None"
    "lookup (MediaArchive pid a) w' = lookup (MediaArchive pid a) w2" for a
    using rm by (auto simp: remove_file_def bindE_Inr_iff split: option.splits)
  ultimately show ?thesis using load_media_Some [OF ld] by (auto simp: media_of_Some) (auto simp: media_of_def)
qed

theorem media_unload_archives_witness:
  "\<exists>u w' m a. media_unload ''p'' sample_rolls = (Inr u, w') \<and> media_of w' ''p'' = None \<and>
     lookup (MediaArchive ''p'' a) w' = Some (Doc (DMedia m))"
proof -
  obtain u w' where unload: "media_unload ''p'' sample_rolls = (Inr u, w')"
    by (simp add: sample_rolls_def media_unload_def archive_def run_defs)
  from media_unload_archives [OF unload] unload show ?thesis by blast
qed

text \<open>When the calls succeed, loading a new roll keeps the previous one in an archive file
  and starts the accounting afresh.\<close>

theorem media_load_archives:
  assumes "quiet w" and "media_of w pid = Some m" and "media_load pid d w = (Inr m', w')"
  shows "media_of w' pid = Some m' \<and> (\<exists>a. lookup (MediaArchive pid a) w' = Some (Doc (DMedia m))) \<and>
     media_validate d = Inr () \<and> balanced m' \<and>
     ms_remaining_labels m' = md_labels_available_at_load d \<and> ms_media m' = d"
proof -
  have "fst (load_media pid w) = Inr (Some m)"
    using assms(1,2) by (auto simp: media_of_Some intro: loads_quiet)
  then obtain w1 w2 where ld: "load_media pid w = (Inr (Some m), w1)"
    and ar: "archive pid m w1 = (Inr (), w2)" and st: "store_fresh pid d w2 = (Inr m', w')"
    and ok: "media_validate d = Inr ()"
    using assms(3) by (cases "load_media pid w") (auto simp: media_load_def bindE_Inr_iff)
  let ?a = "MediaArchive pid (env_uuid (w_env w1) (w_tick w1))"
  have arch: "lookup ?a w2 = Some (Doc (DMedia m))"
    using ar by (auto simp: archive_def new_uuid_def Let_def intro: atomic_json_Inr)
  obtain t where m': "m' = fresh_roll d t" and sv: "save_media pid m' (advance w2) = (Inr (), w')"
    using st by (auto simp: store_fresh_def now_def Let_def bindE_Inr_iff)
  have "?a \<notin> with_tmps (MediaFile pid)" by (auto simp: with_tmps_def)
  then have "lookup ?a w' = lookup ?a w2"
    using only_files_lookup [OF media_files.save_only [where k = pid and v = m' and w = "advance w2"], of ?a]
    sv by simp
  with arch ok m' media_of_save_ok [OF sv] show ?thesis
    by (auto simp: balanced_def fresh_roll_def)
qed

theorem media_load_archives_witness:
  "\<exists>m' w' a. media_load ''p'' sample_media_definition sample_rolls = (Inr m', w') \<and>
     lookup (MediaArchive ''p'' a) w' = Some (Doc (DMedia (sample_media 2 98))) \<and> balanced m'"
proof -
  obtain m' w' where load: "media_load ''p'' sample_media_definition sample_rolls = (Inr m', w')"
    by (simp add: sample_rolls_def media_load_def media_validate_sample archive_def store_fresh_def run_defs)
  from media_load_archives [OF _ _ load] load show ?thesis by auto
qed

text \<open>Every stored roll has a valid definition.\<close>

definition media_ok :: "media_state \<Rightarrow> bool" where
  "media_ok m = (media_validate (ms_media m) = Inr () \<and>
     md_labels_available_at_load (ms_media m) = ms_initial_labels m)"

definition all_media_ok :: "world \<Rightarrow> bool" where
  "all_media_ok w = (\<forall>pid m. media_of w pid = Some m \<longrightarrow> media_ok m)"

lemma all_media_okI:
  assumes "all_media_ok w" and "only_files (media_paths pid) w w'"
    and "\<And>m. media_of w' pid = Some m \<Longrightarrow> media_ok m"
  shows "all_media_ok w'"
  unfolding all_media_ok_def
proof (intro allI impI)
  fix q m
  assume m: "media_of w' q = Some m"
  show "media_ok m"
  proof (cases "q = pid")
    case True
    with m assms(3) show ?thesis by simp
  next
    case False
    then have "media_of w' q = media_of w q"
      by (intro media_of_only [OF assms(2)]) (auto simp: media_paths_def with_tmps_def)
    with m assms(1) show ?thesis by (simp add: all_media_ok_def)
  qed
qed

lemma media_ok_debits:
  "media_ok ((job_debit n m)\<lparr>ms_last_accounting_event_at := x\<rparr>) = media_ok m"
  "media_ok ((estimate_debit n m)\<lparr>ms_last_accounting_event_at := x\<rparr>) = media_ok m"
  "media_ok ((adjust_state d m)\<lparr>ms_last_accounting_event_at := x\<rparr>) = media_ok m"
  by (simp_all add: media_ok_def job_debit_def estimate_debit_def adjust_state_def Let_def)

lemma measurements_labels [simp]:
  "optional_measurements (d\<lparr>md_labels_available_at_load := n\<rparr>) = optional_measurements d"
  by (simp add: optional_measurements_def del: map_filter_simps)

lemma validate_labels:
  assumes "media_validate d = Inr ()" and "n \<le> 0x7FFFFFFFFFFFFFFF"
  shows "media_validate (d\<lparr>md_labels_available_at_load := n\<rparr>) = Inr ()"
  using assms unfolding media_validate_def checks_Inr by auto

lemma validate_bound:
  "media_validate d = Inr () \<Longrightarrow> md_labels_available_at_load d \<le> 0x7FFFFFFFFFFFFFFF"
  unfolding media_validate_def checks_Inr by auto

lemma all_media_ok_debits:
  assumes "debits pid f w w'" and "all_media_ok w"
    and keeps: "\<And>m x. media_ok ((f m)\<lparr>ms_last_accounting_event_at := x\<rparr>) = media_ok m"
  shows "all_media_ok w'"
proof (rule all_media_okI [OF assms(2) debits_only [OF assms(1)]])
  fix m'
  assume m': "media_of w' pid = Some m'"
  show "media_ok m'"
  proof (cases "media_of w pid")
    case None
    then have "only_files {} w w'" using assms(1) by (auto simp: debits_def media_of_def)
    with m' None show ?thesis by (simp add: media_of_none)
  next
    case (Some m)
    with debits_media [OF assms(1) Some] m' assms(2) keeps show ?thesis
      by (auto simp: all_media_ok_def)
  qed
qed

lemma media_of_save_in:
  "save_media pid m w = (r, w') \<Longrightarrow> media_of w' pid = Some m' \<Longrightarrow> m' = m \<or> media_of w pid = Some m'"
  using media_of_save_any [of pid m w] by auto

lemma all_media_ok_save:
  assumes "all_media_ok w" and "media_ok m" and "save_media pid m w = (r, w')"
  shows "all_media_ok w'"
proof (rule all_media_okI [OF assms(1)])
  show "only_files (media_paths pid) w w'"
    using only_files_save_media [of pid w m] assms(3) by simp
  show "media_ok m'" if "media_of w' pid = Some m'" for m'
    using media_of_save_in [OF assms(3) that] assms(1,2) by (auto simp: all_media_ok_def)
qed

lemma all_media_ok_only: "only_files P w w' \<Longrightarrow> (\<forall>pid. MediaFile pid \<notin> P) \<Longrightarrow> all_media_ok w' = all_media_ok w"
  by (simp add: all_media_ok_def media_of_only)

lemma all_media_ok_simps [simp]:
  "all_media_ok (advance w) = all_media_ok w"
  "all_media_ok (snd (append_media_ledger pid e w)) = all_media_ok w"
  "all_media_ok (snd (archive pid m w)) = all_media_ok w"
  by (simp_all add: all_media_ok_def)

lemma all_media_ok_load [simp]: "all_media_ok (snd (load_media pid w)) = all_media_ok w"
  using all_media_ok_only [OF load_media_only [where P = "{}" and w = w and pid = pid]]
  by (cases "load_media pid w") simp

text \<open>The invariant as a preorder, so that it composes.\<close>

definition keeps_valid :: "world \<Rightarrow> world \<Rightarrow> bool" where
  "keeps_valid w w' = (all_media_ok w \<longrightarrow> all_media_ok w')"

interpretation keeps_valid: respected keeps_valid
  by unfold_locales (simp_all add: keeps_valid_def)

lemma keeps_valid_save: "media_ok m \<Longrightarrow> keeps_valid w (snd (save_media pid m w))"
  using all_media_ok_save by (cases "save_media pid m w") (auto simp: keeps_valid_def)

lemma keeps_valid_then_save:
  "media_ok m \<Longrightarrow> keeps_valid w (snd (bindE (save_media pid m w) (\<lambda>_ w. (Inr m, w))))"
  by (rule keeps_valid.bindE_respects) (simp_all add: keeps_valid_save keeps_valid.refl)

lemma keeps_valid_skip: "keeps_valid (advance w) w' \<Longrightarrow> keeps_valid w w'"
  by (simp add: keeps_valid_def)

lemma keeps_valid_loaded:
  assumes "\<And>m w'. media_ok m \<Longrightarrow> keeps_valid w' (snd (f m w'))" and "\<And>w'. keeps_valid w' (snd (g w'))"
  shows "keeps_valid w (snd (bindE (load_media pid w)
    (\<lambda>r w. case r of None \<Rightarrow> g w | Some m \<Rightarrow> f m w)))"
proof -
  obtain r w1 where ld: "load_media pid w = (r, w1)" by fastforce
  have kept: "keeps_valid w w1" using all_media_ok_load [of pid w] ld by (simp add: keeps_valid_def)
  show ?thesis
  proof (cases "\<exists>m. r = Inr (Some m)")
    case True
    then obtain m where m: "r = Inr (Some m)" by blast
    have "all_media_ok w \<Longrightarrow> media_ok m"
      using load_media_Some [of pid w m w1] ld m by (auto simp: all_media_ok_def media_of_Some)
    with assms(1) [of m w1] kept ld m show ?thesis by (auto simp: keeps_valid_def)
  next
    case False
    with ld kept assms(2) [of w1] show ?thesis
      by (cases r; cases "projr r") (auto simp: keeps_valid_def)
  qed
qed

lemma keeps_valid_debits:
  assumes "debits pid f w w'" and "\<And>m x. media_ok ((f m)\<lparr>ms_last_accounting_event_at := x\<rparr>) = media_ok m"
  shows "keeps_valid w w'"
  using all_media_ok_debits [OF assms(1) _ assms(2)] by (simp add: keeps_valid_def)

lemma keeps_valid_adjust: "keeps_valid w (snd (media_adjust pid a w))"
  unfolding media_adjust_def
proof (rule keeps_valid_loaded)
  fix m w'
  assume "media_ok m"
  then show "keeps_valid w' (snd (adjust_loaded pid a m w'))"
    unfolding adjust_loaded_def now_def Let_def prod.case
    by (intro keeps_valid_skip [of w'] keeps_valid_skip [of "advance w'"] keeps_valid.bindE_respects
        keeps_valid_then_save) (simp_all add: media_ok_debits keeps_valid_def)
qed (simp add: keeps_valid.refl)

lemma keeps_valid_load: "keeps_valid w (snd (media_load pid d w))"
proof (cases "media_validate d")
  case (Inr u)
  have "media_ok (fresh_roll d t)" for t using Inr by (simp add: media_ok_def fresh_roll_def)
  then have fresh: "keeps_valid v (snd (store_fresh pid d v))" for v
    unfolding store_fresh_def now_def Let_def prod.case
    by (intro keeps_valid_skip [of v] keeps_valid_then_save)
  have "keeps_valid v (snd (case r of None \<Rightarrow> (Inr (), v) | Some m \<Rightarrow> archive pid m v))" for r v
    by (cases r) (simp_all add: keeps_valid_def)
  with Inr fresh show ?thesis
    by (simp add: media_load_def keeps_valid.bindE_respects) 
       (intro keeps_valid.bindE_respects; simp add: keeps_valid_def)
qed (simp add: media_load_def keeps_valid.refl)

lemma keeps_valid_edit: "keeps_valid w (snd (media_edit digest pid expected d w))"
proof (cases "media_validate d")
  case (Inr u)
  have "media_ok (edited_roll d m)" if "media_ok m" for m
    using that Inr validate_bound [of "ms_media m"]
    by (auto simp: media_ok_def edited_roll_def intro: validate_labels)
  then have "keeps_valid v (snd (bindE (ensureE c e v) (\<lambda>_ w. let m' = edited_roll d m
      in bindE (save_media pid m' w) (\<lambda>_ w. (Inr m', w)))))" if "media_ok m" for m c e v
    unfolding Let_def using that
    by (intro keeps_valid.bindE_respects keeps_valid_then_save) (simp_all add: keeps_valid.refl)
  with Inr show ?thesis
    by (simp add: media_edit_def keeps_valid_loaded keeps_valid.refl)
qed (simp add: media_edit_def keeps_valid.refl)

lemma keeps_valid_remove: "keeps_valid w (snd (remove_file (MediaFile pid) w))"
  by (auto simp: keeps_valid_def all_media_ok_def media_of_def remove_file_def bindE_def sys_def
      split: option.splits if_splits)

lemma keeps_valid_unload: "keeps_valid w (snd (media_unload pid w))"
  unfolding media_unload_def
proof (rule keeps_valid_loaded)
  show "keeps_valid v (snd (bindE (archive pid m v) (\<lambda>_ w. remove_file (MediaFile pid) w)))" for m v
    by (rule keeps_valid.bindE_respects [OF _ keeps_valid_remove]) (simp add: keeps_valid_def)
qed (simp add: keeps_valid.refl)

lemma keeps_valid_boot_losses: "keeps_valid w (snd (boot_losses n ps w))"
proof (induction ps arbitrary: w)
  case Nil
  show ?case by (simp add: keeps_valid.refl)
next
  case (Cons p ps)
  have ledger: "keeps_valid v (snd (append_media_ledger q e v))" for q e v
    by (simp add: keeps_valid_def)
  show ?case
    unfolding boot_losses.simps
  proof (rule keeps_valid_loaded)
    fix m v
    assume "media_ok m"
    then show "keeps_valid v (snd (let m' = estimate_debit n m;
          (t, w) = now v; m' = m'\<lparr>ms_last_accounting_event_at := Some t\<rparr>;
          (t, w) = now w
        in bindE (append_media_ledger (pc_id p)
             (estimate_event n ''host_boot_loss'' ''configured_estimate'' t m m') w) (\<lambda>_ w.
           bindE (save_media (pc_id p) m' w) (\<lambda>_ w. boot_losses n ps w))))"
      unfolding now_def Let_def prod.case
      by (intro keeps_valid_skip [of v] keeps_valid_skip [of "advance v"] keeps_valid.bindE_respects
          ledger keeps_valid_save Cons.IH) (simp add: media_ok_debits)
  qed (rule Cons.IH)
qed

lemma keeps_valid_boot: "keeps_valid w (snd (apply_boot_accounting c boot w))"
proof -
  obtain r w1 where rd: "read_json as_boot_id BootIdFile w = (r, w1)" by fastforce
  have 1: "keeps_valid w w1"
    using all_media_ok_only [OF read_json_world [OF rd]] by (simp add: keeps_valid_def)
  have configs: "keeps_valid v (snd (load_printer_configs v))" for v
    using all_media_ok_only [OF only_files_loads(5) [of "{}"], of v] by (simp add: keeps_valid_def)
  have boot: "keeps_valid v (snd (atomic_json BootIdFile d v))" for d v
    using all_media_ok_only [OF atomic_json_only_files [where p = BootIdFile and w = v and d = d]]
    by (auto simp: keeps_valid_def with_tmps_def)
  have "keeps_valid w1 (snd (apply_boot_accounting c boot w))"
    using rd
    by (auto simp: apply_boot_accounting_def Let_def keeps_valid.refl boot
        intro!: keeps_valid.bindE_respects configs keeps_valid_boot_losses)
  with 1 show ?thesis by (rule keeps_valid.trans)
qed

text \<open>C20: every operation of the media component, the accounting at a boot included, keeps
  every stored roll valid in any environment: its definition passes the validation and
  records the labels it was loaded with.\<close>

theorem media_operations_keep_valid:
  assumes "all_media_ok w"
  shows "all_media_ok (apply_reconnect_loss pid n w) \<and>
     all_media_ok (apply_maintenance_media_loss pid n action w) \<and>
     all_media_ok (consume_media pid j w) \<and>
     all_media_ok (snd (media_adjust pid a w)) \<and>
     all_media_ok (snd (media_load pid d w)) \<and>
     all_media_ok (snd (media_edit digest pid expected d w)) \<and>
     all_media_ok (snd (media_unload pid w)) \<and>
     all_media_ok (snd (apply_boot_accounting c boot w))"
proof -
  have "keeps_valid w (consume_media pid j w)"
  proof (cases "job_label_count j")
    case None
    show ?thesis by (simp add: keeps_valid_def all_media_ok_only [OF consume_media_none [OF None]])
  next
    case (Some n)
    show ?thesis by (rule keeps_valid_debits [OF debits_consume [OF Some] media_ok_debits(1)])
  qed
  moreover have "keeps_valid w (apply_reconnect_loss pid n w)"
    "keeps_valid w (apply_maintenance_media_loss pid n action w)"
    by (rule keeps_valid_debits [OF debits_reconnect media_ok_debits(2)]
        keeps_valid_debits [OF debits_maintenance media_ok_debits(2)])+
  moreover note keeps_valid_adjust [of w pid a] keeps_valid_load [of w pid d]
    keeps_valid_edit [of w digest pid expected d] keeps_valid_unload [of w pid] keeps_valid_boot [of w c boot]
  ultimately show ?thesis using assms unfolding keeps_valid_def by blast
qed

theorem media_operations_keep_valid_witness:
  "all_media_ok (apply_reconnect_loss ''p'' 2 sample_rolls)"
proof -
  have "media_ok (sample_media 2 98)"
    by (simp add: media_ok_def sample_media_def media_validate_sample)
       (simp add: sample_media_definition_def)
  then have ok: "all_media_ok sample_rolls" by (simp add: all_media_ok_def)
  show ?thesis by (rule conjunct1 [OF media_operations_keep_valid [OF ok]])
qed

section \<open>The ledger\<close>

text \<open>The entry that records the step from one state of the roll to the next.\<close>

definition records :: "media_ledger_event \<Rightarrow> media_state \<Rightarrow> media_state \<Rightarrow> bool" where
  "records e m m' =
     (le_sequence e = ms_ledger_sequence m' \<and> ms_ledger_sequence m' = ms_ledger_sequence m + 1 \<and>
      le_before e = ms_remaining_labels m \<and> le_after e = ms_remaining_labels m' \<and>
      le_deficit_after e = ms_accounting_deficit_labels m')"

lemma quiet_put [simp]: "quiet (put p c w) = quiet w"
  by (simp add: quiet_def)

lemma append_steps_quiet:
  assumes "quiet w"
  shows "\<exists>w'. open_append p w = (Inr (), w') \<and> quiet w'"
    and "\<exists>w'. append_doc p d w = (Inr (), w') \<and> quiet w'"
    and "\<exists>w'. append_newline p w = (Inr (), w') \<and> quiet w'"
proof -
  have env: "env_fs (w_env w) (w_tick w) = None" using assms by (simp add: quiet_def)
  show "\<exists>w'. open_append p w = (Inr (), w') \<and> quiet w'"
    using assms by (simp add: open_append_def sys_quiet split: option.split)
  show "\<exists>w'. append_doc p d w = (Inr (), w') \<and> quiet w'"
    using assms env by (simp add: append_doc_def split: prod.split)
  show "\<exists>w'. append_newline p w = (Inr (), w') \<and> quiet w'"
    using assms by (simp add: append_newline_def sys_quiet split: prod.split)
qed

lemma append_ndjson_quiet:
  assumes "quiet w"
  shows "\<exists>w'. append_ndjson p d w = (Inr (), w')"
proof -
  obtain w1 where 1: "open_append p (advance w) = (Inr (), w1)" "quiet w1"
    using append_steps_quiet(1) [of "advance w" p] assms by auto
  obtain w2 where 2: "append_doc p d w1 = (Inr (), w2)" "quiet w2"
    using append_steps_quiet(2) [OF 1(2)] by blast
  obtain w3 where 3: "append_newline p w2 = (Inr (), w3)" "quiet w3"
    using append_steps_quiet(3) [OF 2(2)] by blast
  from assms 1 2 3 show ?thesis
    by (simp add: append_ndjson_def create_dir_all_def sync_call_def sys_quiet)
qed

lemma ledger_of_save [simp]:
  "lookup (LedgerFile pid) (snd (save_media q m w)) = lookup (LedgerFile pid) w"
  using only_files_lookup [OF media_files.save_only [where k = q and v = m and w = w], of "LedgerFile pid"]
  by (auto simp: with_tmps_def)

text \<open>A terminated ledger.\<close>

definition ledger_lines :: "string \<Rightarrow> world \<Rightarrow> log_line list option" where
  "ledger_lines pid w = (case lookup (LedgerFile pid) w of
     None \<Rightarrow> Some [] | Some (Log es None) \<Rightarrow> Some es | _ \<Rightarrow> None)"

lemma ledger_append:
  assumes "append_media_ledger pid e w = (Inr u, w')" and "ledger_lines pid w = Some es"
  shows "ledger_lines pid w' = Some (es @ [Entry (DLedger e)])"
  using append_ndjson_Inr [of "LedgerFile pid" "DLedger e" w u w' es] assms
  by (auto simp: append_media_ledger_def ledger_lines_def split: option.splits fcontent.splits)

lemma ledger_only: "only_files P w w' \<Longrightarrow> LedgerFile pid \<notin> P \<Longrightarrow> ledger_lines pid w' = ledger_lines pid w"
  by (simp add: ledger_lines_def only_files_def)

text \<open>A correction by the operator that is acknowledged is stored, and the ledger gained
  exactly one entry: it continues the sequence and states the counts before and after.\<close>

theorem media_adjust_recorded:
  assumes "media_adjust pid a w = (Inr m', w')" and "ledger_lines pid w = Some es"
  shows "\<exists>m e. media_of w pid = Some m \<and> media_of w' pid = Some m' \<and>
     ledger_lines pid w' = Some (es @ [Entry (DLedger e)]) \<and> records e m m' \<and>
     le_delta e = ma_delta a"
proof -
  obtain m w1 where ld: "load_media pid w = (Inr (Some m), w1)"
    and adj: "adjust_loaded pid a m w1 = (Inr m', w')"
    using assms(1) by (auto simp: media_adjust_def bindE_Inr_iff split: option.splits)
  then obtain t w2 where
    ap: "append_media_ledger pid (adjust_event a t m m') (advance (advance w1)) = (Inr (), w2)"
    and sv: "save_media pid m' w2 = (Inr (), w')"
    and m': "ms_ledger_sequence m' = ms_ledger_sequence m + 1"
    by (auto simp: adjust_loaded_def now_def Let_def bindE_Inr_iff adjust_event_def adjust_state_def
        split: if_splits)
  have "ledger_lines pid (advance (advance w1)) = Some es"
    using ledger_only [OF load_media_only [OF ld, of "{}"], of pid] assms(2)
    by (simp add: ledger_lines_def)
  from ledger_append [OF ap this]
  have "ledger_lines pid w' = Some (es @ [Entry (DLedger (adjust_event a t m m'))])"
    using sv by (metis ledger_of_save ledger_lines_def snd_conv)
  with m' media_of_save_ok [OF sv] load_media_Some [OF ld] show ?thesis
    by (intro exI [of _ m] exI [of _ "adjust_event a t m m'"])
       (simp add: records_def adjust_event_def media_of_Some)
qed

definition sample_adjustment :: media_adjustment where
  "sample_adjustment = \<lparr>ma_delta = -5, ma_reason = ''torn off'', ma_source = ''operator'',
     ma_job_id = None, ma_hardware_counter_before = None, ma_hardware_counter_after = None\<rparr>"

lemma sample_ledger [simp]: "ledger_lines ''p'' sample_rolls = Some []"
  by (simp add: sample_rolls_def ledger_lines_def)

theorem media_adjust_recorded_witness:
  "\<exists>m' w' e. media_adjust ''p'' sample_adjustment sample_rolls = (Inr m', w') \<and>
     ledger_lines ''p'' w' = Some [Entry (DLedger e)] \<and> le_delta e = -5"
proof -
  obtain m' w' where adjust: "media_adjust ''p'' sample_adjustment sample_rolls = (Inr m', w')"
    by (simp add: sample_rolls_def media_adjust_def adjust_loaded_def run_defs)
  from media_adjust_recorded [OF adjust sample_ledger] adjust show ?thesis
    by (auto simp: sample_adjustment_def)
qed

text \<open>When the calls succeed, a delivered job with a label count is debited exactly once,
  and the entry of the ledger agrees with the stored state.\<close>

theorem consume_media_recorded:
  assumes "quiet w" and "no_tmp w" and "job_label_count j = Some n" and "media_of w pid = Some m"
    and "ledger_lines pid w = Some es"
  shows "\<exists>m' e t. media_of (consume_media pid j w) pid = Some m' \<and>
     m' = (job_debit n m)\<lparr>ms_last_accounting_event_at := Some t\<rparr> \<and>
     ledger_lines pid (consume_media pid j w) = Some (es @ [Entry (DLedger e)]) \<and>
     records e m m' \<and> le_job_id e = Some (job_id j)"
proof -
  have "fst (load_media pid w) = Inr (Some m)"
    using assms(1,4) by (auto simp: media_of_Some intro: loads_quiet)
  then obtain w1 where ld: "load_media pid w = (Inr (Some m), w1)"
    by (cases "load_media pid w") auto
  obtain t t' where run: "consume_media pid j w =
      store_debit pid (job_ledger_event n j t' m ((job_debit n m)\<lparr>ms_last_accounting_event_at := Some t\<rparr>))
        ((job_debit n m)\<lparr>ms_last_accounting_event_at := Some t\<rparr>) (advance (advance w1))"
    using assms(3) ld by (auto simp: consume_media_def now_def Let_def)
  define m' where "m' = (job_debit n m)\<lparr>ms_last_accounting_event_at := Some t\<rparr>"
  define e where "e = job_ledger_event n j t' m m'"
  let ?w = "advance (advance w1)"
  have fr: "only_files {} w ?w" 
    by (rule only_files.trans [OF load_media_only [OF ld]]) (simp add: only_files_def)
  have q: "quiet ?w" "no_tmp ?w" using fr assms(1,2) by (simp_all add: only_files_def quiet_def no_tmp_def)
  obtain w2 where ap: "append_media_ledger pid e ?w = (Inr (), w2)"
    using append_ndjson_quiet [OF q(1)] by (auto simp: append_media_ledger_def)
  have fr2: "only_files {LedgerFile pid} ?w w2"
    using append_ndjson_only_files [of "LedgerFile pid" ?w "DLedger e"] ap
    by (simp add: append_media_ledger_def)
  have q2: "quiet w2" "no_tmp w2"
    using fr2 q by (simp_all add: only_files_def quiet_def no_tmp_def)
  obtain w3 where sv: "save_media pid m' w2 = (Inr (), w3)"
    using media_files.save_quiet [where k = pid and v = m', OF _ q2] by auto
  have w3: "consume_media pid j w = w3"
    using run ap sv by (simp add: store_debit_def m'_def e_def)
  have "ledger_lines pid ?w = Some es" using ledger_only [OF fr, of pid] assms(5) by simp
  from ledger_append [OF ap this] have "ledger_lines pid w3 = Some (es @ [Entry (DLedger e)])"
    using sv by (metis ledger_of_save ledger_lines_def snd_conv)
  moreover have "records e m m'" "le_job_id e = Some (job_id j)"
    by (simp_all add: records_def e_def m'_def job_ledger_event_def job_debit_def)
  ultimately show ?thesis
    using media_of_save_ok [OF sv] w3 m'_def by blast
qed

theorem consume_media_recorded_witness:
  "\<exists>e. ledger_lines ''p'' (consume_media ''p'' (sample_job Writing) sample_rolls) = Some [Entry (DLedger e)] \<and>
     le_job_id e = Some 7"
  using consume_media_recorded [of sample_rolls "sample_job Writing" 3 "''p''" "sample_media 2 98" "[]"]
  by (auto simp: sample_job_def)

section \<open>Boots\<close>

lemma boot_id_read:
  assumes "quiet w" and "lookup BootIdFile w = Some (Doc (DBootId b))"
  shows "fst (read_json as_boot_id BootIdFile w) = Inr b"
  by (rule read_json_quiet [OF assms]) (simp add: as_boot_id_def)

text \<open>C21: a boot whose accounting was completed is not accounted for again: if the accounting
  of a start succeeded and the file calls of the next one succeed, that start, under the
  same boot identifier, debits nothing and changes no file. (A start whose accounting
  fails half-way is outside of this: the debits it has stored are made again.)\<close>

theorem boot_accounting_once:
  assumes "apply_boot_accounting c boot w = (Inr u, w')" and "quiet w'"
  shows "\<exists>w''. apply_boot_accounting c boot w' = (Inr (), w'') \<and> only_files {} w' w''"
proof -
  obtain r w1 where rd: "read_json as_boot_id BootIdFile w = (r, w1)" by fastforce
  have "lookup BootIdFile w' = Some (Doc (DBootId (boot_text boot)))"
  proof (cases "r = Inr (boot_text boot)")
    case True
    with rd assms(1) have "w' = w1" by (simp add: apply_boot_accounting_def Let_def)
    moreover have "lookup BootIdFile w = Some (Doc (DBootId (boot_text boot)))"
      using rd True by (auto dest!: read_json_Inr simp: as_boot_id_def split: doc.splits)
    ultimately show ?thesis
      using only_files_lookup [OF read_json_world [OF rd], of BootIdFile] by simp
  next
    case False
    then have "(case r of Inl _ \<Rightarrow> None | Inr b \<Rightarrow> Some b) \<noteq> Some (boot_text boot)"
      by (cases r) simp_all
    with rd assms(1) obtain v where "atomic_json BootIdFile (DBootId (boot_text boot)) v = (Inr u, w')"
      by (auto simp: apply_boot_accounting_def Let_def bindE_Inr_iff)
    then show ?thesis by (rule atomic_json_Inr)
  qed
  with assms(2) have "fst (read_json as_boot_id BootIdFile w') = Inr (boot_text boot)"
    by (rule boot_id_read)
  then obtain w'' where rd': "read_json as_boot_id BootIdFile w' = (Inr (boot_text boot), w'')"
    by (cases "read_json as_boot_id BootIdFile w'") auto
  with read_json_world [OF rd'] show ?thesis
    by (simp add: apply_boot_accounting_def Let_def)
qed

theorem boot_accounting_once_witness:
  "\<exists>w' w''. apply_boot_accounting default_config (Some ''b'') (world_with []) = (Inr (), w') \<and>
     apply_boot_accounting default_config (Some ''b'') w' = (Inr (), w'') \<and> only_files {} w' w''"
proof -
  obtain w' where boot: "apply_boot_accounting default_config (Some ''b'') (world_with []) = (Inr (), w')"
      and quiet: "quiet w'"
    by (simp add: apply_boot_accounting_def boot_text_def as_boot_id_def quiet_def run_defs)
  from boot_accounting_once [OF boot quiet] boot show ?thesis by blast
qed

lemma boot_losses_frame: "only_files (\<Union>p\<in>set ps. media_paths (pc_id p)) w (snd (boot_losses n ps w))"
proof (induction ps arbitrary: w)
  case Nil
  show ?case by (simp add: only_files.refl)
next
  case (Cons p ps)
  let ?P = "\<Union>p\<in>set (p # ps). media_paths (pc_id p)"
  have rest: "only_files ?P v (snd (boot_losses n ps v))" for v
    by (rule only_files_mono [OF Cons.IH]) auto
  have led: "only_files ?P v (snd (append_media_ledger (pc_id p) e v))" for e v
    by (rule only_files_mono [OF only_files_ledger]) auto
  have sav: "only_files ?P v (snd (save_media (pc_id p) m v))" for m v
    by (rule only_files_mono [OF only_files_save_media]) auto
  have "only_files ?P v (snd (case r of None \<Rightarrow> boot_losses n ps v
      | Some m \<Rightarrow>
           (let m' = estimate_debit n m;
                (t, w) = now v; m' = m'\<lparr>ms_last_accounting_event_at := Some t\<rparr>;
                (t, w) = now w
            in bindE (append_media_ledger (pc_id p)
                 (estimate_event n ''host_boot_loss'' ''configured_estimate'' t m m') w) (\<lambda>_ w.
               bindE (save_media (pc_id p) m' w) (\<lambda>_ w. boot_losses n ps w)))))" for r v
  proof (cases r)
    case None
    with rest show ?thesis by simp
  next
    case (Some m)
    then show ?thesis
      unfolding Some option.case now_def Let_def prod.case
      by (intro only_files_skip [of _ v] only_files_skip [of _ "advance v"]
          only_files.bindE_respects led sav rest)
  qed
  then show ?case
    unfolding boot_losses.simps by (intro only_files.bindE_respects) simp_all
qed

lemma boot_losses_evolves [evo_intros]: "evolves w (snd (boot_losses n ps w))"
  by (rule evolves_only_files [OF boot_losses_frame]) (auto simp: no_job_file_def media_paths_def with_tmps_def)

lemma apply_boot_accounting_evolves [evo_intros]: "evolves w (snd (apply_boot_accounting c boot w))"
proof -
  obtain r w1 where rd: "read_json as_boot_id BootIdFile w = (r, w1)" by fastforce
  have ev: "evolves w w1" using evolves_only_files [OF read_json_world [OF rd]] by simp
  have boot: "evolves v (snd (atomic_json BootIdFile d v))" for d v
    by (rule evolves_only_files [OF atomic_json_only_files]) simp
  have "evolves w1 (snd (apply_boot_accounting c boot w))"
    using rd
    by (auto simp: apply_boot_accounting_def Let_def evolves.refl boot
        intro!: evolves.bindE_respects evo_intros)
  with ev show ?thesis by (rule evolves.trans)
qed

end
