(* ===== verification/Transport.thy ===== *)
theory Transport
  imports Media
begin

text \<open>
  \<open>src/transport.rs\<close>: the three ways to a printer (TCP, character device, USB bulk), with
  their write loops, query loops and file delivery. The contract every way satisfies is the
  locale \<open>byte_sink\<close>: a write moves a prefix of the data onto the wire, counts exactly
  what it moved, and moves everything when it succeeds.
\<close>

section \<open>Device calls\<close>

definition with_wire :: "string \<Rightarrow> u8 list \<Rightarrow> world \<Rightarrow> world" where
  "with_wire pid bs w = w\<lparr>w_wire := (w_wire w)(pid := w_wire w pid @ bs)\<rparr>"

text \<open>\<open>write\<close> accepts at most the bytes it is given.\<close>

definition dev_write_call :: "string \<Rightarrow> u8 list \<Rightarrow> world \<Rightarrow> dev_write \<times> world" where
  "dev_write_call pid data w =
     (case env_write (w_env w) (w_tick w) of
        WrOk n \<Rightarrow> (WrOk (min n (length data)), with_wire pid (take n data) (advance w))
      | WrBlock \<Rightarrow> (WrBlock, advance w)
      | WrErr e \<Rightarrow> (WrErr e, advance w))"

text \<open>\<open>read\<close> into a buffer of 4096 bytes.\<close>

definition dev_read_call :: "world \<Rightarrow> dev_read \<times> world" where
  "dev_read_call w =
     (case env_read (w_env w) (w_tick w) of
        RdOk bs \<Rightarrow> (RdOk (take 4096 bs), advance w)
      | RdTimeout \<Rightarrow> (RdTimeout, advance w)
      | RdErr e \<Rightarrow> (RdErr e, advance w))"

text \<open>Connecting, opening and configuring: calls that succeed or fail.\<close>

definition dev_call :: "world \<Rightarrow> (string + unit) \<times> world" where
  "dev_call w = (case env_open (w_env w) (w_tick w) of
     None \<Rightarrow> (Inr (), advance w) | Some e \<Rightarrow> (Inl e, advance w))"

definition poll_fd :: "world \<Rightarrow> (string + bool) \<times> world" where
  "poll_fd w =
     (case env_poll (w_env w) (w_tick w) of
        PollReady \<Rightarrow> (Inr True, advance w)
      | PollTimeout \<Rightarrow> (Inr False, advance w)
      | PollErr e \<Rightarrow> (Inl e, advance w))"

text \<open>\<open>Instant::now()\<close> in nanoseconds.\<close>

definition instant :: "world \<Rightarrow> nat \<times> world" where
  "instant w = (w_clock w, advance w)"

lemma with_wire_simps [simp]:
  "w_env (with_wire pid bs w) = w_env w" "w_files (with_wire pid bs w) = w_files w"
  "w_clock (with_wire pid bs w) = w_clock w" "w_tick (with_wire pid bs w) = w_tick w"
  "lookup p (with_wire pid bs w) = lookup p w" "wf_files (with_wire pid bs w) = wf_files w"
  by (simp_all add: with_wire_def lookup_def wf_files_def)

section \<open>The transports\<close>

record tcp_transport =
  tcp_addresses :: "string list"
  tcp_stream :: bool              \<comment> \<open>\<open>stream.is_some()\<close>\<close>
  tcp_wrote_since_connect :: bool
  tcp_max_response_bytes :: usize

record usb_transport =
  usb_interface :: u8
  usb_in_endpoint :: "u8 option"
  usb_out_endpoint :: u8

text \<open>The write timeout is in milliseconds.\<close>

datatype transport = Tcp tcp_transport | CharDevice u64 | Usb usb_transport

record query_response =
  qr_bytes :: "u8 list"
  qr_duration :: nat
  qr_classification :: string

record delivery_failure =
  df_bytes_written :: u64
  df_error :: string

definition classify :: "u8 list \<Rightarrow> string" where
  "classify bytes =
     (let text = ascii_lowercase (lossy_text bytes)
      in if trim_ws text = [] then ''empty''
         else if contains_str ''error'' text \<or> contains_str ''invalid'' text then ''printer_error''
         else if contains_str ''zebra'' text \<or> contains_str ''firmware'' text \<or>
           contains_str ''memory'' text then ''structured''
         else ''response'')"

subsection \<open>Connecting\<close>

text \<open>
  The \<open>anyhow\<close> errors of the code print as their outermost context. The last error of
  \<open>tcp_connect_loop\<close> is wrapped in one context in either case.
\<close>

fun tcp_connect_loop :: "string list \<Rightarrow> string option \<Rightarrow> tcp_transport \<Rightarrow> world \<Rightarrow>
    (string + unit) \<times> tcp_transport \<times> world" where
  "tcp_connect_loop [] last_error t w =
     (Inl ''connecting to TCP printer'', t, w)"
| "tcp_connect_loop (a # as) last_error t w =
     (case dev_call w of
        (Inl e, w) \<Rightarrow> tcp_connect_loop as (Some e) t w
      | (Inr _, w) \<Rightarrow>
          (case bindE (mapE (\<lambda>_. ''configuring TCP printer socket'') (dev_call w))
              (\<lambda>_ w. mapE (\<lambda>_. ''configuring TCP printer write timeout'') (dev_call w)) of
             (Inl e, w) \<Rightarrow> (Inl e, t, w)
           | (Inr _, w) \<Rightarrow> (Inr (), t\<lparr>tcp_stream := True, tcp_wrote_since_connect := False\<rparr>, w)))"

definition tcp_connect :: "tcp_transport \<Rightarrow> world \<Rightarrow> (string + unit) \<times> tcp_transport \<times> world" where
  "tcp_connect t w = tcp_connect_loop (tcp_addresses t) None t w"

definition tcp_open :: "printer_config \<Rightarrow> world \<Rightarrow> (string + tcp_transport) \<times> world" where
  "tcp_open c w =
     (case pc_tcp_host c of
        None \<Rightarrow> (Inl ''tcp transport requires tcp_host'', w)
      | Some host \<Rightarrow>
          (case env_resolve (w_env w) (w_tick w) of
             Inl e \<Rightarrow> (Inl (''resolving TCP printer '' @ trim_ws host @ '':'' @ show_word (pc_tcp_port c)),
                 advance w)
           | Inr addresses \<Rightarrow>
               if addresses = [] then                  (Inl (''TCP printer '' @ trim_ws host @ '':'' @ show_word (pc_tcp_port c) @
                    '' resolved to no addresses''), advance w)
               else (case tcp_connect \<lparr>tcp_addresses = addresses, tcp_stream = False,
                       tcp_wrote_since_connect = False,
                       tcp_max_response_bytes = pc_max_response_bytes c\<rparr> (advance w) of
                       (Inl e, _, w) \<Rightarrow> (Inl e, w)
                     | (Inr _, t, w) \<Rightarrow> (Inr t, w))))"

text \<open>\<open>stream()\<close> connects when there is no session.\<close>

definition tcp_session :: "tcp_transport \<Rightarrow> world \<Rightarrow> (string + unit) \<times> tcp_transport \<times> world" where
  "tcp_session t w = (if \<not> tcp_stream t then tcp_connect t w else (Inr (), t, w))"

text \<open>\<open>fresh_query_stream\<close> takes the session out of the transport.\<close>

definition tcp_fresh_query_stream :: "tcp_transport \<Rightarrow> world \<Rightarrow> (string + unit) \<times> tcp_transport \<times> world"
  where
  "tcp_fresh_query_stream t w =
     (case tcp_session t w of
        (Inl e, t, w) \<Rightarrow> (Inl e, t, w)
      | (Inr _, t, w) \<Rightarrow>
          (case (if tcp_wrote_since_connect t then tcp_connect (t\<lparr>tcp_stream := False\<rparr>) (advance w)
                 else (Inr (), t, w)) of
             (Inl e, t, w) \<Rightarrow> (Inl e, t, w)
           | (Inr _, t, w) \<Rightarrow> (Inr (), t\<lparr>tcp_stream := False\<rparr>, w)))"

definition char_open :: "printer_config \<Rightarrow> world \<Rightarrow> (string + u64) \<times> world" where
  "char_open c w =
     bindE (mapE (\<lambda>_. ''opening char device '' @ pc_device c) (dev_call w)) (\<lambda>_ w. (Inr (pc_write_timeout_ms c), w))"

subsection \<open>Finding the USB printer\<close>

text \<open>The loop over the devices: a matching vendor and product, and the serial number when
  one is configured; failures to read a descriptor or to verify a serial number are errors.\<close>

definition hex16 :: "u16 \<Rightarrow> string" where
  "hex16 x = hex_byte False (of_nat (unat x div 256)) @ hex_byte False (of_nat (unat x mod 256))"

definition usb_name :: "u16 \<Rightarrow> u16 \<Rightarrow> string" where
  "usb_name v p = hex16 v @ '':'' @ hex16 p"

fun usb_matching :: "u16 \<Rightarrow> u16 \<Rightarrow> string option \<Rightarrow> usb_device list \<Rightarrow> string + usb_device list" where
  "usb_matching v p serial [] = Inr []"
| "usb_matching v p serial (d # ds) =
     (case ud_ids d of
        Inl e \<Rightarrow> Inl ''reading USB device descriptor''
      | Inr (dv, dp) \<Rightarrow>
          if dv \<noteq> v \<or> dp \<noteq> p then usb_matching v p serial ds
          else (case serial of
            None \<Rightarrow> map_sum id ((#) d) (usb_matching v p serial ds)
          | Some expected \<Rightarrow>
              (case ud_open d of
                 Some _ \<Rightarrow> Inl (''opening USB device '' @ usb_name v p @ '' to verify serial'')
               | None \<Rightarrow>
                   (case ud_serial d of
                      Inl _ \<Rightarrow> Inl ''reading USB serial number''
                    | Inr actual \<Rightarrow>
                        if actual \<noteq> expected then usb_matching v p serial ds
                        else map_sum id ((#) d) (usb_matching v p serial ds)))))"

text \<open>Of the endpoints of a setting the last bulk one of each direction counts.\<close>

definition usb_bulk :: "bool \<Rightarrow> usb_setting \<Rightarrow> u8 option" where
  "usb_bulk inward s =
     (case filter (\<lambda>e. ue_bulk e \<and> ue_in e = inward) (us_endpoints s) of
        [] \<Rightarrow> None
      | es \<Rightarrow> Some (ue_address (last es)))"

definition usb_setting_ok :: "usb_setting \<Rightarrow> bool" where
  "usb_setting_ok s = (us_class s = 7 \<and> usb_bulk False s \<noteq> None)"

definition usb_select :: "usb_setting list list \<Rightarrow> (u8 \<times> u8 \<times> u8 option \<times> u8) option" where
  "usb_select interfaces =
     (case find usb_setting_ok (concat interfaces) of
        None \<Rightarrow> None
      | Some s \<Rightarrow> Some (us_interface s, us_alternate s, usb_bulk True s, the (usb_bulk False s)))"

definition usb_one :: "u16 \<Rightarrow> u16 \<Rightarrow> string option \<Rightarrow> usb_device list \<Rightarrow> string + usb_device" where
  "usb_one v p serial ds =
     (case ds of
        [] \<Rightarrow> Inl (''USB device '' @ usb_name v p @
           (case serial of None \<Rightarrow> [] | Some _ \<Rightarrow> '' with configured serial'') @ '' not found'')
      | [d] \<Rightarrow> Inr d
      | _ \<Rightarrow> Inl (''multiple USB devices match '' @ usb_name v p @ ''; configure usb_serial''))"

definition usb_active_config :: "usb_device \<Rightarrow> string + usb_setting list list" where
  "usb_active_config d =
     (case ud_active d of
        Inr c \<Rightarrow> Inr c
      | Inl _ \<Rightarrow>
          (case ud_configs d of
             Inr c # _ \<Rightarrow> Inr c | _ \<Rightarrow> Inl ''reading active USB configuration''))"

text \<open>Opening the handle, claiming the interface, and selecting an alternate setting other
  than zero.\<close>

definition usb_open :: "printer_config \<Rightarrow> world \<Rightarrow> (string + usb_transport) \<times> world" where
  "usb_open c w =
     (case pc_usb_vendor_id c of
        None \<Rightarrow> (Inl ''usb_bulk requires usb_vendor_id'', w)
      | Some v \<Rightarrow>
     (case pc_usb_product_id c of
        None \<Rightarrow> (Inl ''usb_bulk requires usb_product_id'', w)
      | Some p \<Rightarrow>
     bindE (mapE (\<lambda>_. ''enumerating USB devices'') (env_usb (w_env w) (w_tick w), advance w)) (\<lambda>devices w.
     bindE (usb_matching v p (pc_usb_serial c) devices, w) (\<lambda>matching w.
     bindE (usb_one v p (pc_usb_serial c) matching, w) (\<lambda>d w.
     bindE (usb_active_config d, w) (\<lambda>interfaces w.
       case usb_select interfaces of
         None \<Rightarrow> (Inl ''USB device has no printer-class bulk OUT endpoint'', w)
       | Some (interface, alternate, in_ep, out_ep) \<Rightarrow>
           bindE (ensureE (ud_open d = None) (''opening USB printer '' @ usb_name v p) w) (\<lambda>_ w.
           bindE (mapE (\<lambda>_. ''claiming USB printer interface '' @ show_word interface)
             (dev_call w)) (\<lambda>_ w.
           bindE (if alternate \<noteq> 0
             then mapE (\<lambda>_. ''selecting USB printer interface '' @ show_word interface @
               '' alternate '' @ show_word alternate) (dev_call w)
             else (Inr (), w)) (\<lambda>_ w.
             (Inr \<lparr>usb_interface = interface, usb_in_endpoint = in_ep,
                   usb_out_endpoint = out_ep\<rparr>, w))))))))))"

text \<open>\<open>transport::open\<close>.\<close>

definition open_transport :: "printer_config \<Rightarrow> world \<Rightarrow> (string + transport) \<times> world" where
  "open_transport c w =
     (if pc_transport c = ''char_device'' then
        bindE (char_open c w) (\<lambda>t w. (Inr (CharDevice t), w))
      else if pc_transport c = ''usb_bulk'' then
        bindE (usb_open c w) (\<lambda>t w. (Inr (Usb t), w))
      else if pc_transport c = ''tcp'' then
        bindE (tcp_open c w) (\<lambda>t w. (Inr (Tcp t), w))
      else (Inl (''unsupported transport '' @ pc_transport c), w))"

text \<open>\<open>discover_usb_printers\<close>: every device of the printer class, in the order of the bus.\<close>

record usb_found =
  uf_vendor_id :: u16
  uf_product_id :: u16
  uf_bus_number :: u8
  uf_address :: u8
  uf_manufacturer :: "string option"
  uf_product :: "string option"
  uf_serial_number :: "string option"
  uf_stable_identity :: bool

definition usb_printer_class :: "usb_device \<Rightarrow> bool" where
  "usb_printer_class d =
     (ud_class d = 7 \<or>
      list_ex (\<lambda>c. case c of Inl _ \<Rightarrow> False
        | Inr interfaces \<Rightarrow> list_ex (list_ex (\<lambda>s. us_class s = 7)) interfaces) (ud_configs d))"

definition usb_describe :: "usb_device \<Rightarrow> usb_found option" where
  "usb_describe d =
     (case ud_ids d of
        Inl _ \<Rightarrow> None
      | Inr (v, p) \<Rightarrow>
          if \<not> usb_printer_class d then None
          else
            (let serial = (case ud_open d of Some _ \<Rightarrow> None
               | None \<Rightarrow> (case ud_serial d of Inl _ \<Rightarrow> None | Inr s \<Rightarrow> Some s))
             in Some \<lparr>uf_vendor_id = v, uf_product_id = p, uf_bus_number = ud_bus d,
                  uf_address = ud_address d,
                  uf_manufacturer = (if ud_open d = None then ud_manufacturer d else None),
                  uf_product = (if ud_open d = None then ud_product d else None),
                  uf_serial_number = serial, uf_stable_identity = (serial \<noteq> None)\<rparr>))"

definition discover_usb_printers :: "world \<Rightarrow> (string + usb_found list) \<times> world" where
  "discover_usb_printers w =
     bindE (mapE (\<lambda>_. ''enumerating USB devices'') (env_usb (w_env w) (w_tick w), advance w)) (\<lambda>ds w. (Inr (List.map_filter usb_describe ds), w))"

section \<open>Writing\<close>

lemma dev_write_length: "dev_write_call pid data w = (WrOk n, w') \<Longrightarrow> n \<le> length data"
  by (auto simp: dev_write_call_def split: dev_write.splits)

lemma dev_write_clock: "dev_write_call pid data w = (r, w') \<Longrightarrow> w_clock w < w_clock w'"
  using advance_clock [of w] by (auto simp: dev_write_call_def split: dev_write.splits)

lemma poll_clock: "poll_fd w = (r, w') \<Longrightarrow> w_clock w < w_clock w'"
  using advance_clock [of w] by (auto simp: poll_fd_def split: dev_poll.splits)

text \<open>The loop of \<open>write_counted\<close>, of \<open>write_all_bulk\<close> and of the USB \<open>write_file\<close>: a blocking
  writer, where an expired timeout is an error like any other. \<open>ctx\<close> is the context put on
  errors of the call, \<open>zero\<close> the error when no byte was accepted.\<close>

function counted_loop :: "(string \<Rightarrow> string) \<Rightarrow> string \<Rightarrow> string \<Rightarrow> u8 list \<Rightarrow> u64 \<Rightarrow> world \<Rightarrow>
    (string + unit) \<times> u64 \<times> world" where
  "counted_loop ctx zero pid data sent w =
     (if data = [] then (Inr (), sent, w)
      else case dev_write_call pid data w of
        (WrErr e, w) \<Rightarrow> (Inl (ctx e), sent, w)
      | (WrBlock, w) \<Rightarrow> (Inl (ctx ''timed out''), sent, w)
      | (WrOk n, w) \<Rightarrow>
          if n = 0 then (Inl zero, sent, w)
          else counted_loop ctx zero pid (drop n data) (sent + of_nat n) w)"
  by pat_completeness auto
termination
  by (relation "measure (\<lambda>(ctx, zero, pid, data, sent, w). length data)")
     (auto dest!: dev_write_length [OF sym])

declare counted_loop.simps [simp del]

definition write_counted :: "string \<Rightarrow> u8 list \<Rightarrow> u64 \<Rightarrow> world \<Rightarrow> (string + unit) \<times> u64 \<times> world" where
  "write_counted pid data sent w =
     counted_loop (\<lambda>e. e) ''printer accepted zero bytes'' pid data sent w"

definition write_all_bulk :: "string \<Rightarrow> u8 list \<Rightarrow> u64 \<Rightarrow> world \<Rightarrow> (string + unit) \<times> u64 \<times> world" where
  "write_all_bulk pid data sent w =
     counted_loop (\<lambda>_. ''writing USB printer bulk endpoint'') ''USB printer accepted zero bytes''
       pid data sent w"

text \<open>\<open>write_all_nonblocking_counted\<close>; \<open>write_all_nonblocking\<close> is the same loop without the
  counter.\<close>

function nonblocking_loop :: "string \<Rightarrow> nat \<Rightarrow> u8 list \<Rightarrow> u64 \<Rightarrow> world \<Rightarrow> (string + unit) \<times> u64 \<times> world"
  where
  "nonblocking_loop pid deadline data sent w =
     (if data = [] then (Inr (), sent, w)
      else case dev_write_call pid data w of
        (WrOk n, w) \<Rightarrow>
          if n = 0 then (Inl ''device accepted zero bytes'', sent, w)
          else nonblocking_loop pid deadline (drop n data) (sent + of_nat n) w
      | (WrErr e, w) \<Rightarrow> (Inl e, sent, w)
      | (WrBlock, w) \<Rightarrow>
          (case instant w of
             (t, w) \<Rightarrow>
               if deadline - t = 0 then (Inl ''write_timeout'', sent, w)
               else (case poll_fd w of
                 (Inl e, w) \<Rightarrow> (Inl e, sent, w)
               | (Inr ready, w) \<Rightarrow>
                   if \<not> ready then (Inl ''write_timeout'', sent, w)
                   else nonblocking_loop pid deadline data sent w)))"
  by pat_completeness auto
termination
proof (relation "measures [length \<circ> fst \<circ> snd \<circ> snd, \<lambda>(pid, d, data, t, w). d - w_clock w]",
    goal_cases)
  case 1
  show ?case by simp
next
  case (2 pid deadline data sent w x y n)
  then show ?case using dev_write_length [of pid data w n y] by auto
next
  case (3 pid deadline data sent w x y xa ya xb yb x2)
  have "w_clock w < w_clock y" using 3 by (auto dest!: dev_write_clock [OF sym])
  moreover have "w_clock y = xa" "w_clock y < w_clock ya"
    using 3 advance_clock [of y] by (auto simp: instant_def)
  moreover have "w_clock ya < w_clock yb" using 3 by (auto dest!: poll_clock [OF sym])
  ultimately show ?case using 3 by auto
qed

declare nonblocking_loop.simps [simp del]

definition write_all_nonblocking_counted :: "string \<Rightarrow> u64 \<Rightarrow> u8 list \<Rightarrow> u64 \<Rightarrow> world \<Rightarrow>
    (string + unit) \<times> u64 \<times> world" where
  "write_all_nonblocking_counted pid timeout_ms data sent w =
     (case instant w of
        (t, w) \<Rightarrow> nonblocking_loop pid (t + unat timeout_ms * 1000000) data sent w)"

section \<open>The contract of a writer\<close>

text \<open>The bytes a call put on the wire of a printer; files and environment are untouched.\<close>

definition sends :: "string \<Rightarrow> u8 list \<Rightarrow> world \<Rightarrow> world \<Rightarrow> bool" where
  "sends pid bs w w' =
     (w_env w' = w_env w \<and> w_files w' = w_files w \<and>
      w_wire w' = (w_wire w)(pid := w_wire w pid @ bs))"

lemma sends_refl [simp]: "sends pid [] w w"
  by (simp add: sends_def)

lemma sends_trans: "sends pid a w1 w2 \<Longrightarrow> sends pid b w2 w3 \<Longrightarrow> sends pid (a @ b) w1 w3"
  by (auto simp: sends_def fun_eq_iff)

lemma sends_nil_trans: "sends pid [] w1 w2 \<Longrightarrow> sends pid b w2 w3 \<Longrightarrow> sends pid b w1 w3"
  using sends_trans [of pid "[]"] by simp

lemma sends_advance [simp]: "sends pid [] w (advance w)"
  by (simp add: sends_def)

lemma sends_advance_iff [simp]: "sends pid bs (advance w) w' = sends pid bs w w'"
  by (simp add: sends_def)

lemma sends_write:
  "dev_write_call pid data w = (WrOk n, w') \<Longrightarrow> sends pid (take n data) w w'"
  by (auto simp: dev_write_call_def sends_def with_wire_def split: dev_write.splits)

lemma sends_write_none:
  "dev_write_call pid data w = (r, w') \<Longrightarrow> (\<forall>n. r \<noteq> WrOk n) \<Longrightarrow> sends pid [] w w'"
  by (auto simp: dev_write_call_def sends_def split: dev_write.splits)

lemma sends_calls:
  "dev_call w = (r, w') \<Longrightarrow> sends pid [] w w'"
  "poll_fd w = (r', w') \<Longrightarrow> sends pid [] w w'"
  "instant w = (t, w') \<Longrightarrow> sends pid [] w w'"
  "dev_read_call w = (r'', w') \<Longrightarrow> sends pid [] w w'"
  "sys w = (r, w') \<Longrightarrow> sends pid [] w w'"
  by (auto simp: dev_call_def poll_fd_def instant_def dev_read_call_def sys_def
      split: option.splits dev_poll.splits dev_read.splits)

text \<open>
  \<open>wr t data sent w\<close> writes \<open>data\<close> over the transport \<open>t\<close>, adding to the counter \<open>sent\<close>.
\<close>

definition sink_step :: "string \<Rightarrow> u8 list \<Rightarrow> u64 \<Rightarrow> world \<Rightarrow> string + unit \<Rightarrow> u64 \<Rightarrow> world \<Rightarrow> bool" where
  "sink_step pid data sent w r sent' w' =
     (\<exists>bs rest. data = bs @ rest \<and> sends pid bs w w' \<and> sent' = sent + of_nat (length bs) \<and>
        (is_ok r \<longrightarrow> rest = []))"

lemma sink_step_none: "sends pid [] w w' \<Longrightarrow> sink_step pid data sent w (Inl e) sent w'"
  unfolding sink_step_def by (rule exI [of _ "[]"]) simp

lemma sink_step_nil: "sink_step pid [] sent w r sent w"
  by (simp add: sink_step_def)

lemma sink_step_before:
  "sends pid [] w w1 \<Longrightarrow> sink_step pid data sent w1 r sent' w' \<Longrightarrow> sink_step pid data sent w r sent' w'"
  unfolding sink_step_def by (blast intro: sends_nil_trans)

lemma sink_step_more:
  assumes "sends pid (take n data) w w1" and "n \<le> length data"
    and "sink_step pid (drop n data) (sent + of_nat n) w1 r sent' w'"
  shows "sink_step pid data sent w r sent' w'"
proof -
  obtain bs rest where *: "drop n data = bs @ rest" "sends pid bs w1 w'"
      "sent' = sent + of_nat n + of_nat (length bs)" "is_ok r \<longrightarrow> rest = []"
    using assms(3) by (auto simp: sink_step_def)
  have "data = (take n data @ bs) @ rest" using * by (metis append_assoc append_take_drop_id)
  moreover have "sends pid (take n data @ bs) w w'" using assms(1) *(2) by (rule sends_trans)
  moreover have "sent' = sent + of_nat (length (take n data @ bs))" using * assms(2) by simp
  ultimately show ?thesis using *(4) unfolding sink_step_def by blast
qed

lemma sink_step_error: "sink_step pid data sent w (Inl e) sent' w' \<Longrightarrow> sink_step pid data sent w (Inl f) sent' w'"
  by (simp add: sink_step_def)

locale byte_sink =
  fixes pid :: string and wr :: "'s \<Rightarrow> u8 list \<Rightarrow> u64 \<Rightarrow> world \<Rightarrow> (string + unit) \<times> u64 \<times> 's \<times> world"
  assumes step: "wr t data sent w = (r, sent', t', w') \<Longrightarrow> sink_step pid data sent w r sent' w'"

subsection \<open>The three writers\<close>

lemma loop_nil [simp]:
  "counted_loop ctx zero pid [] sent w = (Inr (), sent, w)"
  "nonblocking_loop pid deadline [] sent w = (Inr (), sent, w)"
  by (simp_all add: counted_loop.simps nonblocking_loop.simps)

lemma counted_loop_step:
  "counted_loop ctx zero pid data sent w = (r, sent', w') \<Longrightarrow> sink_step pid data sent w r sent' w'"
proof (induction ctx zero pid data sent w rule: counted_loop.induct)
  case (1 ctx zero pid data sent w)
  show ?case
  proof (cases "data = []")
    case True
    with "1.prems" show ?thesis by (auto simp: sink_step_nil)
  next
    case False
    obtain x w1 where wr: "dev_write_call pid data w = (x, w1)" by fastforce
    show ?thesis
    proof (cases x)
      case (WrOk n)
      note n = dev_write_length [OF wr [unfolded WrOk]] sends_write [OF wr [unfolded WrOk]]
      show ?thesis
      proof (cases "n = 0")
        case True
        with "1.prems" False wr WrOk n show ?thesis
          by (auto simp: counted_loop.simps [of ctx zero pid data] intro: sink_step_none)
      next
        case n0: False
        with "1.prems" False wr WrOk have
          "counted_loop ctx zero pid (drop n data) (sent + of_nat n) w1 = (r, sent', w')"
          by (simp add: counted_loop.simps [of ctx zero pid data])
        with "1.IH" False wr WrOk n0 have "sink_step pid (drop n data) (sent + of_nat n) w1 r sent' w'"
          by auto
        with n show ?thesis by (blast intro: sink_step_more)
      qed
    next
      case WrBlock
      with "1.prems" False wr show ?thesis
        by (auto simp: counted_loop.simps [of ctx zero pid data] dest: sends_write_none intro: sink_step_none)
    next
      case (WrErr e)
      with "1.prems" False wr show ?thesis
        by (auto simp: counted_loop.simps [of ctx zero pid data] dest: sends_write_none intro: sink_step_none)
    qed
  qed
qed

lemma nonblocking_loop_step:
  "nonblocking_loop pid deadline data sent w = (r, sent', w') \<Longrightarrow> sink_step pid data sent w r sent' w'"
proof (induction pid deadline data sent w rule: nonblocking_loop.induct)
  case (1 pid deadline data sent w)
  note unfold = nonblocking_loop.simps [of pid deadline data]
  show ?case
  proof (cases "data = []")
    case True
    with "1.prems" show ?thesis by (auto simp: sink_step_nil)
  next
    case False
    obtain x w1 where wr: "dev_write_call pid data w = (x, w1)" by fastforce
    show ?thesis
    proof (cases x)
      case (WrOk n)
      note n = dev_write_length [OF wr [unfolded WrOk]] sends_write [OF wr [unfolded WrOk]]
      show ?thesis
      proof (cases "n = 0")
        case True
        with "1.prems" False wr WrOk n show ?thesis by (auto simp: unfold intro: sink_step_none)
      next
        case n0: False
        with "1.prems" False wr WrOk have
          "nonblocking_loop pid deadline (drop n data) (sent + of_nat n) w1 = (r, sent', w')"
          by (simp add: unfold)
        with "1.IH"(1) False wr WrOk n0 have
          "sink_step pid (drop n data) (sent + of_nat n) w1 r sent' w'" by auto
        with n show ?thesis by (blast intro: sink_step_more)
      qed
    next
      case WrBlock
      obtain t w2 where ins: "instant w1 = (t, w2)" by fastforce
      obtain p w3 where po: "poll_fd w2 = (p, w3)" by fastforce
      have s1: "sends pid [] w w1" using sends_write_none [OF wr] WrBlock by simp
      have s2: "sends pid [] w w2" using s1 sends_calls(3) [OF ins] by (rule sends_nil_trans)
      have s3: "sends pid [] w w3" using s2 sends_calls(2) [OF po] by (rule sends_nil_trans)
      show ?thesis
      proof (cases "deadline - t \<noteq> 0 \<and> p = Inr True")
        case True
        with "1.prems" False wr WrBlock ins po have
          "nonblocking_loop pid deadline data sent w3 = (r, sent', w')" by (simp add: unfold)
        with "1.IH"(2) False wr WrBlock ins po True have "sink_step pid data sent w3 r sent' w'" by auto
        with s3 show ?thesis by (rule sink_step_before)
      next
        case stop: False
        with "1.prems" False wr WrBlock ins po s2 s3 show ?thesis
          by (cases p) (auto simp: unfold intro: sink_step_none split: if_splits)
      qed
    next
      case (WrErr e)
      with "1.prems" False wr show ?thesis
        by (auto simp: unfold dest: sends_write_none intro: sink_step_none)
    qed
  qed
qed

text \<open>One chunk of a file, as the three \<open>write_file\<close> write it.\<close>

definition tcp_chunk :: "string \<Rightarrow> tcp_transport \<Rightarrow> u8 list \<Rightarrow> u64 \<Rightarrow> world \<Rightarrow>
    (string + unit) \<times> u64 \<times> tcp_transport \<times> world" where
  "tcp_chunk pid t data sent w =
     (case tcp_session t w of
        (Inl e, t, w) \<Rightarrow> (Inl e, sent, t, w)
      | (Inr _, t, w) \<Rightarrow>
          (case write_counted pid data sent w of
             (Inl _, sent, w) \<Rightarrow> (Inl ''writing TCP printer'', sent, t, w)
           | (Inr _, sent, w) \<Rightarrow> (Inr (), sent, t\<lparr>tcp_wrote_since_connect := True\<rparr>, w)))"

definition char_chunk :: "string \<Rightarrow> u64 \<Rightarrow> u8 list \<Rightarrow> u64 \<Rightarrow> world \<Rightarrow>
    (string + unit) \<times> u64 \<times> u64 \<times> world" where
  "char_chunk pid timeout data sent w =
     (case write_all_nonblocking_counted pid timeout data sent w of
        (r, sent, w) \<Rightarrow> (r, sent, timeout, w))"

definition usb_chunk :: "string \<Rightarrow> usb_transport \<Rightarrow> u8 list \<Rightarrow> u64 \<Rightarrow> world \<Rightarrow>
    (string + unit) \<times> u64 \<times> usb_transport \<times> world" where
  "usb_chunk pid t data sent w =
     (case write_all_bulk pid data sent w of (r, sent, w) \<Rightarrow> (r, sent, t, w))"

lemma tcp_connect_loop_sends:
  "tcp_connect_loop as le t w = (r, t', w') \<Longrightarrow> sends pid [] w w'"
proof (induction as arbitrary: le w)
  case Nil
  then show ?case by simp
next
  case (Cons a as)
  obtain c w1 where c: "dev_call w = (c, w1)" by fastforce
  obtain c2 w2 where c2: "dev_call w1 = (c2, w2)" by fastforce
  obtain c3 w3 where c3: "dev_call w2 = (c3, w3)" by fastforce
  have s1: "sends pid [] w w1" by (rule sends_calls(1) [OF c])
  have s2: "sends pid [] w w2" by (rule sends_nil_trans [OF s1 sends_calls(1) [OF c2]])
  have s3: "sends pid [] w w3" by (rule sends_nil_trans [OF s2 sends_calls(1) [OF c3]])
  show ?case
  proof (cases c)
    case (Inl e)
    with Cons.prems c have "tcp_connect_loop as (Some e) t w1 = (r, t', w')" by simp
    then show ?thesis using sends_nil_trans [OF s1] Cons.IH by blast
  next
    case (Inr u)
    with Cons.prems c c2 c3 s2 s3 show ?thesis by (cases c2; cases c3) auto
  qed
qed

lemma tcp_session_sends: "tcp_session t w = (r, t', w') \<Longrightarrow> sends pid [] w w'"
  by (auto simp: tcp_session_def tcp_connect_def split: if_splits intro: tcp_connect_loop_sends)

lemma tcp_fresh_sends: "tcp_fresh_query_stream t w = (r, t', w') \<Longrightarrow> sends pid [] w w'"
proof -
  assume run: "tcp_fresh_query_stream t w = (r, t', w')"
  obtain r1 t1 w1 where ss: "tcp_session t w = (r1, t1, w1)" using prod_cases3 by blast
  note s1 = tcp_session_sends [OF ss, of pid]
  obtain r2 t2 w2 where cn: "tcp_connect (t1\<lparr>tcp_stream := False\<rparr>) (advance w1) = (r2, t2, w2)"
    using prod_cases3 by blast
  have "sends pid [] w1 w2"
    using tcp_connect_loop_sends [OF cn [unfolded tcp_connect_def], of pid] by simp
  with run ss s1 cn show ?thesis
    by (cases r1; cases r2) (auto simp: tcp_fresh_query_stream_def split: if_splits
        intro: sends_nil_trans)
qed

interpretation tcp_sink: byte_sink pid "tcp_chunk pid" for pid
proof
  fix t data sent w r sent' t' w'
  assume run: "tcp_chunk pid t data sent w = (r, sent', t', w')"
  obtain r1 t1 w1 where ss: "tcp_session t w = (r1, t1, w1)" using prod_cases3 by blast
  note s1 = tcp_session_sends [OF ss, of pid]
  obtain r2 sent2 w2 where wr: "write_counted pid data sent w1 = (r2, sent2, w2)"
    using prod_cases3 by blast
  have st: "sink_step pid data sent w r2 sent2 w2"
    using sink_step_before [OF s1 counted_loop_step] wr by (simp add: write_counted_def)
  show "sink_step pid data sent w r sent' w'"
  proof (cases r1)
    case (Inl e)
    with run ss s1 show ?thesis by (auto simp: tcp_chunk_def intro: sink_step_none)
  next
    case (Inr u)
    with run ss wr st show ?thesis
      by (cases r2) (auto simp: tcp_chunk_def dest: sink_step_error)
  qed
qed

interpretation char_sink: byte_sink pid "char_chunk pid" for pid
proof
  fix t data sent w r sent' t' w'
  assume "char_chunk pid t data sent w = (r, sent', t', w')"
  then have "nonblocking_loop pid (w_clock w + unat t * 1000000) data sent (advance w) = (r, sent', w')"
    by (auto simp: char_chunk_def write_all_nonblocking_counted_def instant_def split: prod.splits)
  from nonblocking_loop_step [OF this] show "sink_step pid data sent w r sent' w'"
    by (rule sink_step_before [OF sends_advance])
qed

interpretation usb_sink: byte_sink pid "usb_chunk pid" for pid
proof
  fix t data sent w r sent' t' w'
  assume "usb_chunk pid t data sent w = (r, sent', t', w')"
  then show "sink_step pid data sent w r sent' w'"
    by (auto simp: usb_chunk_def write_all_bulk_def split: prod.splits intro: counted_loop_step)
qed

section \<open>Delivering a file\<close>

text \<open>The loop of the three \<open>write_file\<close>: read 16 KiB, write them, until the end of the file.
  The error keeps the number of bytes written so far.\<close>

function file_loop :: "('s \<Rightarrow> u8 list \<Rightarrow> u64 \<Rightarrow> world \<Rightarrow> (string + unit) \<times> u64 \<times> 's \<times> world) \<Rightarrow>
    's \<Rightarrow> u8 list \<Rightarrow> u64 \<Rightarrow> world \<Rightarrow> (delivery_failure + u64) \<times> 's \<times> world" where
  "file_loop wr t bytes sent w =
     (case sys w of
        (Inl e, w) \<Rightarrow> (Inl \<lparr>df_bytes_written = sent, df_error = e\<rparr>, t, w)
      | (Inr _, w) \<Rightarrow>
          if take 16384 bytes = [] then (Inr sent, t, w)
          else case wr t (take 16384 bytes) sent w of
            (Inl e, sent, t, w) \<Rightarrow> (Inl \<lparr>df_bytes_written = sent, df_error = e\<rparr>, t, w)
          | (Inr _, sent, t, w) \<Rightarrow> file_loop wr t (drop 16384 bytes) sent w)"
  by pat_completeness auto
termination
  by (relation "measure (\<lambda>(wr, t, bytes, sent, w). length bytes)") auto

declare file_loop.simps [simp del]

text \<open>\<open>File::open\<close> of the payload: the stored bytes.\<close>

definition open_file :: "path \<Rightarrow> world \<Rightarrow> (string + u8 list) \<times> world" where
  "open_file p w =
     bindE (sys w) (\<lambda>_ w.
       case lookup p w of Some (Data bs) \<Rightarrow> (Inr bs, w) | _ \<Rightarrow> (Inl ''not found'', w))"

definition write_file_with :: "('s \<Rightarrow> u8 list \<Rightarrow> u64 \<Rightarrow> world \<Rightarrow> (string + unit) \<times> u64 \<times> 's \<times> world) \<Rightarrow>
    's \<Rightarrow> path \<Rightarrow> world \<Rightarrow> (delivery_failure + u64) \<times> 's \<times> world" where
  "write_file_with wr t p w =
     (case open_file p w of
        (Inl e, w) \<Rightarrow> (Inl \<lparr>df_bytes_written = 0, df_error = e\<rparr>, t, w)
      | (Inr bytes, w) \<Rightarrow> file_loop wr t bytes 0 w)"

definition tcp_write_file :: "string \<Rightarrow> tcp_transport \<Rightarrow> path \<Rightarrow> world \<Rightarrow>
    (delivery_failure + u64) \<times> tcp_transport \<times> world" where
  "tcp_write_file pid t p w = write_file_with (tcp_chunk pid) t p w"

definition char_write_file :: "string \<Rightarrow> u64 \<Rightarrow> path \<Rightarrow> world \<Rightarrow> (delivery_failure + u64) \<times> u64 \<times> world"
  where "char_write_file pid t p w = write_file_with (char_chunk pid) t p w"

definition usb_write_file :: "string \<Rightarrow> usb_transport \<Rightarrow> path \<Rightarrow> world \<Rightarrow>
    (delivery_failure + u64) \<times> usb_transport \<times> world" where
  "usb_write_file pid t p w = write_file_with (usb_chunk pid) t p w"

text \<open>The dispatch of the trait object.\<close>

definition write_file :: "string \<Rightarrow> transport \<Rightarrow> path \<Rightarrow> world \<Rightarrow>
    (delivery_failure + u64) \<times> transport \<times> world" where
  "write_file pid t p w =
     (case t of
        Tcp s \<Rightarrow> (case tcp_write_file pid s p w of (r, s, w) \<Rightarrow> (r, Tcp s, w))
      | CharDevice s \<Rightarrow> (case char_write_file pid s p w of (r, s, w) \<Rightarrow> (r, CharDevice s, w))
      | Usb s \<Rightarrow> (case usb_write_file pid s p w of (r, s, w) \<Rightarrow> (r, Usb s, w)))"

subsection \<open>Its contract\<close>

text \<open>What the caller relies on: success means the whole file is on the wire, a failure
  tells exactly how many bytes are.\<close>

definition delivers :: "string \<Rightarrow> u8 list \<Rightarrow> u64 \<Rightarrow> world \<Rightarrow> delivery_failure + u64 \<Rightarrow> world \<Rightarrow> bool" where
  "delivers pid bytes sent w r w' =
     (\<exists>bs rest. bytes = bs @ rest \<and> sends pid bs w w' \<and>
        (case r of Inr n \<Rightarrow> rest = [] \<and> n = sent + of_nat (length bs)
         | Inl f \<Rightarrow> df_bytes_written f = sent + of_nat (length bs)))"

lemma delivers_none:
  "sends pid [] w w' \<Longrightarrow> df_bytes_written f = sent \<Longrightarrow> delivers pid bytes sent w (Inl f) w'"
  unfolding delivers_def by (rule exI [of _ "[]"], rule exI [of _ bytes]) simp

context byte_sink begin

lemma file_loop_delivers:
  "file_loop wr t bytes sent w = (r, t', w') \<Longrightarrow> delivers pid bytes sent w r w'"
proof (induction "length bytes" arbitrary: t bytes sent w rule: less_induct)
  case less
  obtain rd w1 where rd: "sys w = (rd, w1)" by fastforce
  note s1 = sends_calls(5) [OF rd, of pid]
  consider (fail) e where "rd = Inl e" | (eof) "rd = Inr ()" "bytes = []" | (more) "rd = Inr ()" "bytes \<noteq> []"
    by (cases rd) auto
  then show ?case
  proof cases
    case fail
    with less.prems rd s1 show ?thesis
      by (auto simp: file_loop.simps [of wr t bytes] intro: delivers_none)
  next
    case eof
    with less.prems rd s1 show ?thesis
      by (auto simp: file_loop.simps [of wr t "[]"] delivers_def)
  next
    case more
    obtain x sent1 t1 w2 where wr: "wr t (take 16384 bytes) sent w1 = (x, sent1, t1, w2)"
      using prod_cases4 by blast
    from sink_step_before [OF s1 step [OF wr]] obtain bs rest where
      bs: "take 16384 bytes = bs @ rest" "sends pid bs w w2" "sent1 = sent + of_nat (length bs)"
      and ok: "is_ok x \<longrightarrow> rest = []"
      by (auto simp: sink_step_def)
    have split: "bytes = bs @ rest @ drop 16384 bytes"
      using bs(1) by (metis append_assoc append_take_drop_id)
    show ?thesis
    proof (cases x)
      case (Inl e)
      with less.prems rd more wr have "r = Inl \<lparr>df_bytes_written = sent1, df_error = e\<rparr>" "w' = w2"
        by (simp_all add: file_loop.simps [of wr t bytes])
      with split bs(2,3) show ?thesis
        unfolding delivers_def by - (rule exI [of _ bs], rule exI [of _ "rest @ drop 16384 bytes"], simp)
    next
      case (Inr u)
      with less.prems rd more wr have rec: "file_loop wr t1 (drop 16384 bytes) sent1 w2 = (r, t', w')"
        by (simp add: file_loop.simps [of wr t bytes])
      have "length (drop 16384 bytes) < length bytes" using more by simp
      from less.hyps [OF this rec] obtain bs' rest' where
        bs': "drop 16384 bytes = bs' @ rest'" "sends pid bs' w2 w'"
          "case r of Inr n \<Rightarrow> rest' = [] \<and> n = sent1 + of_nat (length bs')
           | Inl f \<Rightarrow> df_bytes_written f = sent1 + of_nat (length bs')"
        by (auto simp: delivers_def)
      have "bytes = (bs @ bs') @ rest'" using split ok Inr bs'(1) by simp
      moreover have "sends pid (bs @ bs') w w'" using bs(2) bs'(2) by (rule sends_trans)
      ultimately show ?thesis
        using bs'(3) bs(3) unfolding delivers_def
        by (intro exI [of _ "bs @ bs'"] exI [of _ rest']) (auto simp: add.assoc split: sum.splits)
    qed
  qed
qed

lemma write_file_delivers:
  assumes "write_file_with wr t p w = (r, t', w')"
  shows "(\<exists>bytes. lookup p w = Some (Data bytes) \<and> delivers pid bytes 0 w r w') \<or>
    (\<exists>f. r = Inl f \<and> df_bytes_written f = 0 \<and> sends pid [] w w')"
proof -
  obtain o1 w1 where op: "open_file p w = (o1, w1)" by fastforce
  have w1: "w1 = advance w"
    using op by (auto simp: open_file_def bindE_def sys_def split: option.splits fcontent.splits)
  show ?thesis
  proof (cases o1)
    case (Inl e)
    with assms op w1 show ?thesis by (auto simp: write_file_with_def)
  next
    case (Inr bytes)
    with op have "lookup p w = Some (Data bytes)"
      by (auto simp: open_file_def bindE_Inr_iff split: option.splits fcontent.splits)
    moreover have "delivers pid bytes 0 w1 r w'"
      using assms op Inr by (auto simp: write_file_with_def intro: file_loop_delivers)
    ultimately show ?thesis using w1 by (auto simp: delivers_def)
  qed
qed

end

lemma any_file_delivers:
  assumes "write_file pid t p w = (r, t', w')"
  shows "(\<exists>bytes. lookup p w = Some (Data bytes) \<and> delivers pid bytes 0 w r w') \<or>
    (\<exists>f. r = Inl f \<and> df_bytes_written f = 0 \<and> sends pid [] w w')"
  using assms tcp_sink.write_file_delivers char_sink.write_file_delivers usb_sink.write_file_delivers
  by (cases t) (auto simp: write_file_def tcp_write_file_def char_write_file_def usb_write_file_def
      split: prod.splits)

section \<open>Commands and queries\<close>

text \<open>\<open>write_bytes\<close>: the uncounted write of a command. The standard library's \<open>write_all\<close>
  is the loop of \<open>write_counted\<close>.\<close>

definition write_bytes :: "string \<Rightarrow> transport \<Rightarrow> u8 list \<Rightarrow> world \<Rightarrow> (string + unit) \<times> transport \<times> world"
  where
  "write_bytes pid t data w =
     (case t of
        Tcp s \<Rightarrow> (case tcp_chunk pid s data 0 w of (r, _, s, w) \<Rightarrow> (r, Tcp s, w))
      | CharDevice s \<Rightarrow> (case char_chunk pid s data 0 w of (r, _, s, w) \<Rightarrow> (r, CharDevice s, w))
      | Usb s \<Rightarrow> (case usb_chunk pid s data 0 w of (r, _, s, w) \<Rightarrow> (r, Usb s, w)))"

definition writes_prefix :: "string \<Rightarrow> u8 list \<Rightarrow> world \<Rightarrow> string + unit \<Rightarrow> world \<Rightarrow> bool" where
  "writes_prefix pid data w r w' =
     (\<exists>bs rest. data = bs @ rest \<and> sends pid bs w w' \<and> (is_ok r \<longrightarrow> rest = []))"

lemma sink_step_prefix: "sink_step pid data sent w r sent' w' \<Longrightarrow> writes_prefix pid data w r w'"
  by (auto simp: sink_step_def writes_prefix_def)

lemma write_bytes_prefix:
  "write_bytes pid t data w = (r, t', w') \<Longrightarrow> writes_prefix pid data w r w'"
  by (cases t) (auto simp: write_bytes_def split: prod.splits
      intro: sink_step_prefix tcp_sink.step char_sink.step usb_sink.step)

text \<open>The reading loop of a TCP query: bounded by \<open>max_response_bytes\<close>, so it ends.\<close>

function tcp_read_loop :: "usize \<Rightarrow> u8 list \<Rightarrow> world \<Rightarrow> (string + u8 list) \<times> world" where
  "tcp_read_loop limit bytes w =
     (case dev_read_call w of
        (RdOk chunk, w) \<Rightarrow>
          if chunk = [] then
            (if bytes = [] then (Inl ''connection_closed_before_response'', w) else (Inr bytes, w))
          else if length bytes + length chunk > unat limit then (Inl ''response_too_large'', w)
          else bindE (dev_call w) (\<lambda>_ w. tcp_read_loop limit (bytes @ chunk) w)
      | (RdTimeout, w) \<Rightarrow>
          if bytes = [] then (Inl ''first_byte_timeout'', w) else (Inr bytes, w)
      | (RdErr e, w) \<Rightarrow> (Inl ''reading TCP printer response'', w))"
  by pat_completeness auto
termination
  by (relation "measure (\<lambda>(limit, bytes, w). unat limit - length bytes)")
     (auto simp flip: length_greater_0_conv)

declare tcp_read_loop.simps [simp del]

definition tcp_query :: "string \<Rightarrow> tcp_transport \<Rightarrow> u8 list \<Rightarrow> world \<Rightarrow>
    (string + query_response) \<times> tcp_transport \<times> world" where
  "tcp_query pid t command w =
     (case instant w of
        (started, w) \<Rightarrow>
     (case tcp_fresh_query_stream t w of
        (Inl e, t, w) \<Rightarrow> (Inl e, t, w)
      | (Inr _, t, w) \<Rightarrow>
     (case dev_call w of
        (Inl e, w) \<Rightarrow> (Inl e, t, w)
      | (Inr _, w) \<Rightarrow>
     (case write_counted pid command 0 w of
        (Inl _, _, w) \<Rightarrow> (Inl ''writing TCP printer query'', t, w)
      | (Inr _, _, w) \<Rightarrow>
          (case bindE (dev_call w) (\<lambda>_ w. tcp_read_loop (tcp_max_response_bytes t) [] w) of
             (Inl e, w) \<Rightarrow> (Inl e, t, w)
           | (Inr bytes, w) \<Rightarrow>
               (case instant w of (stop, w) \<Rightarrow>
                  (Inr \<lparr>qr_bytes = bytes, qr_duration = stop - started,
                        qr_classification = classify bytes\<rparr>, t, w)))))))"

text \<open>
  The reading loop of a character device has no bound on the response: it ends when the
  device is silent for the idle time, and not at all when it never is. \<open>None\<close> is a loop
  that does not end.
\<close>

partial_function (option) char_read_loop :: "u8 list \<Rightarrow> world \<Rightarrow> ((string + u8 list) \<times> world) option"
  where
  "char_read_loop bytes w =
     (case dev_read_call w of
        (RdErr e, w) \<Rightarrow> Some (Inl e, w)
      | (RdOk chunk, w) \<Rightarrow>
          if chunk = [] then Some (Inr bytes, w)
          else (case poll_fd w of
            (Inl e, w) \<Rightarrow> Some (Inl e, w)
          | (Inr ready, w) \<Rightarrow>
              if \<not> ready then Some (Inr (bytes @ chunk), w) else char_read_loop (bytes @ chunk) w)
      | (RdTimeout, w) \<Rightarrow>
          (case poll_fd w of
            (Inl e, w) \<Rightarrow> Some (Inl e, w)
          | (Inr ready, w) \<Rightarrow> if \<not> ready then Some (Inr bytes, w) else char_read_loop bytes w))"

definition char_query :: "string \<Rightarrow> u64 \<Rightarrow> u8 list \<Rightarrow> u64 \<Rightarrow> world \<Rightarrow>
    ((string + query_response) \<times> world) option" where
  "char_query pid timeout command first_byte w =
     (case instant w of
        (started, w) \<Rightarrow>
     (case write_all_nonblocking_counted pid first_byte command 0 w of
        (Inl e, _, w) \<Rightarrow> Some (Inl e, w)
      | (Inr _, _, w) \<Rightarrow>
     (case poll_fd w of
        (Inl e, w) \<Rightarrow> Some (Inl e, w)
      | (Inr ready, w) \<Rightarrow>
          if \<not> ready then Some (Inl ''first_byte_timeout'', w)
          else (case char_read_loop [] w of
            None \<Rightarrow> None
          | Some (Inl e, w) \<Rightarrow> Some (Inl e, w)
          | Some (Inr bytes, w) \<Rightarrow>
              (case instant w of (stop, w) \<Rightarrow>
                 Some (Inr \<lparr>qr_bytes = bytes, qr_duration = stop - started,
                       qr_classification = classify bytes\<rparr>, w))))))"

text \<open>Neither has the loop over a USB endpoint.\<close>

partial_function (option) usb_read_loop :: "u8 list \<Rightarrow> world \<Rightarrow> ((string + u8 list) \<times> world) option"
  where
  "usb_read_loop bytes w =
     (case dev_read_call w of
        (RdErr e, w) \<Rightarrow> Some (Inl ''reading USB printer bulk endpoint'', w)
      | (RdTimeout, w) \<Rightarrow> Some (Inr bytes, w)
      | (RdOk chunk, w) \<Rightarrow>
          if chunk = [] then Some (Inr bytes, w) else usb_read_loop (bytes @ chunk) w)"

definition usb_query :: "string \<Rightarrow> usb_transport \<Rightarrow> u8 list \<Rightarrow> world \<Rightarrow>
    ((string + query_response) \<times> world) option" where
  "usb_query pid t command w =
     (case usb_in_endpoint t of
        None \<Rightarrow> Some (Inl ''USB printer does not expose a bulk IN endpoint'', w)
      | Some _ \<Rightarrow>
     (case instant w of
        (started, w) \<Rightarrow>
     (case write_all_bulk pid command 0 w of
        (Inl e, _, w) \<Rightarrow> Some (Inl e, w)
      | (Inr _, _, w) \<Rightarrow>
     (case dev_read_call w of
        (RdTimeout, w) \<Rightarrow> Some (Inl ''first_byte_timeout'', w)
      | (RdErr e, w) \<Rightarrow> Some (Inl ''reading USB printer bulk endpoint'', w)
      | (RdOk chunk, w) \<Rightarrow>
          if chunk = [] then Some (Inl ''first_byte_timeout'', w)
          else (case usb_read_loop chunk w of
            None \<Rightarrow> None
          | Some (Inl e, w) \<Rightarrow> Some (Inl e, w)
          | Some (Inr bytes, w) \<Rightarrow>
              (case instant w of (stop, w) \<Rightarrow>
                 Some (Inr \<lparr>qr_bytes = bytes, qr_duration = stop - started,
                       qr_classification = classify bytes\<rparr>, w)))))))"

text \<open>\<open>query\<close> of the trait object; \<open>first_byte\<close> in milliseconds.\<close>

definition query :: "string \<Rightarrow> transport \<Rightarrow> u8 list \<Rightarrow> u64 \<Rightarrow> world \<Rightarrow>
    ((string + query_response) \<times> transport \<times> world) option" where
  "query pid t command first_byte w =
     (case t of
        Tcp s \<Rightarrow> (case tcp_query pid s command w of (r, s, w) \<Rightarrow> Some (r, Tcp s, w))
      | CharDevice s \<Rightarrow>
          map_option (\<lambda>(r, w). (r, CharDevice s, w)) (char_query pid s command first_byte w)
      | Usb s \<Rightarrow> map_option (\<lambda>(r, w). (r, Usb s, w)) (usb_query pid s command w))"

subsection \<open>What a query puts on the wire\<close>

lemma tcp_read_loop_sends:
  "tcp_read_loop limit bytes w = (r, w') \<Longrightarrow> sends pid [] w w'"
proof (induction limit bytes w rule: tcp_read_loop.induct)
  case (1 limit bytes w)
  obtain x w1 where rd: "dev_read_call w = (x, w1)" by fastforce
  obtain c w2 where dc: "dev_call w1 = (c, w2)" by fastforce
  note s1 = sends_calls(4) [OF rd, of pid] and s2 = sends_calls(1) [OF dc, of pid]
  note unfold = tcp_read_loop.simps [of limit bytes w]
  consider (more) chunk where "x = RdOk chunk" "chunk \<noteq> []" "length bytes + length chunk \<le> unat limit" "c = Inr ()"
    | (cfg) chunk e where "x = RdOk chunk" "chunk \<noteq> []" "length bytes + length chunk \<le> unat limit" "c = Inl e"
    | (stop) "\<forall>chunk. x = RdOk chunk \<longrightarrow> chunk = [] \<or> unat limit < length bytes + length chunk"
    by (cases c) (auto simp: not_less [symmetric])
  then show ?case
  proof cases
    case more
    with "1.prems" rd dc have "tcp_read_loop limit (bytes @ chunk) w2 = (r, w')" by (simp add: unfold)
    with "1.IH" rd dc more have "sends pid [] w2 w'" by auto
    with s1 s2 show ?thesis by (blast intro: sends_nil_trans)
  next
    case cfg
    with "1.prems" rd dc s1 s2 show ?thesis by (auto simp: unfold intro: sends_nil_trans)
  next
    case stop
    with "1.prems" rd s1 show ?thesis by (cases x) (auto simp: unfold split: if_splits)
  qed
qed

lemma char_read_loop_sends:
  assumes "char_read_loop bytes w = Some x"
  shows "sends pid [] w (snd x)"
proof (rule char_read_loop.raw_induct [where P = "\<lambda>_ w x. sends pid [] w (snd x)", OF _ assms])
  fix loop :: "u8 list \<Rightarrow> world \<Rightarrow> ((string + u8 list) \<times> world) option" and bytes w x
  assume ih: "\<And>bytes w x. loop bytes w = Some x \<Longrightarrow> sends pid [] w (snd x)"
    and run: "(case dev_read_call w of
        (RdErr e, w) \<Rightarrow> Some (Inl e, w)
      | (RdOk chunk, w) \<Rightarrow>
          if chunk = [] then Some (Inr bytes, w)
          else (case poll_fd w of
            (Inl e, w) \<Rightarrow> Some (Inl e, w)
          | (Inr ready, w) \<Rightarrow>
              if \<not> ready then Some (Inr (bytes @ chunk), w) else loop (bytes @ chunk) w)
      | (RdTimeout, w) \<Rightarrow>
          (case poll_fd w of
            (Inl e, w) \<Rightarrow> Some (Inl e, w)
          | (Inr ready, w) \<Rightarrow> if \<not> ready then Some (Inr bytes, w) else loop bytes w)) = Some x"
  obtain d w1 where rd: "dev_read_call w = (d, w1)" by fastforce
  obtain p w2 where po: "poll_fd w1 = (p, w2)" by fastforce
  have s1: "sends pid [] w w1" by (rule sends_calls(4) [OF rd])
  have s2: "sends pid [] w w2" by (rule sends_nil_trans [OF s1 sends_calls(2) [OF po]])
  show "sends pid [] w (snd x)"
    using run rd po s1 s2 ih
    by (cases d; cases p; cases x) (auto split: if_splits intro: sends_nil_trans)
qed

lemma usb_read_loop_sends:
  assumes "usb_read_loop bytes w = Some x"
  shows "sends pid [] w (snd x)"
proof (rule usb_read_loop.raw_induct [where P = "\<lambda>_ w x. sends pid [] w (snd x)", OF _ assms])
  fix loop :: "u8 list \<Rightarrow> world \<Rightarrow> ((string + u8 list) \<times> world) option" and bytes w x
  assume ih: "\<And>bytes w x. loop bytes w = Some x \<Longrightarrow> sends pid [] w (snd x)"
    and run: "(case dev_read_call w of
        (RdErr e, w) \<Rightarrow> Some (Inl ''reading USB printer bulk endpoint'', w)
      | (RdTimeout, w) \<Rightarrow> Some (Inr bytes, w)
      | (RdOk chunk, w) \<Rightarrow>
          if chunk = [] then Some (Inr bytes, w) else loop (bytes @ chunk) w) = Some x"
  obtain d w1 where rd: "dev_read_call w = (d, w1)" by fastforce
  have s1: "sends pid [] w w1" by (rule sends_calls(4) [OF rd])
  show "sends pid [] w (snd x)"
    using run rd s1 ih by (cases d; cases x) (auto split: if_splits intro: sends_nil_trans)
qed

lemma writes_prefix_after:
  "writes_prefix pid data w r w1 \<Longrightarrow> sends pid [] w1 w2 \<Longrightarrow> writes_prefix pid data w r w2"
  unfolding writes_prefix_def using sends_trans [of pid _ w w1 "[]" w2] by (metis append_Nil2)

lemma writes_prefix_before:
  "sends pid [] w w1 \<Longrightarrow> writes_prefix pid data w1 r w2 \<Longrightarrow> writes_prefix pid data w r w2"
  unfolding writes_prefix_def by (blast intro: sends_nil_trans)

lemma writes_prefix_none: "sends pid [] w w' \<Longrightarrow> writes_prefix pid data w (Inl e) w'"
  unfolding writes_prefix_def by (rule exI [of _ "[]"], rule exI [of _ data]) simp

lemma writes_prefix_error: "writes_prefix pid data w r w' \<Longrightarrow> writes_prefix pid data w (Inl e) w'"
  by (auto simp: writes_prefix_def)

lemma writes_prefix_ok: "is_ok r = is_ok r' \<Longrightarrow> writes_prefix pid data w r w' \<Longrightarrow> writes_prefix pid data w r' w'"
  by (auto simp: writes_prefix_def)

lemma counted_prefix:
  "write_counted pid data n w = (r, m, w') \<Longrightarrow> writes_prefix pid data w r w'"
  "write_all_bulk pid data n w = (r, m, w') \<Longrightarrow> writes_prefix pid data w r w'"
  "write_all_nonblocking_counted pid tm data n w = (r, m, w') \<Longrightarrow> writes_prefix pid data w r w'"
  by (auto simp: write_counted_def write_all_bulk_def write_all_nonblocking_counted_def instant_def
      intro: sink_step_prefix counted_loop_step writes_prefix_before [OF sends_advance]
        nonblocking_loop_step)

text \<open>A result of \<open>query\<close> as a result of a write.\<close>

definition void :: "string + 'a \<Rightarrow> string + unit" where
  "void r = (case r of Inl e \<Rightarrow> Inl e | Inr _ \<Rightarrow> Inr ())"

lemma void_simps [simp]: "void (Inl e) = Inl e" "void (Inr x) = Inr ()"
  by (simp_all add: void_def)

lemma tcp_query_prefix:
  assumes "tcp_query pid t command w = (r, t', w')"
  shows "writes_prefix pid command w (void r) w'"
proof -
  obtain r1 t1 w1 where fr: "tcp_fresh_query_stream t (advance w) = (r1, t1, w1)"
    using prod_cases3 by blast
  obtain r2 w2 where cf: "dev_call w1 = (r2, w2)" by fastforce
  obtain r3 n w3 where wr: "write_counted pid command 0 w2 = (r3, n, w3)" using prod_cases3 by blast
  obtain r4 w4 where cf2: "dev_call w3 = (r4, w4)" by fastforce
  obtain r5 w5 where rd: "tcp_read_loop (tcp_max_response_bytes t1) [] w4 = (r5, w5)" by fastforce
  have s1: "sends pid [] w w1" using tcp_fresh_sends [OF fr, of pid] by simp
  have s2: "sends pid [] w w2" by (rule sends_nil_trans [OF s1 sends_calls(1) [OF cf]])
  have p3: "writes_prefix pid command w r3 w3"
    by (rule writes_prefix_before [OF s2 counted_prefix(1) [OF wr]])
  have p4: "writes_prefix pid command w r3 w4"
    by (rule writes_prefix_after [OF p3 sends_calls(1) [OF cf2]])
  have p5: "writes_prefix pid command w r3 w5"
    by (rule writes_prefix_after [OF p4 tcp_read_loop_sends [OF rd]])
  have p6: "writes_prefix pid command w r3 (advance w5)"
    by (rule writes_prefix_after [OF p5]) simp
  consider e where "r1 = Inl e" | e where "r1 = Inr ()" "r2 = Inl e"
    | e where "r1 = Inr ()" "r2 = Inr ()" "r3 = Inl e"
    | e where "r1 = Inr ()" "r2 = Inr ()" "r3 = Inr ()" "r4 = Inl e"
    | e where "r1 = Inr ()" "r2 = Inr ()" "r3 = Inr ()" "r4 = Inr ()" "r5 = Inl e"
    | b where "r1 = Inr ()" "r2 = Inr ()" "r3 = Inr ()" "r4 = Inr ()" "r5 = Inr b"
    by (cases r1; cases r2; cases r3; cases r4; cases r5) auto
  then show ?thesis
    by cases (use assms fr cf wr cf2 rd s1 s2 p3 p4 p5 p6 in
      \<open>auto simp: tcp_query_def instant_def intro: writes_prefix_none writes_prefix_error writes_prefix_ok\<close>)
qed

lemma char_query_prefix:
  assumes "char_query pid tm command fb w = Some (r, w')"
  shows "writes_prefix pid command w (void r) w'"
proof -
  obtain r1 n w1 where wr: "write_all_nonblocking_counted pid fb command 0 (advance w) = (r1, n, w1)"
    using prod_cases3 by blast
  obtain r2 w2 where po: "poll_fd w1 = (r2, w2)" by fastforce
  have p1: "writes_prefix pid command w r1 w1"
    by (rule writes_prefix_before [OF _ counted_prefix(3) [OF wr]]) simp
  have p2: "writes_prefix pid command w r1 w2"
    by (rule writes_prefix_after [OF p1 sends_calls(2) [OF po]])
  have p3: "writes_prefix pid command w r1 (snd x)" if "char_read_loop [] w2 = Some x" for x
    by (rule writes_prefix_after [OF p2 char_read_loop_sends [OF that]])
  have p4: "writes_prefix pid command w r1 (advance (snd x))" if "char_read_loop [] w2 = Some x" for x
    by (rule writes_prefix_after [OF p3 [OF that]]) simp
  consider e where "r1 = Inl e" | e where "r1 = Inr ()" "r2 = Inl e" | "r1 = Inr ()" "r2 = Inr False"
    | x where "r1 = Inr ()" "r2 = Inr True" "char_read_loop [] w2 = Some x"
    | "r1 = Inr ()" "r2 = Inr True" "char_read_loop [] w2 = None"
    by (cases r1; cases r2; cases "char_read_loop [] w2") auto
  then show ?thesis
  proof cases
    case (4 x)
    with assms wr po p3 [OF 4(3)] p4 [OF 4(3)] show ?thesis
      by (cases x; cases "fst x") (auto simp: char_query_def instant_def
          intro: writes_prefix_error writes_prefix_ok)
  qed (use assms wr po p1 p2 in
    \<open>auto simp: char_query_def instant_def intro: writes_prefix_error writes_prefix_ok\<close>)
qed

lemma usb_query_prefix:
  assumes "usb_query pid t command w = Some (r, w')"
  shows "writes_prefix pid command w (void r) w'"
proof (cases "usb_in_endpoint t")
  case None
  with assms show ?thesis by (auto simp: usb_query_def intro: writes_prefix_none [OF sends_refl])
next
  case (Some ep)
  obtain r1 n w1 where wr: "write_all_bulk pid command 0 (advance w) = (r1, n, w1)"
    using prod_cases3 by blast
  obtain d w2 where rd: "dev_read_call w1 = (d, w2)" by fastforce
  have p1: "writes_prefix pid command w r1 w1"
    by (rule writes_prefix_before [OF _ counted_prefix(2) [OF wr]]) simp
  have p2: "writes_prefix pid command w r1 w2"
    by (rule writes_prefix_after [OF p1 sends_calls(4) [OF rd]])
  have p3: "writes_prefix pid command w r1 (snd x)" "writes_prefix pid command w r1 (advance (snd x))"
    if "usb_read_loop c w2 = Some x" for c x
    using writes_prefix_after [OF p2 usb_read_loop_sends [OF that]]
    by (auto intro: writes_prefix_after)
  consider e where "r1 = Inl e" | e where "r1 = Inr ()" "d = RdErr e" | "r1 = Inr ()" "d = RdTimeout"
    | "r1 = Inr ()" "d = RdOk []"
    | c x where "r1 = Inr ()" "d = RdOk c" "c \<noteq> []" "usb_read_loop c w2 = Some x"
    | c where "r1 = Inr ()" "d = RdOk c" "c \<noteq> []" "usb_read_loop c w2 = None"
  proof (cases r1; cases d)
    fix u c
    assume c: "r1 = Inr u" "d = RdOk c"
    with that(4-6) show thesis
      by (cases "c = []"; cases "usb_read_loop c w2") auto
  qed auto
  then show ?thesis
  proof cases
    case (5 c x)
    with assms Some wr rd p3 [OF 5(4)] show ?thesis
      by (cases x; cases "fst x") (auto simp: usb_query_def instant_def
          intro: writes_prefix_error writes_prefix_ok)
  qed (use assms Some wr rd p1 p2 in
    \<open>auto simp: usb_query_def instant_def intro: writes_prefix_error writes_prefix_ok\<close>)
qed

lemma query_prefix:
  assumes "query pid t command fb w = Some (r, t', w')"
  shows "writes_prefix pid command w (void r) w'"
  using assms tcp_query_prefix char_query_prefix usb_query_prefix
  by (cases t) (auto simp: query_def split: prod.splits)

end
