(* ===== verification/Transport_Props.thy ===== *)
theory Transport_Props
  imports Transport
begin

text \<open>
  What the transports of \<open>Transport\<close> promise: deliveries are exact, queries send their
  command and nothing else, responses over TCP are bounded (and those of the other
  transports are not), the USB printer that is opened is the only match, and a device that
  accepts bytes receives the whole file.
\<close>

section \<open>Inputs of the witnesses\<close>

definition sample_tcp :: transport where
  "sample_tcp = Tcp \<lparr>tcp_addresses = [''192.0.2.1:9100''], tcp_stream = False,
     tcp_wrote_since_connect = False, tcp_max_response_bytes = 1048576\<rparr>"

definition sample_payload :: world where
  "sample_payload = world_with [(PayloadFile 7, Data [94, 88, 65, 10])]"

definition sample_usb_device :: usb_device where
  "sample_usb_device = \<lparr>ud_ids = Inr (0x0A5F, 9), ud_class = 0, ud_configs = [],
     ud_active = Inr [[\<lparr>us_class = 7, us_interface = 0, us_alternate = 0,
       us_endpoints = [\<lparr>ue_bulk = True, ue_in = False, ue_address = 1\<rparr>]\<rparr>]],
     ud_open = None, ud_serial = Inl ''no serial'', ud_manufacturer = None, ud_product = None,
     ud_bus = 1, ud_address = 4\<rparr>"

lemma tcp_query_returns: "\<exists>r t w'. query pid (Tcp s) command fb w = Some (r, t, w')"
  by (cases "tcp_query pid s command w") (simp add: query_def)

lemma sample_payload_lookup [simp]: "lookup (PayloadFile 7) sample_payload = Some (Data [94, 88, 65, 10])"
  by (simp add: sample_payload_def)

section \<open>Properties of delivery\<close>

text \<open>C17: a file delivery over any transport and against any behaviour of the device: success
  means that exactly the bytes of the file were appended to what the printer received, and
  a failure reports exactly how many leading bytes of the file were.\<close>

theorem file_delivery_exact:
  assumes "write_file pid t p w = (r, t', w')" and "lookup p w = Some (Data bytes)"
    and "length bytes < 2 ^ 64"
  shows "(case r of
       Inr n \<Rightarrow> w_wire w' pid = w_wire w pid @ bytes \<and> unat n = length bytes
     | Inl f \<Rightarrow> \<exists>bs rest. bytes = bs @ rest \<and> w_wire w' pid = w_wire w pid @ bs \<and>
         unat (df_bytes_written f) = length bs) \<and>
     w_files w' = w_files w \<and> (\<forall>q. q \<noteq> pid \<longrightarrow> w_wire w' q = w_wire w q)"
proof -
  have small: "unat (of_nat (length bs) :: u64) = length bs" if "bytes = bs @ rest" for bs rest
    using that assms(3) by (simp add: unat_of_nat)
  from any_file_delivers [OF assms(1)] show ?thesis
  proof (elim disjE exE conjE)
    fix bytes'
    assume "lookup p w = Some (Data bytes')" and d: "delivers pid bytes' 0 w r w'"
    with assms(2) have "bytes' = bytes" by simp
    with d have "delivers pid bytes 0 w r w'" by simp
    then obtain bs rest where b: "bytes = bs @ rest" "sends pid bs w w'"
      "case r of Inr n \<Rightarrow> rest = [] \<and> n = of_nat (length bs)
       | Inl f \<Rightarrow> df_bytes_written f = of_nat (length bs)"
      unfolding delivers_def add_0_left by (elim exE conjE) (rule that)
    with small [OF b(1)] show ?thesis by (auto simp: sends_def split: sum.splits)
  next
    fix f
    assume "r = Inl f" "df_bytes_written f = 0" "sends pid [] w w'"
    then show ?thesis by (auto simp: sends_def)
  qed
qed

theorem file_delivery_exact_witness:
  "\<exists>r t w'. write_file ''p'' sample_tcp (PayloadFile 7) sample_payload = (r, t, w') \<and>
     w_files w' = w_files sample_payload"
proof -
  obtain r t w' where run: "write_file ''p'' sample_tcp (PayloadFile 7) sample_payload = (r, t, w')"
    using prod_cases3 by blast
  from file_delivery_exact [OF run sample_payload_lookup] run show ?thesis by auto
qed

text \<open>No query puts anything but a prefix of its command on the wire, and an answered
  query put the whole command there; files are untouched.\<close>

theorem query_sends_command:
  assumes "query pid t command fb w = Some (r, t', w')"
  shows "\<exists>bs rest. command = bs @ rest \<and> w_wire w' pid = w_wire w pid @ bs \<and>
     (is_ok r \<longrightarrow> rest = []) \<and> w_files w' = w_files w"
  using query_prefix [OF assms] by (cases r) (auto simp: writes_prefix_def sends_def)

theorem query_sends_command_witness:
  "\<exists>r t w'. query ''p'' sample_tcp [126, 72, 83] 3000 sample_payload = Some (r, t, w') \<and>
     w_files w' = w_files sample_payload"
proof -
  obtain r t w' where run: "query ''p'' sample_tcp [126, 72, 83] 3000 sample_payload = Some (r, t, w')"
    using tcp_query_returns unfolding sample_tcp_def by blast
  from query_sends_command [OF run] run show ?thesis by blast
qed

lemma tcp_read_loop_bound:
  "tcp_read_loop limit bytes w = (Inr out, w') \<Longrightarrow> length bytes \<le> unat limit \<Longrightarrow>
     length out \<le> unat limit \<and> out \<noteq> [] \<and> take (length bytes) out = bytes"
proof (induction limit bytes w rule: tcp_read_loop.induct)
  case (1 limit bytes w)
  obtain x w1 where rd: "dev_read_call w = (x, w1)" by fastforce
  obtain c w2 where dc: "dev_call w1 = (c, w2)" by fastforce
  note unfold = tcp_read_loop.simps [of limit bytes w]
  show ?case
  proof (cases "\<exists>chunk. x = RdOk chunk \<and> chunk \<noteq> []")
    case False
    with 1 rd show ?thesis by (cases x) (auto simp: unfold split: if_splits)
  next
    case True
    then obtain chunk where x: "x = RdOk chunk" "chunk \<noteq> []" by blast
    with "1.prems" rd dc have le: "length bytes + length chunk \<le> unat limit" and "c = Inr ()"
      and rec: "tcp_read_loop limit (bytes @ chunk) w2 = (Inr out, w')"
      by (cases c; auto simp: unfold split: if_splits)+
    with "1.IH" rd dc x have "length out \<le> unat limit \<and> out \<noteq> [] \<and>
        take (length (bytes @ chunk)) out = bytes @ chunk"
      by auto
    then show ?thesis by (metis append_eq_conv_conj append_take_drop_id append.assoc)
  qed
qed

text \<open>C32: over TCP a query returns, and its response is never empty nor longer than the
  configured limit.\<close>

theorem tcp_query_bounded:
  "\<exists>r t' w'. query pid (Tcp t) command fb w = Some (r, t', w') \<and>
     (case r of Inl _ \<Rightarrow> True
      | Inr q \<Rightarrow> qr_bytes q \<noteq> [] \<and> length (qr_bytes q) \<le> unat (tcp_max_response_bytes t))"
proof -
  have keep: "tcp_max_response_bytes t' = tcp_max_response_bytes t"
    if "tcp_connect_loop as le t w = (r, t', w')" for as le t w r t' w'
    using that
    by (induction as arbitrary: le w) (auto split: prod.splits sum.splits)
  have fresh: "tcp_max_response_bytes t' = tcp_max_response_bytes t"
    if "tcp_fresh_query_stream t w = (r, t', w')" for t w r t' w'
  proof -
    have ses: "tcp_max_response_bytes t1 = tcp_max_response_bytes t"
      if "tcp_session t w = (r1, t1, w1)" for r1 t1 w1
      using that by (auto simp: tcp_session_def tcp_connect_def dest: keep split: if_splits)
    show ?thesis
      using that
      by (auto simp: tcp_fresh_query_stream_def tcp_connect_def dest!: ses keep
          split: prod.splits sum.splits if_splits)
  qed
  obtain r s w' where run: "tcp_query pid t command w = (r, s, w')" using prod_cases3 by blast
  have "qr_bytes q \<noteq> [] \<and> length (qr_bytes q) \<le> unat (tcp_max_response_bytes t)" if "r = Inr q" for q
    using run that
    by (auto simp: tcp_query_def instant_def bindE_Inr_iff dest!: tcp_read_loop_bound
        dest: fresh split: prod.splits sum.splits)
  with run show ?thesis by (cases r) (auto simp: query_def)
qed

text \<open>C40: the bound does not hold for the other transports: against a character device that
  keeps sending, the reading loop never ends, whatever \<open>max_response_bytes\<close> says.\<close>

theorem char_query_unbounded:
  assumes "\<forall>n. env_read (w_env w) n = RdOk [b]" and "\<forall>n. env_poll (w_env w) n = PollReady"
  shows "char_read_loop bytes w = None"
proof (rule ccontr)
  assume "char_read_loop bytes w \<noteq> None"
  then obtain x where x: "char_read_loop bytes w = Some x" by blast
  have "(\<forall>n. env_read (w_env w) n = RdOk [b]) \<and> (\<forall>n. env_poll (w_env w) n = PollReady) \<longrightarrow> False"
  proof (rule char_read_loop.raw_induct [where P = "\<lambda>_ w _.
      (\<forall>n. env_read (w_env w) n = RdOk [b]) \<and> (\<forall>n. env_poll (w_env w) n = PollReady) \<longrightarrow> False",
      OF _ x], intro impI, elim conjE)
    fix loop :: "u8 list \<Rightarrow> world \<Rightarrow> ((string + u8 list) \<times> world) option" and bytes w x
    assume ih: "\<And>bytes w x. loop bytes w = Some x \<Longrightarrow>
        (\<forall>n. env_read (w_env w) n = RdOk [b]) \<and> (\<forall>n. env_poll (w_env w) n = PollReady) \<longrightarrow> False"
      and run: "(case dev_read_call w of
        (RdErr e, w) \<Rightarrow> Some (Inl e, w)
      | (RdOk chunk, w) \<Rightarrow>
          if chunk = [] then Some (Inr bytes, w)
          else (case poll_fd w of
            (Inl e, w) \<Rightarrow> Some (Inl e, w)
          | (Inr ready, w) \<Rightarrow>
              if \<not> ready then Some (Inr (bytes @ chunk), w) else loop (bytes @ chunk) w)
      | (RdTimeout, w) \<Rightarrow>
          (case poll_fd w of
            (Inl e, w) \<Rightarrow> Some (Inl e, w)
          | (Inr ready, w) \<Rightarrow> if \<not> ready then Some (Inr bytes, w) else loop bytes w)) = Some x"
      and r: "\<forall>n. env_read (w_env w) n = RdOk [b]" and p: "\<forall>n. env_poll (w_env w) n = PollReady"
    have "loop (bytes @ [b]) (advance (advance w)) = Some x"
      using run r p by (simp add: dev_read_call_def poll_fd_def)
    from ih [OF this] r p show False by simp
  qed
  with assms show False by blast
qed

theorem char_query_unbounded_witness:
  "char_read_loop [] (sample_payload\<lparr>w_env := calm_env\<lparr>env_read := \<lambda>_. RdOk [65]\<rparr>\<rparr>) = None"
  by (rule char_query_unbounded [where b = 65]) (simp_all add: calm_env_def)

section \<open>Progress against a willing device\<close>

text \<open>Every call succeeds and every write accepts something.\<close>

definition willing :: "world \<Rightarrow> bool" where
  "willing w = (quiet w \<and> (\<forall>n. env_open (w_env w) n = None) \<and>
     (\<forall>n. \<exists>k. env_write (w_env w) n = WrOk k \<and> 0 < k))"

lemma willing_sends: "sends pid bs w w' \<Longrightarrow> willing w \<Longrightarrow> willing w'"
  by (simp add: sends_def willing_def quiet_def)

lemma willing_advance [simp]: "willing (advance w) = willing w"
  by (simp add: willing_def)

lemma willing_write:
  assumes "willing w" and "data \<noteq> []"
  shows "\<exists>n w'. dev_write_call pid data w = (WrOk n, w') \<and> 0 < n \<and> n \<le> length data \<and> willing w'"
proof -
  obtain k where k: "env_write (w_env w) (w_tick w) = WrOk k" "0 < k"
    using assms(1) by (auto simp: willing_def)
  then have "dev_write_call pid data w = (WrOk (min k (length data)), with_wire pid (take k data) (advance w))"
    by (simp add: dev_write_call_def)
  moreover have "willing (with_wire pid (take k data) (advance w))"
    using assms(1) by (simp add: willing_def quiet_def)
  ultimately show ?thesis using k(2) assms(2) by auto
qed

lemma counted_loop_willing:
  "willing w \<Longrightarrow> \<exists>sent' w'. counted_loop ctx zero pid data sent w = (Inr (), sent', w') \<and> willing w'"
proof (induction "length data" arbitrary: data sent w rule: less_induct)
  case less
  show ?case
  proof (cases "data = []")
    case True
    with less.prems show ?thesis by simp
  next
    case False
    with willing_write [OF less.prems False, of pid] obtain n w1 where
      n: "dev_write_call pid data w = (WrOk n, w1)" "0 < n" "n \<le> length data" "willing w1" by blast
    with less.hyps [of "drop n data" w1] False show ?thesis
      by (simp add: counted_loop.simps [of ctx zero pid data])
  qed
qed

lemma nonblocking_loop_willing:
  "willing w \<Longrightarrow> \<exists>sent' w'. nonblocking_loop pid deadline data sent w = (Inr (), sent', w') \<and> willing w'"
proof (induction "length data" arbitrary: data sent w rule: less_induct)
  case less
  show ?case
  proof (cases "data = []")
    case True
    with less.prems show ?thesis by simp
  next
    case False
    with willing_write [OF less.prems False, of pid] obtain n w1 where
      n: "dev_write_call pid data w = (WrOk n, w1)" "0 < n" "n \<le> length data" "willing w1" by blast
    with less.hyps [of "drop n data" w1] False show ?thesis
      by (simp add: nonblocking_loop.simps [of pid deadline data])
  qed
qed

locale willing_sink = byte_sink pid wr
  for pid :: string and wr :: "'s \<Rightarrow> u8 list \<Rightarrow> u64 \<Rightarrow> world \<Rightarrow> (string + unit) \<times> u64 \<times> 's \<times> world" +
  fixes usable :: "'s \<Rightarrow> bool"
  assumes progress: "willing w \<Longrightarrow> usable t \<Longrightarrow>
    \<exists>sent' t' w'. wr t data sent w = (Inr (), sent', t', w') \<and> usable t' \<and> willing w'"
begin

lemma file_loop_completes:
  "willing w \<Longrightarrow> usable t \<Longrightarrow> \<exists>n t' w'. file_loop wr t bytes sent w = (Inr n, t', w')"
proof (induction "length bytes" arbitrary: t bytes sent w rule: less_induct)
  case less
  have sq: "sys w = (Inr (), advance w)" using less.prems by (simp add: willing_def sys_quiet)
  show ?case
  proof (cases "bytes = []")
    case True
    then show ?thesis by (simp add: file_loop.simps [of wr t "[]"] sq)
  next
    case False
    obtain sent1 t1 w1 where wr: "wr t (take 16384 bytes) sent (advance w) = (Inr (), sent1, t1, w1)"
        and ok: "usable t1" "willing w1"
      using progress [of "advance w" t "take 16384 bytes" sent] less.prems by auto
    have "length (drop 16384 bytes) < length bytes" using False by simp
    from less.hyps [OF this ok(2,1)] wr False show ?thesis
      by (simp add: file_loop.simps [of wr t bytes] sq)
  qed
qed

lemma write_file_completes:
  assumes "willing w" and "usable t" and "lookup p w = Some (Data bytes)"
  shows "\<exists>n t' w'. write_file_with wr t p w = (Inr n, t', w')"
proof -
  have sq: "sys w = (Inr (), advance w)" using assms(1) by (simp add: willing_def sys_quiet)
  show ?thesis
    using file_loop_completes [of "advance w" t bytes 0] assms
    by (simp add: write_file_with_def open_file_def sq)
qed

end

definition tcp_usable :: "tcp_transport \<Rightarrow> bool" where
  "tcp_usable t = (tcp_addresses t \<noteq> [])"

lemma dev_call_willing: "willing w \<Longrightarrow> dev_call w = (Inr (), advance w)"
  by (simp add: willing_def dev_call_def)

lemma tcp_session_willing:
  assumes "willing w" and "tcp_usable t"
  shows "\<exists>t' w'. tcp_session t w = (Inr (), t', w') \<and> tcp_usable t' \<and> willing w'"
proof (cases "tcp_stream t")
  case True
  with assms show ?thesis by (simp add: tcp_session_def)
next
  case False
  obtain a as where "tcp_addresses t = a # as" using assms(2) by (cases "tcp_addresses t") (auto simp: tcp_usable_def)
  with False assms show ?thesis
    by (simp add: tcp_session_def tcp_connect_def dev_call_willing tcp_usable_def)
qed

interpretation tcp_willing: willing_sink pid "tcp_chunk pid" tcp_usable for pid
proof
  fix w t data sent
  assume "willing w" "tcp_usable t"
  then obtain t1 w1 where ss: "tcp_session t w = (Inr (), t1, w1)" "tcp_usable t1" "willing w1"
    using tcp_session_willing by blast
  obtain sent' w' where "write_counted pid data sent w1 = (Inr (), sent', w')" "willing w'"
    using counted_loop_willing [OF ss(3)] unfolding write_counted_def by blast
  with ss show "\<exists>sent' t' w'. tcp_chunk pid t data sent w = (Inr (), sent', t', w') \<and> tcp_usable t' \<and> willing w'"
    by (simp add: tcp_chunk_def tcp_usable_def)
qed

interpretation char_willing: willing_sink pid "char_chunk pid" "\<lambda>_. True" for pid
proof
  fix w data sent and t :: u64
  assume "willing w"
  then have "willing (advance w)" by simp
  then obtain sent' w' where
    "nonblocking_loop pid (w_clock w + unat t * 1000000) data sent (advance w) = (Inr (), sent', w')"
    "willing w'"
    using nonblocking_loop_willing by blast
  then show "\<exists>sent' t' w'. char_chunk pid t data sent w = (Inr (), sent', t', w') \<and> True \<and> willing w'"
    by (simp add: char_chunk_def write_all_nonblocking_counted_def instant_def)
qed

interpretation usb_willing: willing_sink pid "usb_chunk pid" "\<lambda>_. True" for pid
proof
  fix w t data sent
  assume "willing w"
  then obtain sent' w' where "write_all_bulk pid data sent w = (Inr (), sent', w')" "willing w'"
    using counted_loop_willing [of w] unfolding write_all_bulk_def by blast
  then show "\<exists>sent' t' w'. usb_chunk pid t data sent w = (Inr (), sent', t', w') \<and> True \<and> willing w'"
    by (simp add: usb_chunk_def)
qed

text \<open>When every call succeeds and the device accepts at least a byte per write, a delivery
  succeeds over every transport.\<close>

theorem willing_delivery_completes:
  assumes "willing w" and "lookup p w = Some (Data bytes)"
    and "case t of Tcp s \<Rightarrow> tcp_addresses s \<noteq> [] | _ \<Rightarrow> True"
  shows "\<exists>n t' w'. write_file pid t p w = (Inr n, t', w')"
proof (cases t)
  case (Tcp s)
  with assms(3) tcp_willing.write_file_completes [where t = s and pid = pid, OF assms(1) _ assms(2)] show ?thesis
    by (auto simp: write_file_def tcp_write_file_def tcp_usable_def)
next
  case (CharDevice s)
  with char_willing.write_file_completes [where t = s and pid = pid, OF assms(1) _ assms(2)] show ?thesis
    by (auto simp: write_file_def char_write_file_def)
next
  case (Usb s)
  with usb_willing.write_file_completes [where t = s and pid = pid, OF assms(1) _ assms(2)] show ?thesis
    by (auto simp: write_file_def usb_write_file_def)
qed

theorem willing_delivery_completes_witness:
  "\<exists>n t' w'. write_file ''p'' sample_tcp (PayloadFile 7) sample_payload = (Inr n, t', w')"
  by (rule willing_delivery_completes [OF _ sample_payload_lookup])
     (simp_all add: willing_def sample_payload_def sample_tcp_def calm_env_def)

section \<open>The USB printer\<close>

definition usb_wanted :: "u16 \<Rightarrow> u16 \<Rightarrow> string option \<Rightarrow> usb_device \<Rightarrow> bool" where
  "usb_wanted v p serial d =
     (ud_ids d = Inr (v, p) \<and> (case serial of None \<Rightarrow> True | Some s \<Rightarrow> ud_serial d = Inr s))"

lemma map_sum_Inr: "map_sum id f r = Inr y \<longleftrightarrow> (\<exists>x. r = Inr x \<and> y = f x)"
  by (cases r) auto

lemma usb_matching_filter:
  "usb_matching v p serial ds = Inr ms \<Longrightarrow> ms = filter (usb_wanted v p serial) ds"
  by (induction ds arbitrary: ms)
     (auto simp: usb_wanted_def map_sum_Inr split: sum.splits prod.splits option.splits if_splits)

lemma usb_bulk_Some:
  "usb_bulk b s = Some a \<Longrightarrow> \<exists>e \<in> set (us_endpoints s). ue_bulk e \<and> ue_in e = b \<and> ue_address e = a"
proof -
  assume a: "usb_bulk b s = Some a"
  let ?es = "filter (\<lambda>e. ue_bulk e \<and> ue_in e = b) (us_endpoints s)"
  have "?es \<noteq> []" "ue_address (last ?es) = a"
    using a by (auto simp: usb_bulk_def split: list.splits)
  with last_in_set [of ?es] show ?thesis by auto
qed

text \<open>A USB printer is opened only if it is the one device on the bus with the configured
  vendor, product and serial number, and the bytes of a job go to a bulk OUT endpoint of an
  interface of the printer class.\<close>

theorem usb_open_unique:
  assumes "usb_open c w = (Inr t, w')"
  shows "\<exists>v p ds d interfaces s. pc_usb_vendor_id c = Some v \<and> pc_usb_product_id c = Some p \<and>
     env_usb (w_env w) (w_tick w) = Inr ds \<and> filter (usb_wanted v p (pc_usb_serial c)) ds = [d] \<and>
     usb_active_config d = Inr interfaces \<and> s \<in> set (concat interfaces) \<and> us_class s = 7 \<and>
     (\<exists>e \<in> set (us_endpoints s). ue_bulk e \<and> \<not> ue_in e \<and> ue_address e = usb_out_endpoint t)"
proof -
  obtain v p ds ms d interfaces i a ine oute where
    c: "pc_usb_vendor_id c = Some v" "pc_usb_product_id c = Some p"
      "env_usb (w_env w) (w_tick w) = Inr ds" "usb_matching v p (pc_usb_serial c) ds = Inr ms"
      "usb_one v p (pc_usb_serial c) ms = Inr d" "usb_active_config d = Inr interfaces"
      "usb_select interfaces = Some (i, a, ine, oute)" "usb_out_endpoint t = oute"
    using assms
    by (auto simp: usb_open_def bindE_Inr_iff split: option.splits)
  from c(5) have "ms = [d]" by (auto simp: usb_one_def split: list.splits)
  with usb_matching_filter [OF c(4)] have f: "filter (usb_wanted v p (pc_usb_serial c)) ds = [d]" by simp
  obtain s where s: "find usb_setting_ok (concat interfaces) = Some s" "usb_bulk False s = Some oute"
    using c(7) by (auto simp: usb_select_def usb_setting_ok_def split: option.splits dest!: find_Some_first)
  with find_Some_first [OF s(1)] usb_bulk_Some [OF s(2)] c f show ?thesis
    by (auto simp: usb_setting_ok_def)
qed

theorem usb_open_unique_witness:
  "\<exists>t w' s e. usb_open (sample_printer\<lparr>pc_usb_vendor_id := Some 0x0A5F, pc_usb_product_id := Some 9\<rparr>)
       (sample_payload\<lparr>w_env := calm_env\<lparr>env_usb := \<lambda>_. Inr [sample_usb_device]\<rparr>\<rparr>) = (Inr t, w') \<and>
     us_class (s :: usb_setting) = 7 \<and> e \<in> set (us_endpoints s) \<and> ue_address e = usb_out_endpoint t"
proof -
  let ?c = "sample_printer\<lparr>pc_usb_vendor_id := Some 0x0A5F, pc_usb_product_id := Some 9\<rparr>"
  let ?w = "sample_payload\<lparr>w_env := calm_env\<lparr>env_usb := \<lambda>_. Inr [sample_usb_device]\<rparr>\<rparr>"
  obtain t w' where opened: "usb_open ?c ?w = (Inr t, w')"
    by (simp add: usb_open_def usb_one_def usb_active_config_def usb_select_def usb_setting_ok_def
        usb_bulk_def sample_usb_device_def sample_printer_def default_printer_config_def mapE_def
        ensureE_def dev_call_def calm_env_def)
  from usb_open_unique [OF opened] opened show ?thesis by blast
qed

end
