(* ===== verification/Delivery.thy ===== *)
theory Delivery
  imports Transport_Props
begin

text \<open>
  The delivery of one job by the worker of a printer: \<open>ensure_transport\<close>, \<open>process_job\<close> and
  \<open>emit\<close> of \<open>src/worker.rs\<close>. The main result relates what the printer received to the
  state the job ends in, in any environment.
\<close>

section \<open>Connecting on demand\<close>

definition observe_value :: "'a \<Rightarrow> string option \<Rightarrow> string \<Rightarrow> world \<Rightarrow> 'a observed \<times> world" where
  "observe_value v un src w = (let (t, w) = now w in (observed_value t v un src, w))"

definition observe_unavailable :: "string \<Rightarrow> world \<Rightarrow> 'a observed \<times> world" where
  "observe_unavailable reason w = (let (t, w) = now w in (observed_unavailable t reason, w))"

definition observe_not_supported :: "string \<Rightarrow> world \<Rightarrow> 'a observed \<times> world" where
  "observe_not_supported reason w = (let (t, w) = now w in (observed_not_supported t reason, w))"

definition ensure_transport :: "printer_config \<Rightarrow> transport option \<Rightarrow> printer_snapshot \<Rightarrow> world \<Rightarrow>
    (string + unit) \<times> transport option \<times> printer_snapshot \<times> world" where
  "ensure_transport c t s w =
     (if t = None then
        (case open_transport c w of
           (Inr t, w) \<Rightarrow>
             (let (present, w) = observe_value True None ''os'' w;
                  (opened, w) = observe_value True None ''agent'' w;
                  (at, w) = now w;
                  (connected, w) = observe_value at None ''agent'' w
              in (Inr (), Some t,
                  s\<lparr>sn_transport := (sn_transport s)\<lparr>ts_present := present, ts_open := opened,
                      ts_connected_at := connected\<rparr>\<rparr>, w))
         | (Inl e, w) \<Rightarrow>
             (let (present, w) = observe_unavailable e w;
                  (opened, w) = observe_value False None ''agent'' w
              in (Inl e, None,
                  s\<lparr>sn_transport := (sn_transport s)\<lparr>ts_present := present, ts_open := opened\<rparr>\<rparr>, w)))
      else (Inr (), t, s, w))"

section \<open>Processing a job\<close>

definition emit :: "string \<Rightarrow> string \<Rightarrow> uuid \<Rightarrow> json \<Rightarrow> world \<Rightarrow> world" where
  "emit kind pid jid data w =
     (let (e, w) = next_event kind (Some pid) (Some jid) data w in snd (append_event e w))"

text \<open>One attempt: connect if needed and write the payload.\<close>

definition attempt_once :: "printer_config \<Rightarrow> path \<Rightarrow> transport option \<Rightarrow> printer_snapshot \<Rightarrow> world \<Rightarrow>
    (delivery_failure + u64) \<times> transport option \<times> printer_snapshot \<times> world" where
  "attempt_once c p t s w =
     (case ensure_transport c t s w of
        (Inl e, t, s, w) \<Rightarrow> (Inl \<lparr>df_bytes_written = 0, df_error = e\<rparr>, t, s, w)
      | (Inr _, t, s, w) \<Rightarrow>
          (case write_file (pc_id c) (the t) p w of (r, t, w) \<Rightarrow> (r, Some t, s, w)))"

text \<open>The loop over the attempts 0, 1 and 2: a failure is retried only while the printer has
  received nothing of the payload.\<close>

fun attempt_loop :: "printer_config \<Rightarrow> nat list \<Rightarrow> delivery_failure + u64 \<Rightarrow> job \<Rightarrow> transport option \<Rightarrow>
    printer_snapshot \<Rightarrow> world \<Rightarrow>
    (delivery_failure + u64) \<times> job \<times> transport option \<times> printer_snapshot \<times> world" where
  "attempt_loop c [] result j t s w = (result, j, t, s, w)"
| "attempt_loop c (a # as) result j t s w =
     (let j = j\<lparr>job_delivery_attempts := sat_add (job_delivery_attempts j) 1\<rparr>
      in case job_payload_path j of
           None \<Rightarrow> (Inl \<lparr>df_bytes_written = 0, df_error = ''payload_missing''\<rparr>, j, t, s, w)
         | Some p \<Rightarrow>
             (case attempt_once c p t s w of
                (Inr n, t, s, w) \<Rightarrow> (Inr n, j, t, s, w)
              | (Inl f, t, s, w) \<Rightarrow>
                  if df_bytes_written f > 0 \<or> a = 2 then (Inl f, j, t, s, w)
                  else attempt_loop c as (Inl f) j None s (sleep_ms ([100, 500] ! a) w)))"

definition not_attempted :: "delivery_failure + u64" where
  "not_attempted = Inl \<lparr>df_bytes_written = 0, df_error = ''delivery_not_attempted''\<rparr>"

text \<open>The end of \<open>process_job\<close>: the outcome is stored, media are debited, and with
  metadata-only storage the payload is removed.\<close>

definition finish_job :: "printer_config \<Rightarrow> storage_mode \<Rightarrow> uuid \<Rightarrow> delivery_failure + u64 \<Rightarrow> job \<Rightarrow>
    transport option \<Rightarrow> world \<Rightarrow> job \<times> transport option \<times> world" where
  "finish_job c storage jid result j t w =
     (case result of
        Inr bytes \<Rightarrow>
          (let (at, w) = now w;
               j = j\<lparr>job_bytes_transferred := bytes, job_state := TransportAccepted,
                     job_updated_at := at\<rparr>;
               w = snd (save_job j w);
               w = emit ''job_transport_accepted'' (pc_id c) jid
                     (JObject [(''bytes'', JNat bytes)]) w;
               w = consume_media (pc_id c) j w
           in if storage = MetadataOnly then
                (j\<lparr>job_payload_path := None\<rparr>, t,
                 case job_payload_path j of None \<Rightarrow> w | Some p \<Rightarrow> snd (remove_file p w))
              else (j, t, w))
      | Inl f \<Rightarrow>
          (let (at, w) = now w
           in (j\<lparr>job_bytes_transferred := df_bytes_written f,
                 job_state := (if df_bytes_written f > 0 then OutcomeUnknown else Failed),
                 job_error := Some (df_error f), job_updated_at := at\<rparr>, None, w)))"

definition process_job :: "uuid \<Rightarrow> printer_config \<Rightarrow> storage_mode \<Rightarrow> printer_snapshot \<Rightarrow>
    transport option \<Rightarrow> world \<Rightarrow> printer_snapshot \<times> transport option \<times> world" where
  "process_job jid c storage s t w =
     (case load_job jid w of
        (Inl _, w) \<Rightarrow> (s, t, w)
      | (Inr j, w) \<Rightarrow>
          if job_state j \<noteq> Queued then (s, t, w)
          else
            (let (at, w) = now w;
                 j = j\<lparr>job_state := Writing, job_updated_at := at\<rparr>
             in case save_job j w of
                  (Inl _, w) \<Rightarrow> (s, t, w)
                | (Inr _, w) \<Rightarrow>
                    (let w = emit ''job_writing'' (pc_id c) jid (JObject []) w;
                         (result, j, t, s, w) = attempt_loop c [0, 1, 2] not_attempted j t s w;
                         (j, t, w) = finish_job c storage jid result j t w;
                         w = snd (save_job j w);
                         (at, w) = now w
                     in (s\<lparr>sn_jobs := (sn_jobs s)\<lparr>js_last_job_id := Some jid,
                             js_last_job_state := Some (job_state j)\<rparr>,
                           sn_updated_at := at\<rparr>, t, w))))"

section \<open>What the attempts put on the wire\<close>

lemma tcp_open_sends: "tcp_open c w = (r, w') \<Longrightarrow> sends pid [] w w'"
  using tcp_connect_loop_sends [of _ None _ "advance w" _ _ _ pid]
  by (fastforce simp: tcp_open_def tcp_connect_def split: option.splits sum.splits if_splits prod.splits)

lemma sends_dev: "sends pid [] w (snd (dev_call w))"
  by (cases "dev_call w") (auto dest: sends_calls(1))

text \<open>Device calls without a write: the wire and the files stay.\<close>

definition idle :: "world \<Rightarrow> world \<Rightarrow> bool" where
  "idle w w' = (w_env w' = w_env w \<and> w_files w' = w_files w \<and> w_wire w' = w_wire w)"

interpretation idle: respected idle
  by unfold_locales (simp_all add: idle_def)

lemma idle_sends: "idle w w' \<longleftrightarrow> sends pid [] w w'"
  by (simp add: idle_def sends_def)

lemma idle_simps [simp]: "idle w (advance w)" "idle (advance w) w' = idle w w'" "idle w (snd (dev_call w))"
  "idle w (sleep_ms n w)" "idle w w"
  using idle_sends [of w "snd (dev_call w)" "''''"] sends_dev [of "''''" w] by (simp_all add: idle_def)

lemma usb_open_idle: "idle w (snd (usb_open c w))"
  by (auto simp: usb_open_def intro!: idle.bindE_respects split: option.splits)

lemma open_transport_idle: "idle w (snd (open_transport c w))"
proof -
  have "idle w (snd (tcp_open c w))"
    using tcp_open_sends [of c w _ _ "''''"] by (cases "tcp_open c w") (simp add: idle_sends [of _ _ "''''"])
  moreover have "idle w (snd (char_open c w))" by (auto simp: char_open_def intro!: idle.bindE_respects)
  ultimately show ?thesis
    using usb_open_idle [of w c] by (auto simp: open_transport_def intro!: idle.bindE_respects)
qed

lemma ensure_transport_idle:
  assumes "ensure_transport c t s w = (r, t', s', w')"
  shows "idle w w' \<and> (is_ok r \<longrightarrow> t' \<noteq> None)"
proof (cases "t = None")
  case False
  with assms show ?thesis by (auto simp: ensure_transport_def)
next
  case True
  obtain o1 w1 where op: "open_transport c w = (o1, w1)" by fastforce
  then have "idle w w1" using open_transport_idle [of w c] by simp
  with assms True op show ?thesis
    by (cases o1) (auto simp: ensure_transport_def observe_value_def observe_unavailable_def now_def
        Let_def idle_def)
qed

definition attempt_result :: "printer_config \<Rightarrow> u8 list \<Rightarrow> world \<Rightarrow> delivery_failure + u64 \<Rightarrow> world \<Rightarrow> bool"
  where "attempt_result c bytes w r w' = delivers (pc_id c) bytes 0 w r w'"

lemma attempt_once_delivers:
  assumes "attempt_once c p t s w = (r, t', s', w')" and "lookup p w = Some (Data bytes)"
  shows "delivers (pc_id c) bytes 0 w r w'"
proof -
  obtain r1 t1 s1 w1 where en: "ensure_transport c t s w = (r1, t1, s1, w1)" using prod_cases4 by blast
  have id: "idle w w1" using ensure_transport_idle [OF en] by simp
  then have s1: "sends (pc_id c) [] w w1" by (simp add: idle_sends [of _ _ "pc_id c"])
  have lk: "lookup p w1 = Some (Data bytes)" using id assms(2) by (simp add: idle_def lookup_def)
  show ?thesis
  proof (cases r1)
    case (Inl e)
    with assms(1) en s1 show ?thesis by (auto simp: attempt_once_def intro: delivers_none)
  next
    case (Inr u)
    obtain r2 t2 w2 where wr: "write_file (pc_id c) (the t1) p w1 = (r2, t2, w2)"
      using prod_cases3 by blast
    from any_file_delivers [OF wr] lk have "delivers (pc_id c) bytes 0 w1 r2 w2"
    proof (elim disjE exE conjE)
      fix f
      assume "r2 = Inl f" "df_bytes_written f = 0" "sends (pc_id c) [] w1 w2"
      then show ?thesis using delivers_none [of "pc_id c" w1 w2 f 0] by simp
    qed simp
    then have "delivers (pc_id c) bytes 0 w r2 w2"
      using s1 unfolding delivers_def by (blast intro: sends_nil_trans)
    with assms(1) en Inr wr show ?thesis by (simp add: attempt_once_def)
  qed
qed

lemma delivers_after_nothing:
  assumes "delivers pid bytes 0 w (Inl f) w1" and "df_bytes_written f = 0" and "length bytes < 2 ^ 64"
  shows "sends pid [] w w1"
proof -
  obtain bs rest where b: "bytes = bs @ rest" "sends pid bs w w1" "of_nat (length bs) = (0 :: u64)"
    using assms(1,2) by (auto simp: delivers_def)
  have "unat (of_nat (length bs) :: u64) = length bs"
    using b(1) assms(3) by (simp add: unat_of_nat)
  then have "bs = []" using b(3) by simp
  with b(2) show ?thesis by simp
qed

lemma attempt_loop_delivers:
  assumes "attempt_loop c as result j t s w = (r, j', t', s', w')"
    and "job_payload_path j = Some p" and "lookup p w = Some (Data bytes)"
    and "length bytes < 2 ^ 64" and "\<exists>e. result = Inl \<lparr>df_bytes_written = 0, df_error = e\<rparr>"
  shows "delivers (pc_id c) bytes 0 w r w' \<and>
     (\<exists>n. j' = j\<lparr>job_delivery_attempts := n\<rparr>)"
  using assms
proof (induction as arbitrary: result j t s w)
  case Nil
  then show ?case by (auto intro!: delivers_none exI [of _ "job_delivery_attempts j'"])
next
  case (Cons a as)
  let ?j = "j\<lparr>job_delivery_attempts := sat_add (job_delivery_attempts j) 1\<rparr>"
  obtain r1 t1 s1 w1 where at: "attempt_once c p t s w = (r1, t1, s1, w1)" using prod_cases4 by blast
  note d1 = attempt_once_delivers [OF at Cons.prems(3)]
  show ?case
  proof (cases "\<exists>f. r1 = Inl f \<and> df_bytes_written f = 0 \<and> a \<noteq> 2")
    case False
    with Cons.prems(1,2) at d1 show ?thesis
      by (cases r1) (auto simp: Let_def word_gt_0)
  next
    case True
    then obtain f where f: "r1 = Inl f" "df_bytes_written f = 0" "a \<noteq> 2" by blast
    let ?w = "sleep_ms ([100, 500] ! a) w1"
    have s1: "sends (pc_id c) [] w w1"
      by (rule delivers_after_nothing [OF d1 [unfolded f(1)] f(2) Cons.prems(4)])
    then have s2: "sends (pc_id c) [] w ?w" by (simp add: sends_def)
    have lk: "lookup p ?w = Some (Data bytes)"
      using s2 Cons.prems(3) by (simp add: sends_def lookup_def)
    have "attempt_loop c as (Inl f) ?j None s1 ?w = (r, j', t', s', w')"
      using Cons.prems(1,2) at f by (simp add: Let_def)
    moreover have "\<exists>e. Inl f = (Inl \<lparr>df_bytes_written = 0, df_error = e\<rparr> :: delivery_failure + u64)"
      using f(2) by (intro exI [of _ "df_error f"]) simp
    ultimately have "delivers (pc_id c) bytes 0 ?w r w' \<and> (\<exists>n. j' = ?j\<lparr>job_delivery_attempts := n\<rparr>)"
      using Cons.IH [of "Inl f" ?j None s1 ?w] Cons.prems(2,4) lk by simp
    with s2 show ?thesis unfolding delivers_def by (fastforce intro: sends_nil_trans)
  qed
qed

section \<open>What the bookkeeping leaves alone\<close>

text \<open>File operations in general keep the wire.\<close>

lemma any_files: "only_files P w w' \<Longrightarrow> only_files UNIV w w'"
  by (rule only_files_mono) simp_all

lemma only_files_next_event: "only_files P w (snd (next_event k pd jd d w))"
  by (auto simp: next_event_def next_sequence_def sys_def now_def Let_def only_files_def
      split: option.splits prod.splits sum.splits)

lemma only_files_emit: "only_files {EventLog} w (emit kind pid jid data w)"
proof -
  obtain e w1 where ev: "next_event kind (Some pid) (Some jid) data w = (e, w1)" by fastforce
  then have "only_files {EventLog} w w1"
    using only_files_next_event [of "{EventLog}" w kind "Some pid" "Some jid" data] by simp
  then show ?thesis
    using ev append_ndjson_only_files [of EventLog w1 "DEvent e"]
    by (auto simp: emit_def append_event_def intro: only_files.trans)
qed

lemma only_files_save_job: "only_files (with_tmps (JobFile (job_id j))) w (snd (save_job j w))"
  using jobs.save_only [of j "job_id j" w] by simp

lemma only_files_remove_any: "only_files {p} w (snd (remove_file p w))"
  by (rule only_files_remove) simp

lemma jobs_of_emit [simp]: "jobs_of (emit kind pid jid data w) = jobs_of w"
  by (rule only_files_jobs [OF only_files_emit]) simp

lemma jobs_of_consume [simp]: "jobs_of (consume_media pid j w) = jobs_of w"
  by (rule only_files_jobs [OF only_files_consume]) simp

lemma jobs_of_remove_payload [simp]: "jobs_of (snd (remove_file (PayloadFile u) w)) = jobs_of w"
  by (rule only_files_jobs [OF only_files_remove_any]) simp

lemma jobs_of_idle: "idle w w' \<Longrightarrow> jobs_of w' = jobs_of w"
  by (simp add: idle_def jobs_of_def lookup_def fun_eq_iff)

lemma jobs_of_sends: "sends pid bs w w' \<Longrightarrow> jobs_of w' = jobs_of w"
  by (simp add: sends_def jobs_of_def lookup_def fun_eq_iff)

lemma jobs_of_save_in:
  "jobs_of (snd (save_job j w)) \<in> {jobs_of w, (jobs_of w)(job_id j \<mapsto> j)}"
  by (cases "lookup (JobFile (job_id j)) (snd (save_job j w)) = Some (Doc (DJob j))")
     (auto simp: fun_eq_iff jobs_of_save)

text \<open>The state a result leads to.\<close>

definition result_state :: "delivery_failure + u64 \<Rightarrow> jstate" where
  "result_state r = (case r of
     Inr _ \<Rightarrow> TransportAccepted
   | Inl f \<Rightarrow> if df_bytes_written f > 0 then OutcomeUnknown else Failed)"

lemma finish_job_jobs:
  assumes "finish_job c storage jid r j t w = (j', t', w')" and "payload_ok j"
  shows "job_state j' = result_state r \<and> job_id j' = job_id j \<and> same_identity j j' \<and> payload_ok j' \<and>
     only_files UNIV w w' \<and>
     (jobs_of w' = jobs_of w \<or>
      (\<exists>k. jobs_of w' = (jobs_of w)(job_id j \<mapsto> k) \<and> job_state k = result_state r \<and>
         same_identity j k \<and> payload_ok k))"
proof (cases r)
  case (Inl f)
  with assms show ?thesis
    by (auto simp: finish_job_def now_def Let_def result_state_def same_identity_def payload_ok_def)
next
  case (Inr n)
  define k where "k = j\<lparr>job_bytes_transferred := n, job_state := TransportAccepted,
     job_updated_at := env_utc (w_env w) (w_tick w)\<rparr>"
  define w1 where "w1 = snd (save_job k (advance w))"
  define w2 where "w2 = emit ''job_transport_accepted'' (pc_id c) jid (JObject [(''bytes'', JNat n)]) w1"
  define w3 where "w3 = consume_media (pc_id c) k w2"
  have k: "payload_ok k" "same_identity j k" "job_state k = result_state r" "job_id k = job_id j"
    using assms(2) Inr by (simp_all add: k_def payload_ok_def same_identity_def result_state_def)
  have "finish_job c storage jid r j t w =
      (if storage = MetadataOnly
       then (k\<lparr>job_payload_path := None\<rparr>, t,
         case job_payload_path k of None \<Rightarrow> w3 | Some p \<Rightarrow> snd (remove_file p w3))
       else (k, t, w3))"
    unfolding finish_job_def now_def Let_def Inr sum.case prod.case k_def w1_def w2_def w3_def
    by (rule refl)
  then have w': "w' = (if storage = MetadataOnly
       then (case job_payload_path k of None \<Rightarrow> w3 | Some p \<Rightarrow> snd (remove_file p w3)) else w3)"
    and j': "j' = (if storage = MetadataOnly then k\<lparr>job_payload_path := None\<rparr> else k)"
    using assms(1) by (simp_all split: if_splits)
  have a: "only_files UNIV (advance w) w1" unfolding w1_def by (rule any_files [OF only_files_save_job])
  have b: "only_files UNIV w1 w2" unfolding w2_def by (rule any_files [OF only_files_emit])
  have d: "only_files UNIV w2 w3" unfolding w3_def by (rule any_files [OF only_files_consume])
  have fr: "only_files UNIV w w3"
    by (rule only_files_skip, rule only_files.trans [OF a only_files.trans [OF b d]])
  have "only_files UNIV w3 w'"
    by (auto simp: w' only_files.refl split: option.split intro: any_files [OF only_files_remove_any])
  with fr have 1: "only_files UNIV w w'" by (rule only_files.trans)
  have "jobs_of w' = jobs_of w1"
    using k(1) by (auto simp: w' w3_def w2_def payload_ok_def split: option.split)
  moreover have "jobs_of w1 \<in> {jobs_of w, (jobs_of w)(job_id j \<mapsto> k)}"
    using jobs_of_save_in [of k "advance w"] k(4) by (simp add: w1_def)
  ultimately have 2: "jobs_of w' = jobs_of w \<or> jobs_of w' = (jobs_of w)(job_id j \<mapsto> k)" by auto
  have 3: "job_state j' = result_state r" "job_id j' = job_id j" "same_identity j j'" "payload_ok j'"
    using k by (auto simp: j' payload_ok_def same_identity_def)
  from 1 2 3 k show ?thesis by blast
qed

section \<open>A run of \<open>process_job\<close>\<close>

text \<open>
  The possible runs: nothing happens, the job could not be marked, or the job was marked as
  being written, delivered, and finished.
\<close>

lemma process_job_cases:
  assumes "process_job jid c storage s t w = (s', t', w')"
  obtains (untouched) "only_files {} w w'" "t' = t"
      "\<forall>j. fst (load_job jid w) = Inr j \<longrightarrow> job_state j \<noteq> Queued"
  | (unmarked) j w1 at e where "jobs_of w jid = Some j" "job_state j = Queued" "only_files {} w w1"
      "save_job (j\<lparr>job_state := Writing, job_updated_at := at\<rparr>) w1 = (Inl e, w')" "t' = t"
  | (delivered) j w1 at w2 r j1 t1 s1 w3 j2 t2 w4 where
      "jobs_of w jid = Some j" "job_state j = Queued" "only_files {} w w1"
      "save_job (j\<lparr>job_state := Writing, job_updated_at := at\<rparr>) w1 = (Inr (), w2)"
      "attempt_loop c [0, 1, 2] not_attempted (j\<lparr>job_state := Writing, job_updated_at := at\<rparr>) t s
         (emit ''job_writing'' (pc_id c) jid (JObject []) w2) = (r, j1, t1, s1, w3)"
      "finish_job c storage jid r j1 t1 w3 = (j2, t2, w4)"
      "w' = advance (snd (save_job j2 w4))" "t' = t2"
proof -
  obtain lr w1 where ld: "load_job jid w = (lr, w1)" by fastforce
  have fr: "only_files {} w w1"
    using only_files_loads(1) [where P = "{}" and w = w and jid = jid] ld by simp
  then have fra: "only_files {} w (advance w1)"
    by (rule only_files.trans) simp
  show thesis
  proof (cases "\<exists>j. lr = Inr j \<and> job_state j = Queued")
    case False
    with assms ld have "w' = w1" "t' = t" by (cases lr; auto simp: process_job_def)+
    with untouched fr False ld show thesis by simp
  next
    case True
    then obtain j where j: "lr = Inr j" "job_state j = Queued" by blast
    have jw: "jobs_of w jid = Some j" using load_job_Inr ld j(1) by blast
    let ?at = "env_utc (w_env w1) (w_tick w1)"
    let ?j = "j\<lparr>job_state := Writing, job_updated_at := ?at\<rparr>"
    obtain sr w2 where sv: "save_job ?j (advance w1) = (sr, w2)" by fastforce
    show thesis
    proof (cases sr)
      case (Inl e)
      with assms ld j sv have "w' = w2" "t' = t" by (simp_all add: process_job_def now_def Let_def)
      with unmarked [OF jw j(2) fra] sv Inl show thesis by simp
    next
      case (Inr u)
      obtain r j1 t1 s1 w3 where al: "attempt_loop c [0, 1, 2] not_attempted ?j t s
          (emit ''job_writing'' (pc_id c) jid (JObject []) w2) = (r, j1, t1, s1, w3)"
        using prod_cases5 by blast
      obtain j2 t2 w4 where fin: "finish_job c storage jid r j1 t1 w3 = (j2, t2, w4)"
        using prod_cases3 by blast
      have "w' = advance (snd (save_job j2 w4))" "t' = t2"
        using assms ld j sv Inr al fin by (auto simp: process_job_def now_def Let_def)
      with delivered [OF jw j(2) fra _ al fin] sv Inr show thesis by simp
    qed
  qed
qed

section \<open>The outcome of a job tells what the printer received\<close>

text \<open>\<open>bs\<close> is what the printer received in the run, \<open>bytes\<close> the payload, and the last argument
  the state in which the run leaves the job.\<close>

fun outcome_ok :: "u8 list \<Rightarrow> u8 list \<Rightarrow> jstate \<Rightarrow> bool" where
  "outcome_ok bytes bs TransportAccepted = (bs = bytes)"
| "outcome_ok bytes bs Failed = (bs = [])"
| "outcome_ok bytes bs OutcomeUnknown = (bs \<noteq> [] \<and> take (length bs) bytes = bs)"
| "outcome_ok bytes bs Writing = (take (length bs) bytes = bs)"
| "outcome_ok bytes bs Queued = (bs = [])"
| "outcome_ok bytes bs _ = False"

lemma result_outcome:
  assumes "delivers pid bytes 0 w r w'" and "length bytes < 2 ^ 64"
  shows "\<exists>bs. sends pid bs w w' \<and> take (length bs) bytes = bs \<and> outcome_ok bytes bs (result_state r)"
proof -
  obtain bs rest where b: "bytes = bs @ rest" "sends pid bs w w'"
      "case r of Inr n \<Rightarrow> rest = [] \<and> n = 0 + of_nat (length bs)
       | Inl f \<Rightarrow> df_bytes_written f = 0 + of_nat (length bs)"
    using assms(1) unfolding delivers_def by blast
  have "unat (of_nat (length bs) :: u64) = length bs"
    using b(1) assms(2) by (simp add: unat_of_nat)
  then have "(of_nat (length bs) :: u64) = 0 \<longleftrightarrow> bs = []" by (metis length_0_conv unat_eq_zero unat_0 of_nat_0)
  with b show ?thesis
    by (intro exI [of _ bs]) (auto simp: result_state_def word_gt_0 split: sum.splits)
qed

lemma payload_lookup_files:
  assumes "only_files P w w'" and "PayloadFile u \<notin> P"
  shows "lookup (PayloadFile u) w' = lookup (PayloadFile u) w"
  using assms by (simp add: only_files_def)

text \<open>In any case a run of the attempts appends something to the wire of this printer.\<close>

lemma attempt_once_sends:
  assumes "attempt_once c p t s w = (r, t', s', w')"
  shows "\<exists>bs. sends (pc_id c) bs w w'"
proof -
  obtain r1 t1 s1 w1 where en: "ensure_transport c t s w = (r1, t1, s1, w1)" using prod_cases4 by blast
  have s1: "sends (pc_id c) [] w w1" using ensure_transport_idle [OF en] idle_sends by simp
  show ?thesis
  proof (cases r1)
    case (Inl e)
    with assms en s1 show ?thesis by (auto simp: attempt_once_def)
  next
    case (Inr u)
    obtain r2 t2 w2 where wr: "write_file (pc_id c) (the t1) p w1 = (r2, t2, w2)"
      using prod_cases3 by blast
    with any_file_delivers [OF wr] obtain bs where "sends (pc_id c) bs w1 w2"
      by (auto simp: delivers_def)
    with assms en Inr wr s1 show ?thesis by (auto simp: attempt_once_def intro: sends_nil_trans)
  qed
qed

lemma attempt_loop_sends:
  "attempt_loop c as result j t s w = (r, j', t', s', w') \<Longrightarrow>
     (\<exists>bs. sends (pc_id c) bs w w') \<and> (\<exists>n. j' = j\<lparr>job_delivery_attempts := n\<rparr>)"
proof (induction as arbitrary: result j t s w)
  case Nil
  then show ?case by (auto intro!: exI [of _ "[]"] exI [of _ "job_delivery_attempts j'"])
next
  case (Cons a as)
  let ?j = "j\<lparr>job_delivery_attempts := sat_add (job_delivery_attempts j) 1\<rparr>"
  show ?case
  proof (cases "job_payload_path j")
    case None
    with Cons.prems show ?thesis by (auto simp: Let_def intro!: exI [of _ "[]"])
  next
    case (Some p)
    obtain r1 t1 s1 w1 where at: "attempt_once c p t s w = (r1, t1, s1, w1)" using prod_cases4 by blast
    obtain bs where bs: "sends (pc_id c) bs w w1" using attempt_once_sends [OF at] by blast
    show ?thesis
    proof (cases "\<exists>f. r1 = Inl f \<and> df_bytes_written f = 0 \<and> a \<noteq> 2")
      case False
      with Cons.prems Some at bs show ?thesis by (cases r1) (auto simp: Let_def word_gt_0)
    next
      case True
      then obtain f where f: "r1 = Inl f" "df_bytes_written f = 0" "a \<noteq> 2" by blast
      let ?w = "sleep_ms ([100, 500] ! a) w1"
      have rec: "attempt_loop c as (Inl f) ?j None s1 ?w = (r, j', t', s', w')"
        using Cons.prems Some at f by (simp add: Let_def)
      from Cons.IH [OF rec] obtain bs' n where "sends (pc_id c) bs' ?w w'"
        "j' = ?j\<lparr>job_delivery_attempts := n\<rparr>" by blast
      moreover have "sends (pc_id c) bs w ?w" using bs by (simp add: sends_def)
      ultimately show ?thesis by (auto intro: sends_trans)
    qed
  qed
qed

lemma sends_determined: "sends pid a w w' \<Longrightarrow> sends pid b w w' \<Longrightarrow> a = b"
  by (auto simp: sends_def dest!: fun_cong [of _ _ pid])

text \<open>What a run on a queued job does to the world, whatever its payload.\<close>

definition run_sent :: "uuid \<Rightarrow> printer_config \<Rightarrow> job \<Rightarrow> world \<Rightarrow> u8 list \<Rightarrow> jstate \<Rightarrow> bool" where
  "run_sent jid c j w bs st =
     (st \<in> {Queued, Writing} \<and> bs = [] \<or>
      (\<exists>at t s v r j1 t1 s1 v'. attempt_loop c [0, 1, 2] not_attempted
           (j\<lparr>job_state := Writing, job_updated_at := at\<rparr>) t s v = (r, j1, t1, s1, v') \<and>
         sends (pc_id c) bs v v' \<and> lookup (PayloadFile jid) v = lookup (PayloadFile jid) w \<and>
         st \<in> {Writing, result_state r}))"

lemma result_state_in: "result_state r \<in> {TransportAccepted, Failed, OutcomeUnknown}"
  by (simp add: result_state_def split: sum.splits)

lemma run_sent_states:
  "run_sent jid c j w bs st \<Longrightarrow> st \<in> {Queued, Writing, TransportAccepted, Failed, OutcomeUnknown}"
  unfolding run_sent_def using result_state_in by blast

lemma process_job_run:
  assumes run: "process_job jid c storage s t w = (s', t', w')" and keyed: "jobs_keyed w"
    and job: "jobs_of w jid = Some j" and queued: "job_state j = Queued"
  shows "\<exists>bs j'. w_wire w' = (w_wire w)(pc_id c := w_wire w (pc_id c) @ bs) \<and>
     jobs_of w' = (jobs_of w)(jid \<mapsto> j') \<and> same_identity j j' \<and> payload_ok j' \<and>
     run_sent jid c j w bs (job_state j')"
  using run
proof (cases rule: process_job_cases)
  case untouched
  have "jobs_of w' = jobs_of w" by (rule only_files_jobs [OF untouched(1)]) simp
  moreover have "payload_ok j" using keyed job by (simp add: jobs_keyed_def)
  ultimately show ?thesis
    using untouched(1) job queued
    by (intro exI [of _ "[]"] exI [of _ j]) (auto simp: only_files_def fun_eq_iff run_sent_def)
next
  case (unmarked j0 w1 at e)
  then have j0: "j0 = j" using job by simp
  let ?j = "j\<lparr>job_state := Writing, job_updated_at := at\<rparr>"
  have jid: "job_id j = jid" and ok: "payload_ok j" using keyed job by (simp_all add: jobs_keyed_def)
  have sv: "w' = snd (save_job ?j w1)" using unmarked j0 by simp
  have w1: "jobs_of w1 = jobs_of w" by (rule only_files_jobs [OF unmarked(3)]) simp
  have "jobs_of w' \<in> {jobs_of w, (jobs_of w)(jid \<mapsto> ?j)}"
    using jobs_of_save_in [of ?j w1] sv w1 jid by simp
  then have "jobs_of w' = (jobs_of w)(jid \<mapsto> j) \<or> jobs_of w' = (jobs_of w)(jid \<mapsto> ?j)"
    using job by (auto simp: fun_eq_iff)
  moreover have "w_wire w' = w_wire w"
    using unmarked(3) only_files_save_job [of ?j w1] by (simp add: only_files_def sv)
  moreover have "payload_ok ?j" "same_identity j ?j" "run_sent jid c j w [] (job_state j)"
    "run_sent jid c j w [] (job_state ?j)"
    using ok queued by (simp_all add: payload_ok_def same_identity_def run_sent_def)
  ultimately show ?thesis using ok by (intro exI [of _ "[]"]) auto
next
  case (delivered j0 w1 at w2 r j1 t1 s1 w3 j2 t2 w4)
  then have j0: "j0 = j" using job by simp
  let ?j = "j\<lparr>job_state := Writing, job_updated_at := at\<rparr>"
  let ?we = "emit ''job_writing'' (pc_id c) jid (JObject []) w2"
  have jid: "job_id j = jid" and ok: "payload_ok j" using keyed job by (simp_all add: jobs_keyed_def)
  have fw: "only_files (with_tmps (JobFile jid)) w1 w2"
    using only_files_save_job [of ?j w1] delivered(4) j0 jid by simp
  have fe: "only_files {EventLog} w2 ?we" by (rule only_files_emit)
  have lk: "lookup (PayloadFile jid) ?we = lookup (PayloadFile jid) w"
    using payload_lookup_files [OF delivered(3), of jid] payload_lookup_files [OF fw, of jid]
      payload_lookup_files [OF fe, of jid] by (simp add: with_tmps_def image_iff)
  have wires: "w_wire ?we = w_wire w"
    using delivered(3) fw fe by (simp add: only_files_def)
  have jobs: "jobs_of ?we = (jobs_of w)(jid \<mapsto> ?j)"
    using jobs_of_save_ok [of ?j w1 "()" w2] delivered(4) j0 jid
      only_files_jobs [OF delivered(3)] by simp
  obtain bs n where al: "sends (pc_id c) bs ?we w3" "j1 = ?j\<lparr>job_delivery_attempts := n\<rparr>"
    using attempt_loop_sends [OF delivered(5)] j0 by blast
  have sent: "run_sent jid c j w bs Writing" "run_sent jid c j w bs (result_state r)"
    using delivered(5) al(1) lk j0 unfolding run_sent_def by blast+
  have ok1: "payload_ok j1" "job_id j1 = jid" "same_identity j j1"
    using al(2) ok jid by (auto simp: payload_ok_def same_identity_def)
  note fin = finish_job_jobs [OF delivered(6) ok1(1)]
  have j2: "job_id j2 = jid" "same_identity j j2" "job_state j2 = result_state r" "payload_ok j2"
    using fin ok1 same_identity_trans by auto
  have w3: "jobs_of w3 = (jobs_of w)(jid \<mapsto> ?j)" using jobs jobs_of_sends [OF al(1)] by simp
  obtain k where k: "jobs_of w4 = (jobs_of w)(jid \<mapsto> k)" "run_sent jid c j w bs (job_state k)"
      "same_identity j k" "payload_ok k"
  proof -
    from fin consider "jobs_of w4 = jobs_of w3"
      | k where "jobs_of w4 = (jobs_of w3)(jid \<mapsto> k)" "job_state k = result_state r"
          "same_identity j1 k" "payload_ok k"
      using ok1(2) by auto
    then show thesis
    proof cases
      case 1
      with that [of ?j] w3 sent(1) ok show thesis by (simp add: same_identity_def payload_ok_def)
    next
      case (2 k)
      with that [of k] w3 sent(2) same_identity_trans [OF ok1(3)] show thesis by simp
    qed
  qed
  have "jobs_of w' \<in> {jobs_of w4, (jobs_of w4)(jid \<mapsto> j2)}"
    using jobs_of_save_in [of j2 w4] delivered(7) j2(1) by simp
  then have final: "jobs_of w' = (jobs_of w)(jid \<mapsto> k) \<or> jobs_of w' = (jobs_of w)(jid \<mapsto> j2)"
    using k(1) by auto
  have "w_wire w' = w_wire w3"
    using fin only_files_save_job [of j2 w4] delivered(7) by (simp add: only_files_def)
  then have "w_wire w' = (w_wire w)(pc_id c := w_wire w (pc_id c) @ bs)"
    using al(1) wires by (simp add: sends_def)
  moreover have "run_sent jid c j w bs (job_state j2)" using sent(2) j2(3) by simp
  ultimately show ?thesis using final k j2(2,4) by blast
qed

lemma process_job_idle:
  assumes "process_job jid c storage s t w = (s', t', w')"
    and "\<forall>j. jobs_of w jid = Some j \<longrightarrow> job_state j \<noteq> Queued"
  shows "only_files {} w w'"
  using assms(1) by (cases rule: process_job_cases) (use assms(2) in auto)

lemma evolves_update:
  assumes "jobs_of w' = (jobs_of w)(jid \<mapsto> j')" and "job_id j' = jid" and "payload_ok j'"
    and "job_moves (jobs_of w jid) (Some j')"
  shows "evolves w w'"
  unfolding evolves_def
proof (intro impI conjI allI)
  assume "jobs_keyed w"
  with assms(1-3) show "jobs_keyed w'" by (auto simp: jobs_keyed_def)
  show "job_moves (jobs_of w i) (jobs_of w' i)" for i
    using assms(1,4) by (cases "i = jid") simp_all
qed

lemma process_job_evolves [evo_intros]: "evolves w (snd (snd (process_job jid c storage s t w)))"
proof (rule evolvesI)
  assume keyed: "jobs_keyed w"
  obtain s' t' w' where run: "process_job jid c storage s t w = (s', t', w')" using prod_cases3 by blast
  show "evolves w (snd (snd (process_job jid c storage s t w)))"
  proof (cases "\<exists>j. jobs_of w jid = Some j \<and> job_state j = Queued")
    case False
    then show ?thesis
      using run process_job_idle [OF run] by (auto intro: evolves_only_files)
  next
    case True
    then obtain j where j: "jobs_of w jid = Some j" "job_state j = Queued" by blast
    obtain bs j' where j': "jobs_of w' = (jobs_of w)(jid \<mapsto> j')" "same_identity j j'" "payload_ok j'"
        "run_sent jid c j w bs (job_state j')"
      using process_job_run [OF run keyed j] by blast
    have "job_id j' = jid" using j'(2) j(1) keyed by (simp add: same_identity_def jobs_keyed_def)
    moreover have "can_reach Queued (job_state j')"
      using run_sent_states [OF j'(4)] by auto
    ultimately have "evolves w w'"
      using j j' by (intro evolves_update [OF j'(1)]) (simp_all add: job_moves_def)
    with run show ?thesis by simp
  qed
qed

text \<open>C1: whatever the environment does, the state in which a run of the worker leaves a job
  tells what the printer received of its payload: everything if it is accepted, nothing
  if it failed or is still queued, a non-empty beginning if the outcome is unknown, and
  some beginning if even the outcome could not be stored. Nothing else is sent, and no
  other job is touched.\<close>

theorem process_job_outcome:
  assumes run: "process_job jid c storage s t w = (s', t', w')" and keyed: "jobs_keyed w"
    and job: "jobs_of w jid = Some j" and queued: "job_state j = Queued"
    and path: "job_payload_path j = Some (PayloadFile jid)"
    and data: "lookup (PayloadFile jid) w = Some (Data bytes)" and small: "length bytes < 2 ^ 64"
  shows "\<exists>bs j'. w_wire w' = (w_wire w)(pc_id c := w_wire w (pc_id c) @ bs) \<and>
     jobs_of w' = (jobs_of w)(jid \<mapsto> j') \<and> outcome_ok bytes bs (job_state j') \<and> same_identity j j'"
proof -
  obtain bs j' where r: "w_wire w' = (w_wire w)(pc_id c := w_wire w (pc_id c) @ bs)"
      "jobs_of w' = (jobs_of w)(jid \<mapsto> j')" "same_identity j j'" "run_sent jid c j w bs (job_state j')"
    using process_job_run [OF run keyed job queued] by blast
  have "outcome_ok bytes bs (job_state j')"
    using r(4) unfolding run_sent_def
  proof (elim disjE exE conjE)
    fix at t s v q j1 t1 s1 v'
    assume al: "attempt_loop c [0, 1, 2] not_attempted
        (j\<lparr>job_state := Writing, job_updated_at := at\<rparr>) t s v = (q, j1, t1, s1, v')"
      and sd: "sends (pc_id c) bs v v'"
      and lk: "lookup (PayloadFile jid) v = lookup (PayloadFile jid) w"
      and st: "job_state j' \<in> {Writing, result_state q}"
    have "delivers (pc_id c) bytes 0 v q v'"
      using attempt_loop_delivers [OF al _ _ small] path data lk by (simp add: not_attempted_def)
    then obtain bs' where "sends (pc_id c) bs' v v'" "take (length bs') bytes = bs'"
        "outcome_ok bytes bs' (result_state q)"
      using result_outcome [OF _ small] by blast
    with sends_determined [OF sd] st show ?thesis by auto
  qed auto
  with r show ?thesis by blast
qed

theorem process_job_outcome_witness:
  "\<exists>s t w' bs j'. process_job 7 sample_printer Full (new_snapshot 0 ''p'') None
       (world_with [(JobFile 7, Doc (DJob (sample_job Queued))), (PayloadFile 7, Data [94, 88, 65, 10])]) =
       (s, t, w') \<and> jobs_of w' 7 = Some j' \<and> w_wire w' ''p'' = bs \<and> outcome_ok [94, 88, 65, 10] bs (job_state j')"
proof -
  let ?w = "world_with [(JobFile 7, Doc (DJob (sample_job Queued))), (PayloadFile 7, Data [94, 88, 65, 10])]"
  have jobs: "jobs_of ?w = (\<lambda>i. if i = 7 then Some (sample_job Queued) else None)"
    by (simp add: jobs_of_def fun_eq_iff)
  then have "jobs_keyed ?w" by (simp add: jobs_keyed_def payload_ok_def sample_job_def)
  moreover obtain s t w' where
    run: "process_job 7 sample_printer Full (new_snapshot 0 ''p'') None ?w = (s, t, w')"
    using prod_cases3 by blast
  moreover have "job_state (sample_job Queued) = Queued"
      "job_payload_path (sample_job Queued) = Some (PayloadFile 7)" "pc_id sample_printer = ''p''"
    by (simp_all add: sample_job_def sample_printer_def)
  ultimately show ?thesis
    using process_job_outcome [OF run, of "sample_job Queued" "[94, 88, 65, 10]"] jobs run by auto
qed

end
