(* ===== verification/Device.thy ===== *)
theory Device
  imports Delivery
begin

text \<open>
  \<open>src/device.rs\<close>: the settings of a printer, their validation and ZPL commands, the parser
  of the configuration report, and the save protocol (apply, read back, save, read back).
  The save protocol is shown to send the command that makes settings permanent only after
  the printer confirmed them.
\<close>

section \<open>Outside the repository\<close>

text \<open>
  Floating-point text and rounding (the standard library's \<open>f64\<close>) and the SHA-256 digest
  of a JSON text are parameters. \<open>nm_dpi\<close> is the resolution for a number of dots per
  millimetre as \<open>parse_configuration\<close> computes it, \<open>nm_round_dpi\<close> as \<open>parse_known\<close> of the
  worker does.
\<close>

record numeric =
  nm_parse_f64 :: "string \<Rightarrow> f64 option"
  nm_show_f64 :: "f64 \<Rightarrow> string"
  nm_dpi :: "f64 \<Rightarrow> u32"
  nm_round_dpi :: "f64 \<Rightarrow> u64"
  nm_digest :: "string list \<Rightarrow> string"

section \<open>Settings\<close>

definition no_settings :: device_settings where
  "no_settings = \<lparr>ds_darkness = None, ds_print_speed = None, ds_x_offset = None,
     ds_y_offset = None, ds_print_width = None, ds_label_length = None, ds_print_mode = None,
     ds_print_method = None, ds_tracking = None\<rparr>"

definition opt_ok :: "('a \<Rightarrow> bool) \<Rightarrow> 'a option \<Rightarrow> bool" where
  "opt_ok P x = (case x of None \<Rightarrow> True | Some v \<Rightarrow> P v)"

definition within_u32 :: "u32 \<Rightarrow> u32 \<Rightarrow> bool" where
  "within_u32 m n = (1 \<le> n \<and> n \<le> m)"

definition within_offset :: "i32 \<Rightarrow> i32 \<Rightarrow> bool" where
  "within_offset m n = (- m \<le>s n \<and> n \<le>s m)"

definition validate_settings :: "device_settings \<Rightarrow> device_profile \<Rightarrow> string + unit" where
  "validate_settings s p = checks [
     check (s \<noteq> no_settings) ''No device settings selected'',
     check (opt_ok (\<lambda>n. f64_is_finite n \<and> f64_le f64_zero n \<and> f64_le n f64_thirty) (ds_darkness s))
       ''Darkness must be between 0 and 30'',
     check (opt_ok (within_u32 (dp_max_speed_ips p)) (ds_print_speed s))
       ''Print speed exceeds configured hardware limits'',
     check (opt_ok (within_offset (dp_max_offset_dots p)) (ds_x_offset s))
       ''Offset exceeds configured hardware limits'',
     check (opt_ok (within_offset (dp_max_offset_dots p)) (ds_y_offset s))
       ''Offset exceeds configured hardware limits'',
     check (opt_ok (within_u32 (dp_max_width_dots p)) (ds_print_width s))
       ''Print width exceeds configured hardware limits'',
     check (opt_ok (within_u32 (dp_max_length_dots p)) (ds_label_length s))
       ''Label length exceeds configured hardware limits'',
     check (ds_print_method s \<noteq> Some ThermalTransferMethod \<or> dp_thermal_transfer p)
       ''Thermal transfer is not enabled in this printer's hardware profile'',
     check (ds_print_mode s \<noteq> Some PeelOff \<or> dp_peel_off p)
       ''Peel-off is not enabled in this printer's hardware profile'',
     check (ds_print_mode s \<noteq> Some Cutter \<or> dp_cutter p)
       ''Cutter is not enabled in this printer's hardware profile'']"

definition newline :: string where
  "newline = [byte_char 10]"

definition setting_command :: "string \<Rightarrow> ('a \<Rightarrow> string) \<Rightarrow> 'a option \<Rightarrow> string" where
  "setting_command prefix show v = (case v of None \<Rightarrow> [] | Some x \<Rightarrow> prefix @ show x @ newline)"

definition mode_code :: "print_mode \<Rightarrow> string" where
  "mode_code m = (case m of TearOff \<Rightarrow> ''T'' | PeelOff \<Rightarrow> ''P'' | Cutter \<Rightarrow> ''C'')"

definition method_code :: "print_method \<Rightarrow> string" where
  "method_code m = (case m of DirectThermalMethod \<Rightarrow> ''D'' | ThermalTransferMethod \<Rightarrow> ''T'')"

definition tracking_code :: "tracking \<Rightarrow> string" where
  "tracking_code t = (case t of GapTracking \<Rightarrow> ''Y'' | BlackMarkTracking \<Rightarrow> ''M'' | ContinuousTracking \<Rightarrow> ''N'')"

definition settings_commands :: "numeric \<Rightarrow> device_settings \<Rightarrow> string" where
  "settings_commands nm s =
     ''^XA'' @ newline @
     setting_command ''~SD'' (nm_show_f64 nm) (ds_darkness s) @
     setting_command ''^PR'' show_word (ds_print_speed s) @
     setting_command ''^LS'' show_signed (ds_x_offset s) @
     setting_command ''^LT'' show_signed (ds_y_offset s) @
     setting_command ''^PW'' show_word (ds_print_width s) @
     setting_command ''^LL'' show_word (ds_label_length s) @
     setting_command ''^MM'' mode_code (ds_print_mode s) @
     setting_command ''^MT'' method_code (ds_print_method s) @
     setting_command ''^MN'' tracking_code (ds_tracking s) @
     ''^XZ'' @ newline"

text \<open>A field of the JSON object: a float that is not finite is \<open>null\<close>.\<close>

definition json_float :: "f64 option \<Rightarrow> f64 option" where
  "json_float x = (case x of None \<Rightarrow> None | Some v \<Rightarrow> if f64_is_finite v then Some v else None)"

definition differs :: "('a \<Rightarrow> 'a \<Rightarrow> bool) \<Rightarrow> 'a option \<Rightarrow> 'a option \<Rightarrow> bool" where
  "differs eq wanted actual =
     (case wanted of
        None \<Rightarrow> False
      | Some x \<Rightarrow> (case actual of None \<Rightarrow> True | Some y \<Rightarrow> \<not> eq x y))"

text \<open>The requested fields the printer does not report as requested, in the order of the
  keys of the JSON object.\<close>

definition mismatches :: "device_settings \<Rightarrow> device_settings \<Rightarrow> string list" where
  "mismatches wanted actual = map fst (filter snd [
     (''darkness'', differs f64_eq (json_float (ds_darkness wanted)) (json_float (ds_darkness actual))),
     (''label_length'', differs (=) (ds_label_length wanted) (ds_label_length actual)),
     (''print_method'', differs (=) (ds_print_method wanted) (ds_print_method actual)),
     (''print_mode'', differs (=) (ds_print_mode wanted) (ds_print_mode actual)),
     (''print_speed'', differs (=) (ds_print_speed wanted) (ds_print_speed actual)),
     (''print_width'', differs (=) (ds_print_width wanted) (ds_print_width actual)),
     (''tracking'', differs (=) (ds_tracking wanted) (ds_tracking actual)),
     (''x_offset'', differs (=) (ds_x_offset wanted) (ds_x_offset actual)),
     (''y_offset'', differs (=) (ds_y_offset wanted) (ds_y_offset actual))])"

text \<open>The requested fields the printer does not report at all.\<close>

definition unreadable :: "device_settings \<Rightarrow> device_settings \<Rightarrow> string list" where
  "unreadable wanted actual = map fst (filter snd [
     (''darkness'', differs (\<lambda>_ _. True) (json_float (ds_darkness wanted)) (json_float (ds_darkness actual))),
     (''label_length'', differs (\<lambda>_ _. True) (ds_label_length wanted) (ds_label_length actual)),
     (''print_method'', differs (\<lambda>_ _. True) (ds_print_method wanted) (ds_print_method actual)),
     (''print_mode'', differs (\<lambda>_ _. True) (ds_print_mode wanted) (ds_print_mode actual)),
     (''print_speed'', differs (\<lambda>_ _. True) (ds_print_speed wanted) (ds_print_speed actual)),
     (''print_width'', differs (\<lambda>_ _. True) (ds_print_width wanted) (ds_print_width actual)),
     (''tracking'', differs (\<lambda>_ _. True) (ds_tracking wanted) (ds_tracking actual)),
     (''x_offset'', differs (\<lambda>_ _. True) (ds_x_offset wanted) (ds_x_offset actual)),
     (''y_offset'', differs (\<lambda>_ _. True) (ds_y_offset wanted) (ds_y_offset actual))])"

section \<open>Parsing the configuration report\<close>

text \<open>The value of a label: the last line that ends in it, without the label.\<close>

definition report_field :: "string list \<Rightarrow> string \<Rightarrow> string" where
  "report_field lines label =
     (case List.map_filter
        (\<lambda>l. map_option trim_ws (strip_suffix label (ascii_uppercase (trim_control_ws l)))) lines of
        [] \<Rightarrow> []
      | vs \<Rightarrow> last vs)"

definition first_word :: "string \<Rightarrow> string" where
  "first_word s = (case split_whitespace s of [] \<Rightarrow> [] | x # _ \<Rightarrow> x)"

definition normalized :: "string \<Rightarrow> string" where
  "normalized s = map (\<lambda>c. if c = CHR ''-'' \<or> c = CHR '' '' then CHR ''_'' else c) s"

definition parse_dots :: "string \<Rightarrow> u32 option" where
  "parse_dots s = (if length (split_whitespace s) = 1 then parse_word s else None)"

definition parse_print_mode :: "string \<Rightarrow> print_mode option" where
  "parse_print_mode s =
     (if s = ''TEAR_OFF'' then Some TearOff else if s = ''PEEL_OFF'' then Some PeelOff
      else if s = ''CUTTER'' then Some Cutter else None)"

definition parse_print_method :: "string \<Rightarrow> print_method option" where
  "parse_print_method s =
     (if s = ''DIRECT_THERMAL'' then Some DirectThermalMethod
      else if s = ''THERMAL_TRANS'' \<or> s = ''THERMAL_TRANSFER'' then Some ThermalTransferMethod
      else None)"

definition parse_tracking :: "string \<Rightarrow> string \<Rightarrow> tracking option" where
  "parse_tracking media sensor =
     (if media = ''CONTINUOUS'' then Some ContinuousTracking
      else if media = ''GAP/NOTCH'' \<or> media = ''WEB'' then Some GapTracking
      else if media = ''MARK'' \<or> media = ''BLACK_MARK'' then Some BlackMarkTracking
      else if media = ''NON_CONTINUOUS'' then
        (if sensor = ''WEB'' then Some GapTracking
         else if sensor = ''MARK'' then Some BlackMarkTracking else None)
      else None)"

definition finite_f64 :: "f64 option \<Rightarrow> f64 option" where
  "finite_f64 = json_float"

definition parse_settings :: "numeric \<Rightarrow> string list \<Rightarrow> device_settings" where
  "parse_settings nm lines =
     (let get = report_field lines in
      \<lparr>ds_darkness = finite_f64 (nm_parse_f64 nm (first_word (get ''DARKNESS''))),
       ds_print_speed = parse_word (first_word (get ''PRINT SPEED'')),
       ds_x_offset = parse_signed (first_word (get ''LEFT POSITION'')),
       ds_y_offset = parse_signed (first_word (get ''LABEL TOP'')),
       ds_print_width = parse_dots (get ''PRINT WIDTH''),
       ds_label_length = parse_dots (get ''LABEL LENGTH''),
       ds_print_mode = parse_print_mode (normalized (get ''PRINT MODE'')),
       ds_print_method = parse_print_method (normalized (get ''PRINT METHOD'')),
       ds_tracking = parse_tracking (normalized (get ''MEDIA TYPE'')) (get ''SENSOR TYPE'')\<rparr>)"

text \<open>\<open>find_map\<close> over the words of the resolution.\<close>

definition parse_resolution :: "numeric \<Rightarrow> string \<Rightarrow> u32 option" where
  "parse_resolution nm s =
     (case List.map_filter (\<lambda>word.
          case strip_suffix ''/MM'' word of
            None \<Rightarrow> None
          | Some n \<Rightarrow>
              (case nm_parse_f64 nm n of
                 None \<Rightarrow> None
               | Some v \<Rightarrow> if f64_is_finite v \<and> f64_lt f64_zero v then Some (nm_dpi nm v) else None))
        (split_whitespace s) of
        [] \<Rightarrow> None
      | d # _ \<Rightarrow> Some d)"

definition volatile_suffixes :: "string list" where
  "volatile_suffixes = [''RTC DATE'', ''RTC TIME'', ''UPTIME'']"

definition stable_lines :: "string list \<Rightarrow> string list" where
  "stable_lines lines =
     filter (\<lambda>l. \<not> list_ex (\<lambda>suffix. ends_with suffix (ascii_uppercase l)) volatile_suffixes)
       (map trim_ws lines)"

definition config_revision :: "numeric \<Rightarrow> string \<Rightarrow> string" where
  "config_revision nm raw = nm_digest nm (stable_lines (text_lines raw))"

definition parse_configuration :: "numeric \<Rightarrow> string \<Rightarrow> device_profile \<Rightarrow> world \<Rightarrow>
    (string + observation) \<times> world" where
  "parse_configuration nm raw p w =
     (let s = parse_settings nm (text_lines raw) in
      if s = no_settings then (Inl ''Printer returned no recognized configuration values'', w)
      else (let (t, w) = now w in
        (Inr \<lparr>on_settings = s,
              on_resolution_dpi =
                (case parse_resolution nm (report_field (text_lines raw) ''RESOLUTION'') of
                   None \<Rightarrow> dp_resolution_dpi p | Some d \<Rightarrow> Some d),
              on_revision = config_revision nm raw, on_observed_at = t, on_raw = raw\<rparr>, w)))"

section \<open>Reading and saving\<close>

text \<open>The question mark operator where a query may not return.\<close>

definition bindQ :: "(('e + 'a) \<times> 't \<times> 'w) option \<Rightarrow> ('a \<Rightarrow> 't \<Rightarrow> 'w \<Rightarrow> (('e + 'b) \<times> 't \<times> 'w) option) \<Rightarrow>
    (('e + 'b) \<times> 't \<times> 'w) option" where
  "bindQ m k =
     (case m of
        None \<Rightarrow> None
      | Some (Inl e, t, w) \<Rightarrow> Some (Inl e, t, w)
      | Some (Inr x, t, w) \<Rightarrow> k x t w)"

text \<open>An operation on files, seen as one that also carries a transport.\<close>

definition filesQ :: "('e + 'a) \<times> 'w \<Rightarrow> 't \<Rightarrow> (('e + 'a) \<times> 't \<times> 'w) option" where
  "filesQ m t = (case m of (r, w) \<Rightarrow> Some (r, t, w))"

definition read_command :: "u8 list" where
  "read_command = bytes_of ''^XA^HH^XZ''"

definition save_command :: "u8 list" where
  "save_command = bytes_of (''^XA^JUS^XZ'' @ newline)"

definition read_configuration :: "numeric \<Rightarrow> printer_config \<Rightarrow> transport \<Rightarrow> world \<Rightarrow>
    ((string + observation) \<times> transport \<times> world) option" where
  "read_configuration nm c t w =
     bindQ (query (pc_id c) t read_command (pc_first_byte_timeout_ms c) w) (\<lambda>q t w.
       if qr_classification q = ''printer_error''
       then Some (Inl ''Printer rejected configuration query'', t, w)
       else filesQ (parse_configuration nm (lossy_text (qr_bytes q)) (pc_device_profile c) w) t)"

text \<open>The checks of a request against what was just read.\<close>

definition save_checks :: "save_request \<Rightarrow> observation \<Rightarrow> string + unit" where
  "save_checks r before = checks [
     check (on_revision before = sr_revision r)
       ''conflict: Device configuration changed; read it again before saving'',
     (case unreadable (sr_settings r) (on_settings before) of
        [] \<Rightarrow> Inr ()
      | key # _ \<Rightarrow> Inl (''Cannot safely verify unsupported or unreadable field: '' @ key)),
     check (case ds_label_length (sr_settings r) of
         None \<Rightarrow> True
       | Some l \<Rightarrow>
           (case ds_tracking (sr_settings r) of None \<Rightarrow> ds_tracking (on_settings before) | t \<Rightarrow> t)
             = Some ContinuousTracking \<or>
           ds_label_length (on_settings before) = Some l)
       ''For gap/mark labels the printer determines length by calibration; only continuous-media length may be changed here'']"

definition not_confirmed :: "string list \<Rightarrow> string" where
  "not_confirmed ks =
     ''Device did not confirm fields: '' @ concat (map (\<lambda>(i, f). if i = 0 then f else '', '' @ f)
       (enumerate 0 ks)) @
     ''. Runtime values may have changed; nothing was saved to nonvolatile memory.''"

text \<open>The closure of \<open>save_configuration\<close>: the report is written to as the protocol proceeds.\<close>

definition carry :: "('a \<times> 't \<times> 'w) option \<Rightarrow> 'r \<Rightarrow> ('a \<times> ('t \<times> 'r) \<times> 'w) option" where
  "carry m rep = map_option (\<lambda>(x, t, w). (x, (t, rep), w)) m"

text \<open>Its first half applies the settings and reads them back.\<close>

definition apply_phase :: "numeric \<Rightarrow> printer_config \<Rightarrow> save_request \<Rightarrow> transport \<Rightarrow> save_report \<Rightarrow>
    world \<Rightarrow> ((string + unit) \<times> (transport \<times> save_report) \<times> world) option" where
  "apply_phase nm c r t rep w =
     (let pid = pc_id c in
      bindQ (carry (Some (write_bytes pid t (bytes_of (settings_commands nm (sr_settings r))) w)) rep)
        (\<lambda>_ (t, rep) w.
      bindQ (carry (read_configuration nm c t w) rep) (\<lambda>active (t, rep) w.
      bindQ (filesQ (atomic_json (ConfigurationFile pid) (DObservation active) w) (t, rep))
        (\<lambda>_ (t, rep) w.
      if mismatches (sr_settings r) (on_settings active) \<noteq> [] then
        Some (Inl (not_confirmed (mismatches (sr_settings r) (on_settings active))),
              (t, rep\<lparr>rp_state := ''not_saved''\<rparr>), w)
      else
        Some (Inr (), (t, rep\<lparr>rp_active_values_verified := True,
                              rp_state := ''save_outcome_unknown''\<rparr>), w)))))"

text \<open>Its second half makes them permanent.\<close>

definition persist_phase :: "numeric \<Rightarrow> printer_config \<Rightarrow> save_request \<Rightarrow> transport \<Rightarrow> save_report \<Rightarrow>
    world \<Rightarrow> ((string + unit) \<times> (transport \<times> save_report) \<times> world) option" where
  "persist_phase nm c r t rep w =
     (let pid = pc_id c in
      bindQ (filesQ (atomic_json (AttemptFile pid) (DReport rep) w) (t, rep)) (\<lambda>_ (t, rep) w.
      bindQ (carry (Some (write_bytes pid t save_command w)) rep) (\<lambda>_ (t, rep) w.
        let rep = rep\<lparr>rp_save_command_sent := True\<rparr> in
      bindQ (carry (read_configuration nm c t w) rep) (\<lambda>after (t, rep) w.
      bindQ (filesQ (atomic_json (ConfigurationFile pid) (DObservation after) w) (t, rep))
        (\<lambda>_ (t, rep) w.
      if mismatches (sr_settings r) (on_settings after) \<noteq> [] then
        Some (Inl ''Readback after save differs from requested settings'', (t, rep), w)
      else
        Some (Inr (), (t, rep\<lparr>rp_state := ''save_sent_active_verified'',
                             rp_observation := Some after\<rparr>), w))))))"

definition save_protocol :: "numeric \<Rightarrow> printer_config \<Rightarrow> save_request \<Rightarrow> transport \<Rightarrow> save_report \<Rightarrow>
    world \<Rightarrow> ((string + unit) \<times> (transport \<times> save_report) \<times> world) option" where
  "save_protocol nm c r t rep w =
     bindQ (apply_phase nm c r t rep w) (\<lambda>_ (t, rep) w. persist_phase nm c r t rep w)"

definition failed_report :: "string + unit \<Rightarrow> save_report \<Rightarrow> save_report" where
  "failed_report result rep =
     (case result of
        Inr _ \<Rightarrow> rep
      | Inl e \<Rightarrow>
          (if rp_state rep = ''in_progress'' then rep\<lparr>rp_state := ''apply_outcome_unknown''\<rparr> else rep)
            \<lparr>rp_error := Some e\<rparr>)"

definition new_report :: "save_request \<Rightarrow> time \<Rightarrow> save_report" where
  "new_report r started = \<lparr>rp_requested = sr_settings r, rp_state = ''in_progress'',
     rp_save_command_sent = False, rp_active_values_verified = False,
     rp_power_cycle_verified = False, rp_observation = None, rp_error = None,
     rp_started_at = started, rp_finished_at = None\<rparr>"

definition finish_report :: "string \<Rightarrow> string + unit \<Rightarrow> transport \<times> save_report \<Rightarrow> world \<Rightarrow>
    ((string + save_report) \<times> transport \<times> world) option" where
  "finish_report pid result tr w =
     (let (finished, w) = now w;
          rep = (failed_report result (snd tr))\<lparr>rp_finished_at := Some finished\<rparr>
      in filesQ (bindE (atomic_json (AttemptFile pid) (DReport rep) w) (\<lambda>_ w. (Inr rep, w))) (fst tr))"

definition attempt_save :: "numeric \<Rightarrow> printer_config \<Rightarrow> save_request \<Rightarrow> transport \<Rightarrow> world \<Rightarrow>
    ((string + save_report) \<times> transport \<times> world) option" where
  "attempt_save nm c r t w =
     (let (started, w) = now w; rep = new_report r started in
      bindQ (filesQ (atomic_json (AttemptFile (pc_id c)) (DReport rep) w) t) (\<lambda>_ t w.
        case save_protocol nm c r t rep w of
          None \<Rightarrow> None
        | Some (result, tr, w) \<Rightarrow> finish_report (pc_id c) result tr w))"

definition save_configuration :: "numeric \<Rightarrow> printer_config \<Rightarrow> save_request \<Rightarrow> transport \<Rightarrow> world \<Rightarrow>
    ((string + save_report) \<times> transport \<times> world) option" where
  "save_configuration nm c r t w =
     bindQ (filesQ (ensureE (sr_confirm_save_all r)
         ''Confirm that all current persistent device settings will be saved'' w) t) (\<lambda>_ t w.
     bindQ (filesQ (validate_settings (sr_settings r) (pc_device_profile c), w) t) (\<lambda>_ t w.
     bindQ (read_configuration nm c t w) (\<lambda>before t w.
     bindQ (filesQ (save_checks r before, w) t) (\<lambda>_ t w.
     attempt_save nm c r t w))))"

section \<open>What is sent and stored\<close>

definition sent_all :: "string \<Rightarrow> u8 list \<Rightarrow> world \<Rightarrow> world \<Rightarrow> bool" where
  "sent_all pid data w w' = (w_wire w' = (w_wire w)(pid := w_wire w pid @ data))"

definition sent_upto :: "string \<Rightarrow> u8 list \<Rightarrow> world \<Rightarrow> world \<Rightarrow> bool" where
  "sent_upto pid data w w' = (\<exists>bs rest. data = bs @ rest \<and> sent_all pid bs w w')"

lemma sent_all_upto: "sent_all pid data w w' \<Longrightarrow> sent_upto pid data w w'"
  by (auto simp: sent_upto_def)

lemma sent_upto_more: "sent_upto pid a w w' \<Longrightarrow> sent_upto pid (a @ b) w w'"
  unfolding sent_upto_def by (metis append_assoc)

lemma sent_all_trans:
  "sent_all pid a w w1 \<Longrightarrow> sent_all pid b w1 w2 \<Longrightarrow> sent_all pid (a @ b) w w2"
  by (simp add: sent_all_def)

lemma sent_all_then:
  assumes "sent_all pid a w w1" and "sent_upto pid b w1 w2"
  shows "sent_upto pid (a @ b) w w2"
proof -
  obtain bs rest where "b = bs @ rest" "sent_all pid bs w1 w2" using assms(2) by (auto simp: sent_upto_def)
  then have "a @ b = (a @ bs) @ rest" "sent_all pid (a @ bs) w w2"
    using sent_all_trans [OF assms(1)] by simp_all
  then show ?thesis unfolding sent_upto_def by blast
qed

lemma sent_all_only:
  "only_files P w1 w2 \<Longrightarrow> sent_all pid a w w1 \<Longrightarrow> sent_all pid a w w2"
  "only_files P w1 w2 \<Longrightarrow> sent_upto pid a w w1 \<Longrightarrow> sent_upto pid a w w2"
  by (auto simp: sent_upto_def sent_all_def only_files_def)

lemma sent_none: "only_files P w w' \<Longrightarrow> sent_all pid [] w w'"
  by (simp add: sent_all_def only_files_def)

lemma writes_prefix_sent:
  "writes_prefix pid data w r w' \<Longrightarrow> sent_upto pid data w w'"
  "writes_prefix pid data w (Inr x) w' \<Longrightarrow> sent_all pid data w w'"
  by (auto simp: writes_prefix_def sent_upto_def sent_all_def sends_def)

lemma bindQ_Some:
  "bindQ m k = Some (r, t, w) \<longleftrightarrow>
     (\<exists>e. m = Some (Inl e, t, w) \<and> r = Inl e) \<or>
     (\<exists>x t1 w1. m = Some (Inr x, t1, w1) \<and> k x t1 w1 = Some (r, t, w))"
  by (auto simp: bindQ_def split: option.splits prod.splits sum.splits)

lemma ensureE_Inl: "ensureE c e w = (Inl x, w') \<longleftrightarrow> \<not> c \<and> x = e \<and> w' = w"
  by (auto simp: ensureE_def)

lemma carry_Some [simp]: "carry m rep = Some (x, s, w) \<longleftrightarrow> (\<exists>t. m = Some (x, t, w) \<and> s = (t, rep))"
  by (auto simp: carry_def)

lemma filesQ_Some [simp]: "filesQ m t = Some (x, s, w) \<longleftrightarrow> m = (x, w) \<and> s = t"
  by (cases m) (auto simp: filesQ_def)

lemma parse_configuration_only:
  "parse_configuration nm raw p w = (r, w') \<Longrightarrow> only_files {} w w'"
  by (auto simp: parse_configuration_def Let_def now_def only_files.refl split: if_splits)

lemma read_configuration_sent:
  assumes "read_configuration nm c t w = Some (r, t', w')"
  shows "sent_upto (pc_id c) read_command w w' \<and> (is_ok r \<longrightarrow> sent_all (pc_id c) read_command w w') \<and>
    w_files w' = w_files w"
proof -
  obtain q t1 w1 where q: "query (pc_id c) t read_command (pc_first_byte_timeout_ms c) w = Some (q, t1, w1)"
    using assms by (auto simp: read_configuration_def bindQ_Some)
  note p = query_prefix [OF q]
  have f1: "w_files w1 = w_files w" using p by (auto simp: writes_prefix_def sends_def)
  show ?thesis
  proof (cases q)
    case (Inl e)
    with assms q p f1 show ?thesis
      by (auto simp: read_configuration_def bindQ_def dest: writes_prefix_sent)
  next
    case (Inr resp)
    then have all: "sent_all (pc_id c) read_command w w1" using p by (auto dest: writes_prefix_sent(2))
    have "sent_all (pc_id c) read_command w w' \<and> w_files w' = w_files w"
      using assms q Inr all f1
      by (auto simp: read_configuration_def bindQ_def parse_configuration_def Let_def now_def
          sent_all_def filesQ_def split: if_splits)
    then show ?thesis by (auto intro: sent_all_upto)
  qed
qed

lemma write_bytes_sent:
  assumes "write_bytes pid t data w = (r, t', w')"
  shows "sent_upto pid data w w' \<and> (is_ok r \<longrightarrow> sent_all pid data w w')"
  using writes_prefix_sent [of pid data w _ w'] write_bytes_prefix [OF assms] by (cases r) auto

lemma atomic_sent: "atomic_json p d w = (r, w') \<Longrightarrow> only_files (with_tmps p) w w'"
  using atomic_json_only_files [of p w d] by simp

text \<open>The first half: without success nothing but the settings and a read command are sent.\<close>

lemma apply_phase_sent:
  assumes "apply_phase nm c r t rep w = Some (x, (t', rep'), w')" and "\<not> rp_active_values_verified rep"
  shows "sent_upto (pc_id c) (bytes_of (settings_commands nm (sr_settings r)) @ read_command) w w' \<and>
    rp_save_command_sent rep' = rp_save_command_sent rep \<and>
    (rp_active_values_verified rep' \<longleftrightarrow> is_ok x) \<and>
    (is_ok x \<longrightarrow> (\<exists>active. lookup (ConfigurationFile (pc_id c)) w' = Some (Doc (DObservation active)) \<and>
       mismatches (sr_settings r) (on_settings active) = []))"
proof -
  let ?pid = "pc_id c"
  let ?cmd = "bytes_of (settings_commands nm (sr_settings r))"
  obtain r1 t1 w1 where wr: "write_bytes ?pid t ?cmd w = (r1, t1, w1)" using prod_cases3 by blast
  note s1 = write_bytes_sent [OF wr]
  show ?thesis
  proof (cases r1)
    case (Inl e)
    with assms wr s1 show ?thesis
      by (auto simp: apply_phase_def Let_def bindQ_Some intro: sent_upto_more)
  next
    case (Inr u)
    then obtain r2 t2 w2 where rd: "read_configuration nm c t1 w1 = Some (r2, t2, w2)"
      using assms(1) wr by (auto simp: apply_phase_def Let_def bindQ_Some)
    note s2 = read_configuration_sent [OF rd]
    have up: "sent_upto ?pid (?cmd @ read_command) w w2"
      using s1 s2 Inr by (auto intro: sent_all_then)
    show ?thesis
    proof (cases r2)
      case (Inl e)
      with assms wr Inr rd up show ?thesis
        by (auto simp: apply_phase_def Let_def bindQ_Some)
    next
      case active: (Inr active)
      obtain r3 w3 where st: "atomic_json (ConfigurationFile ?pid) (DObservation active) w2 = (r3, w3)"
        by fastforce
      have up3: "sent_upto ?pid (?cmd @ read_command) w w3"
        by (rule sent_all_only(2) [OF atomic_sent [OF st] up])
      show ?thesis
        using assms wr Inr rd active st up3 atomic_json_Inr [of "ConfigurationFile ?pid" "DObservation active" w2]
        by (cases r3) (auto simp: apply_phase_def Let_def bindQ_Some split: if_splits)
    qed
  qed
qed

text \<open>The second half reports success only if the printer confirmed the settings again.\<close>

lemma persist_phase_report:
  assumes "persist_phase nm c r t rep w = Some (x, (t', rep'), w')"
    and "rp_active_values_verified rep" and "rp_state rep = ''save_outcome_unknown''"
  shows "rp_active_values_verified rep' \<and>
    (if is_ok x
     then rp_state rep' = ''save_sent_active_verified'' \<and> rp_save_command_sent rep' \<and>
       (\<exists>after. rp_observation rep' = Some after \<and> mismatches (sr_settings r) (on_settings after) = [])
     else rp_state rep' = ''save_outcome_unknown'')"
  using assms
  by (auto simp: persist_phase_def Let_def bindQ_Some split: if_splits)

lemma persist_phase_power: "persist_phase nm c r t rep w = Some (x, (t', rep'), w') \<Longrightarrow>
    rp_power_cycle_verified rep' = rp_power_cycle_verified rep"
  by (auto simp: persist_phase_def Let_def bindQ_Some split: if_splits)

lemma apply_phase_report:
  "apply_phase nm c r t rep w = Some (x, (t', rep'), w') \<Longrightarrow>
     rp_power_cycle_verified rep' = rp_power_cycle_verified rep \<and>
     rp_observation rep' = rp_observation rep \<and>
     (if is_ok x then rp_active_values_verified rep' \<and> rp_state rep' = ''save_outcome_unknown''
      else rp_active_values_verified rep' = rp_active_values_verified rep \<and>
        rp_state rep' \<in> {rp_state rep, ''not_saved''})"
  by (auto simp: apply_phase_def Let_def bindQ_Some split: if_splits)

text \<open>The printer has been read and the attempt is on record: the point from which the settings
  are sent.\<close>

definition prepared_save :: "numeric \<Rightarrow> printer_config \<Rightarrow> save_request \<Rightarrow> transport \<Rightarrow> world \<Rightarrow>
    transport \<Rightarrow> world \<Rightarrow> bool" where
  "prepared_save nm c r t w t1 w2 =
     (\<exists>before w1 started. read_configuration nm c t w = Some (Inr before, t1, w1) \<and>
        atomic_json (AttemptFile (pc_id c)) (DReport (new_report r started)) (advance w1) = (Inr (), w2))"

text \<open>The requested settings were sent and the printer's next report is \<open>active\<close>.\<close>

definition read_back :: "numeric \<Rightarrow> printer_config \<Rightarrow> save_request \<Rightarrow> transport \<Rightarrow> world \<Rightarrow>
    observation \<Rightarrow> world \<Rightarrow> bool" where
  "read_back nm c r t w active w4 =
     (\<exists>t1 w2 t3 w3 t4. prepared_save nm c r t w t1 w2 \<and>
        write_bytes (pc_id c) t1 (bytes_of (settings_commands nm (sr_settings r))) w2 = (Inr (), t3, w3) \<and>
        read_configuration nm c t3 w3 = Some (Inr active, t4, w4))"

lemma apply_phase_ok:
  assumes "apply_phase nm c r t rep w = Some (x, (t', rep'), w')" and "is_ok x"
  obtains t3 w3 active t4 w4 where
    "write_bytes (pc_id c) t (bytes_of (settings_commands nm (sr_settings r))) w = (Inr (), t3, w3)"
    "read_configuration nm c t3 w3 = Some (Inr active, t4, w4)"
    "mismatches (sr_settings r) (on_settings active) = []"
    "only_files (with_tmps (ConfigurationFile (pc_id c))) w4 w'"
  using assms by (fastforce simp: apply_phase_def Let_def bindQ_Some dest: atomic_sent split: if_splits)

lemma persist_phase_sent:
  assumes "persist_phase nm c r t rep w = Some (x, (t', rep'), w')"
  shows "sent_upto (pc_id c) (save_command @ read_command) w w'"
proof -
  obtain r1 w1 where st: "atomic_json (AttemptFile (pc_id c)) (DReport rep) w = (r1, w1)" by fastforce
  have none: "sent_all (pc_id c) [] w w1" by (rule sent_none [OF atomic_sent [OF st]])
  obtain r2 t2 w2 where wr: "write_bytes (pc_id c) t save_command w1 = (r2, t2, w2)" using prod_cases3 by blast
  have up: "sent_upto (pc_id c) save_command w w2"
    using sent_all_then [OF none, of save_command w2] write_bytes_sent [OF wr] by simp
  show ?thesis
  proof (cases "is_ok r1 \<and> is_ok r2")
    case False
    then consider e where "r1 = Inl e" | e u where "r1 = Inr u" "r2 = Inl e"
      by (cases r1; cases r2) auto
    then show ?thesis
    proof cases
      case 1
      then have "w' = w1" using assms st by (auto simp: persist_phase_def Let_def bindQ_Some)
      then show ?thesis using sent_upto_more [OF sent_all_upto [OF none]] by simp
    next
      case 2
      then have "w' = w2" using assms st wr by (auto simp: persist_phase_def Let_def bindQ_Some)
      then show ?thesis using sent_upto_more [OF up] by simp
    qed
  next
    case True
    then have all: "sent_all (pc_id c) save_command w w2"
      using sent_all_trans [OF none, of save_command w2] write_bytes_sent [OF wr] by simp
    obtain r3 t3 w3 where rd: "read_configuration nm c t2 w2 = Some (r3, t3, w3)"
      and rest: "w' = w3 \<or> (\<exists>a d. atomic_json (ConfigurationFile (pc_id c)) d w3 = (a, w'))"
      using True assms st wr
      by (cases r1; cases r2) (auto simp: persist_phase_def Let_def bindQ_Some split: if_splits)
    have "sent_upto (pc_id c) (save_command @ read_command) w w3"
      by (rule sent_all_then [OF all]) (use read_configuration_sent [OF rd] in auto)
    with rest show ?thesis using sent_all_only(2) atomic_sent by blast
  qed
qed

text \<open>The parts of a save that reports: the apply phase from a fresh report, the persist phase if it
  went well, and the final report.\<close>

lemma save_phases:
  assumes "save_configuration nm c r t w = Some (Inr rep, t', w')"
  obtains rep0 rep1 rep4 t1 t2 t4 w2 w3 w4 x x1 where
    "rp_state rep0 = ''in_progress''" "\<not> rp_save_command_sent rep0"
    "\<not> rp_active_values_verified rep0" "\<not> rp_power_cycle_verified rep0" "rp_observation rep0 = None"
    "rp_save_command_sent rep = rp_save_command_sent rep1"
    "rp_active_values_verified rep = rp_active_values_verified rep1"
    "rp_power_cycle_verified rep = rp_power_cycle_verified rep1"
    "rp_observation rep = rp_observation rep1"
    "rp_state rep = (if is_ok x \<or> rp_state rep1 \<noteq> ''in_progress'' then rp_state rep1
       else ''apply_outcome_unknown'')"
    "sent_all (pc_id c) read_command w w2"
    "prepared_save nm c r t w t1 w2"
    "apply_phase nm c r t1 rep0 w2 = Some (x1, (t4, rep4), w4)"
    "is_ok x1 \<longrightarrow> persist_phase nm c r t4 rep4 w4 = Some (x, (t2, rep1), w3)"
    "\<not> is_ok x1 \<longrightarrow> x = x1 \<and> rep1 = rep4 \<and> w3 = w4"
    "only_files (with_tmps (AttemptFile (pc_id c))) w3 w'"
proof -
  obtain before t1 w1 where rd: "read_configuration nm c t w = Some (Inr before, t1, w1)"
    and at: "attempt_save nm c r t1 w1 = Some (Inr rep, t', w')"
    using assms by (auto simp: save_configuration_def bindQ_Some)
  define rep0 where "rep0 = new_report r (env_utc (w_env w1) (w_tick w1))"
  have rep0: "rp_state rep0 = ''in_progress''" "\<not> rp_save_command_sent rep0"
      "\<not> rp_active_values_verified rep0" "\<not> rp_power_cycle_verified rep0" "rp_observation rep0 = None"
    by (simp_all add: rep0_def new_report_def)
  obtain w2 x t2 rep1 w3 where
      st: "atomic_json (AttemptFile (pc_id c)) (DReport rep0) (advance w1) = (Inr (), w2)"
    and pr: "save_protocol nm c r t1 rep0 w2 = Some (x, (t2, rep1), w3)"
    and fr: "finish_report (pc_id c) x (t2, rep1) w3 = Some (Inr rep, t', w')"
    using at by (auto simp: attempt_save_def now_def Let_def bindQ_Some rep0_def [symmetric]
        split: option.splits)
  obtain q where rep: "rep = (failed_report x rep1)\<lparr>rp_finished_at := q\<rparr>"
    and w': "only_files (with_tmps (AttemptFile (pc_id c))) w3 w'"
    using fr atomic_sent by (fastforce simp: finish_report_def now_def Let_def bindE_Inr_iff)
  have flags: "rp_save_command_sent rep = rp_save_command_sent rep1"
      "rp_active_values_verified rep = rp_active_values_verified rep1"
      "rp_power_cycle_verified rep = rp_power_cycle_verified rep1"
      "rp_observation rep = rp_observation rep1"
      "rp_state rep = (if is_ok x \<or> rp_state rep1 \<noteq> ''in_progress'' then rp_state rep1
         else ''apply_outcome_unknown'')"
    by (auto simp: rep failed_report_def is_ok_def split: sum.splits)
  obtain x1 t4 rep4 w4 where ap: "apply_phase nm c r t1 rep0 w2 = Some (x1, (t4, rep4), w4)"
    and cont: "is_ok x1 \<Longrightarrow> persist_phase nm c r t4 rep4 w4 = Some (x, (t2, rep1), w3)"
      "\<not> is_ok x1 \<Longrightarrow> x = x1 \<and> rep1 = rep4 \<and> w3 = w4"
    using pr by (auto simp: save_protocol_def bindQ_Some)
  have "only_files (with_tmps (AttemptFile (pc_id c))) w1 w2" using atomic_sent [OF st] by simp
  then have "sent_all (pc_id c) read_command w w2"
    using read_configuration_sent [OF rd] by (auto intro: sent_all_only)
  moreover have "prepared_save nm c r t w t1 w2"
    using rd st unfolding prepared_save_def rep0_def by blast
  ultimately show thesis by (rule that [OF rep0 flags _ _ ap _ _ w']) (use cont in blast)+
qed

text \<open>C18: the command that makes settings permanent is sent only after the printer reported
  every requested value back. If the report claims that the values were verified, the
  requested settings were sent in full, the configuration read after them agrees with every
  requested value, and only then the save command and one more read command (or a beginning
  of them) were sent; if it does not, nothing but the settings and two read commands ever
  reached the printer. A reported success means that the readback after the save agrees
  too, and no verification over a power cycle is ever claimed.\<close>

theorem save_only_if_confirmed:
  assumes "save_configuration nm c r t w = Some (Inr rep, t', w')"
  shows "(\<not> rp_active_values_verified rep \<longrightarrow> \<not> rp_save_command_sent rep \<and>
       sent_upto (pc_id c)
         (read_command @ bytes_of (settings_commands nm (sr_settings r)) @ read_command) w w') \<and>
     (rp_active_values_verified rep \<longrightarrow>
       (\<exists>active w4. read_back nm c r t w active w4 \<and>
          mismatches (sr_settings r) (on_settings active) = [] \<and>
          sent_all (pc_id c)
            (read_command @ bytes_of (settings_commands nm (sr_settings r)) @ read_command) w w4 \<and>
          sent_upto (pc_id c) (save_command @ read_command) w4 w')) \<and>
     (rp_state rep = ''save_sent_active_verified'' \<longrightarrow> rp_active_values_verified rep \<and>
       rp_save_command_sent rep \<and>
       (\<exists>after. rp_observation rep = Some after \<and> mismatches (sr_settings r) (on_settings after) = [])) \<and>
     \<not> rp_power_cycle_verified rep"
proof -
  let ?cmd = "bytes_of (settings_commands nm (sr_settings r))"
  obtain rep0 rep1 rep4 t1 t2 t4 w2 w3 w4 x x1 where
      rep0: "rp_state rep0 = ''in_progress''" "\<not> rp_save_command_sent rep0"
      "\<not> rp_active_values_verified rep0" "\<not> rp_power_cycle_verified rep0" "rp_observation rep0 = None"
    and flags: "rp_save_command_sent rep = rp_save_command_sent rep1"
      "rp_active_values_verified rep = rp_active_values_verified rep1"
      "rp_power_cycle_verified rep = rp_power_cycle_verified rep1"
      "rp_observation rep = rp_observation rep1"
      "rp_state rep = (if is_ok x \<or> rp_state rep1 \<noteq> ''in_progress'' then rp_state rep1
         else ''apply_outcome_unknown'')"
    and read: "sent_all (pc_id c) read_command w w2" and prep: "prepared_save nm c r t w t1 w2"
    and ap: "apply_phase nm c r t1 rep0 w2 = Some (x1, (t4, rep4), w4)"
    and cont: "is_ok x1 \<longrightarrow> persist_phase nm c r t4 rep4 w4 = Some (x, (t2, rep1), w3)"
      "\<not> is_ok x1 \<longrightarrow> x = x1 \<and> rep1 = rep4 \<and> w3 = w4"
    and w': "only_files (with_tmps (AttemptFile (pc_id c))) w3 w'"
    by (rule save_phases [OF assms])
  note a = apply_phase_sent [OF ap rep0(3)] and b = apply_phase_report [OF ap]
  have up: "sent_upto (pc_id c) (read_command @ ?cmd @ read_command) w w4"
    by (rule sent_all_then [OF read]) (use a in blast)
  show ?thesis
  proof (cases "is_ok x1")
    case True
    note p = persist_phase_report [OF mp [OF cont(1) True]] persist_phase_power [OF mp [OF cont(1) True]]
    obtain ta wa active tb wb where wr: "write_bytes (pc_id c) t1 ?cmd w2 = (Inr (), ta, wa)"
      and rd: "read_configuration nm c ta wa = Some (Inr active, tb, wb)"
      and eq: "mismatches (sr_settings r) (on_settings active) = []"
      and fr: "only_files (with_tmps (ConfigurationFile (pc_id c))) wb w4"
      by (rule apply_phase_ok [OF ap True])
    have "read_back nm c r t w active wb" unfolding read_back_def using prep wr rd by blast
    moreover have "sent_all (pc_id c) (read_command @ ?cmd @ read_command) w wb"
      using sent_all_trans [OF read sent_all_trans, of ?cmd wa read_command wb]
        write_bytes_sent [OF wr] read_configuration_sent [OF rd] by simp
    moreover have "sent_upto (pc_id c) (save_command @ read_command) wb w'"
      using sent_all_only(2) [OF w' persist_phase_sent [OF mp [OF cont(1) True]]]
        sent_all_then [OF sent_none [OF fr], of "pc_id c"] by simp
    ultimately show ?thesis
      using True a b p rep0 flags eq by (auto split: if_splits)
  next
    case False
    then have "sent_upto (pc_id c) (read_command @ ?cmd @ read_command) w w'"
      using sent_all_only(2) [OF w'] up cont(2) by simp
    with False cont(2) a b rep0 flags show ?thesis by (auto split: if_splits)
  qed
qed

text \<open>A save request that is not confirmed, not valid for the hardware profile, made against
  another state of the device, or not verifiable is refused, and at most the read command
  has been sent: no file is written and no setting is touched.\<close>

theorem save_refused_harmless:
  assumes "save_configuration nm c r t w = Some (x, t', w')"
    and "\<not> sr_confirm_save_all r \<or> validate_settings (sr_settings r) (pc_device_profile c) \<noteq> Inr () \<or>
      (\<forall>before t1 w1. read_configuration nm c t w = Some (Inr before, t1, w1) \<longrightarrow>
         save_checks r before \<noteq> Inr ())"
  shows "(\<exists>e. x = Inl e) \<and> w_files w' = w_files w \<and> sent_upto (pc_id c) read_command w w'"
proof -
  have none: "sent_upto (pc_id c) read_command w w"
    unfolding sent_upto_def sent_all_def by (rule exI [of _ "[]"]) simp
  show ?thesis
    using assms none
    by (auto simp: save_configuration_def bindQ_Some ensureE_Inl dest: read_configuration_sent)
qed

text \<open>No mismatch means that every requested (finite) value was reported back.\<close>

theorem mismatches_none:
  assumes "mismatches wanted actual = []"
  shows "(\<forall>x. ds_print_speed wanted = Some x \<longrightarrow> ds_print_speed actual = Some x) \<and>
     (\<forall>x. ds_x_offset wanted = Some x \<longrightarrow> ds_x_offset actual = Some x) \<and>
     (\<forall>x. ds_y_offset wanted = Some x \<longrightarrow> ds_y_offset actual = Some x) \<and>
     (\<forall>x. ds_print_width wanted = Some x \<longrightarrow> ds_print_width actual = Some x) \<and>
     (\<forall>x. ds_label_length wanted = Some x \<longrightarrow> ds_label_length actual = Some x) \<and>
     (\<forall>x. ds_print_mode wanted = Some x \<longrightarrow> ds_print_mode actual = Some x) \<and>
     (\<forall>x. ds_print_method wanted = Some x \<longrightarrow> ds_print_method actual = Some x) \<and>
     (\<forall>x. ds_tracking wanted = Some x \<longrightarrow> ds_tracking actual = Some x) \<and>
     (\<forall>x. ds_darkness wanted = Some x \<and> f64_is_finite x \<longrightarrow>
       (\<exists>y. ds_darkness actual = Some y \<and> f64_eq x y))"
proof -
  have eq: "b = Some x" if "\<not> differs (=) (Some x) b" for x :: 'b and b
    using that by (auto simp: differs_def split: option.splits)
  have dk: "\<exists>y. b = Some y \<and> f64_eq x y" if "\<not> differs f64_eq (json_float (Some x)) (json_float b)"
    "f64_is_finite x" for x b
    using that by (auto simp: differs_def json_float_def split: option.splits if_splits)
  show ?thesis
    using assms by (auto simp: mismatches_def split: if_splits intro: eq dk)
qed

section \<open>What files an operation touches\<close>

lemma touches_bindQ:
  assumes "bindQ m k = Some (r, t, w')"
    and "\<And>r t w'. m = Some (r, t, w') \<Longrightarrow> touches P w w'"
    and "\<And>x t1 w1. m = Some (Inr x, t1, w1) \<Longrightarrow> k x t1 w1 = Some (r, t, w') \<Longrightarrow> touches P w1 w'"
  shows "touches P w w'"
  using assms by (auto simp: bindQ_Some intro: touches.trans)

lemma touches_sends: "writes_prefix pid data w r w' \<Longrightarrow> touches P w w'"
  by (auto simp: writes_prefix_def sends_def intro: touches_files)

lemma touches_write_bytes: "write_bytes pid t data w = (r, t', w') \<Longrightarrow> touches P w w'"
  by (rule touches_sends) (rule write_bytes_prefix)

lemma touches_query: "query pid t cmd fb w = Some (r, t', w') \<Longrightarrow> touches P w w'"
  by (rule touches_sends) (rule query_prefix)

lemma touches_read_configuration:
  assumes "read_configuration nm c t w = Some (r, t', w')"
  shows "touches P w w'"
  using assms unfolding read_configuration_def
  by (rule touches_bindQ)
     (auto simp: filesQ_Some parse_configuration_def now_def Let_def touches.refl
        dest: touches_query split: if_splits)

text \<open>The two files that a save of the device settings writes.\<close>

definition settings_paths :: "string \<Rightarrow> path set" where
  "settings_paths pid = with_tmps (AttemptFile pid) \<union> with_tmps (ConfigurationFile pid)"

lemma touches_settings:
  "atomic_json (AttemptFile pid) d w = (r, w') \<Longrightarrow> touches (settings_paths pid) w w'"
  "atomic_json (ConfigurationFile pid) d w = (r, w') \<Longrightarrow> touches (settings_paths pid) w w'"
  by (auto dest!: atomic_sent touches_only_files intro: touches_mono simp: settings_paths_def)

lemma no_job_settings [simp]: "no_job_file (settings_paths pid)"
  by (simp add: settings_paths_def)

lemma touches_save_configuration:
  assumes "save_configuration nm c r t w = Some (x, t', w')"
  shows "touches (settings_paths (pc_id c)) w w'"
proof -
  have phase1: "touches (settings_paths (pc_id c)) v v'" if "apply_phase nm c r t rep v = Some (y, s, v')" for t rep v y s v'
    using that
    by (auto simp: apply_phase_def Let_def bindQ_Some split: if_splits
        intro: touches.trans dest!: touches_write_bytes [OF sym] touches_write_bytes
          touches_read_configuration touches_settings)
  have phase2: "touches (settings_paths (pc_id c)) v v'" if "persist_phase nm c r t rep v = Some (y, s, v')" for t rep v y s v'
    using that
    by (auto simp: persist_phase_def Let_def bindQ_Some split: if_splits
        intro: touches.trans dest!: touches_write_bytes [OF sym] touches_write_bytes
          touches_read_configuration touches_settings)
  have protocol: "touches (settings_paths (pc_id c)) v v'" if "save_protocol nm c r t rep v = Some (y, s, v')" for t rep v y s v'
    using that unfolding save_protocol_def
    by (rule touches_bindQ) (auto intro: phase1 phase2)
  have finish: "touches (settings_paths (pc_id c)) v v'" if "finish_report (pc_id c) y tr v = Some (z, s, v')" for y tr v z s v'
  proof -
    have "touches (settings_paths (pc_id c)) (advance v) (snd (bindE (atomic_json (AttemptFile (pc_id c)) d (advance v)) (\<lambda>_ w. (Inr q, w))))"
      for d and q :: save_report
      by (rule touches.bindE_respects)
         (auto intro: touches_settings(1) [OF prod.collapse [symmetric]] touches.refl)
    then have "touches (settings_paths (pc_id c)) (advance v) v'"
      using that unfolding finish_report_def now_def Let_def prod.case filesQ_Some by (metis snd_conv)
    then show ?thesis by (rule touches.trans [OF touches_advance(1)])
  qed
  have attempt: "touches (settings_paths (pc_id c)) v v'" if "attempt_save nm c r t v = Some (y, t', v')" for t v y t' v'
  proof -
    note run = that
    let ?rep = "new_report r (env_utc (w_env v) (w_tick v))"
    have start: "touches (settings_paths (pc_id c)) v v1"
      if "atomic_json (AttemptFile (pc_id c)) (DReport ?rep) (advance v) = (a, v1)" for a v1
      using touches.trans [OF touches_advance(1) touches_settings(1) [OF that]] by simp
    consider (early) e where
        "atomic_json (AttemptFile (pc_id c)) (DReport ?rep) (advance v) = (Inl e, v')"
      | (late) v1 z tr v2 where
        "atomic_json (AttemptFile (pc_id c)) (DReport ?rep) (advance v) = (Inr (), v1)"
        "save_protocol nm c r t ?rep v1 = Some (z, tr, v2)"
        "finish_report (pc_id c) z tr v2 = Some (y, t', v')"
      using run by (auto simp: attempt_save_def now_def Let_def bindQ_Some split: option.splits)
    then show ?thesis
    proof cases
      case early
      then show ?thesis by (rule start)
    next
      case late
      show ?thesis
        by (rule touches.trans [OF start [OF late(1)]
              touches.trans [OF protocol [OF late(2)] finish [OF late(3)]]])
    qed
  qed
  show ?thesis
    using assms
    by (auto simp: save_configuration_def bindQ_Some ensureE_Inl touches.refl
        dest!: touches_read_configuration attempt
        intro: touches.trans)
qed

end
