(* ===== verification/Device_Sample.thy ===== *)
theory Device_Sample
  imports Device
begin

text \<open>
  A complete run of \<open>save_configuration\<close> on a concrete printer: a USB device that answers
  the configuration query three times with one line of a report. It is the witness of the
  properties of \<open>Device\<close>: their hypotheses hold on this run.
\<close>

section \<open>The printer and its report\<close>

definition sample_report_line :: string where "sample_report_line = ''WEBMEDIA TYPE''"

definition sample_report_bytes :: "u8 list" where
  "sample_report_bytes = bytes_of sample_report_line"

definition sample_numeric :: numeric where
 "sample_numeric = \<lparr>nm_parse_f64 = \<lambda>_. None, nm_show_f64 = \<lambda>_. [], nm_dpi = \<lambda>_. 0, nm_round_dpi = \<lambda>_. 0, nm_digest = concat\<rparr>"

definition sample_settings :: device_settings where
  "sample_settings = no_settings\<lparr>ds_tracking := Some GapTracking\<rparr>"

lemma sample_report_text: "lossy_text sample_report_bytes = sample_report_line"
proof -
  have "list_all (\<lambda>c. char_code c < 0x80) sample_report_line" by code_simp
  then show ?thesis unfolding lossy_text_def sample_report_bytes_def  by (simp only: utf8_lossy_ascii string_of_bytes_of)
qed

lemma sample_report_class: "classify sample_report_bytes = ''response''"
  unfolding classify_def sample_report_text by code_simp

lemma sample_line_text:
  "text_lines sample_report_line = [sample_report_line]" "trim_control_ws sample_report_line = sample_report_line" "trim_ws sample_report_line = sample_report_line"
  "ascii_uppercase sample_report_line = sample_report_line" "trim_ws ''WEB'' = ''WEB''" "first_word [] = []"
proof -
  have "byte_char 10 \<notin> set sample_report_line" by code_simp
  then show "text_lines sample_report_line = [sample_report_line]" by (simp add: text_lines_single sample_report_line_def)
qed (simp_all add: sample_report_line_def first_word_def no_words trim_printable printable_def char_code_def
      byte_char_def ascii_uppercase_def upper_char_def is_lower_def)

lemma sample_line_stable: "ends_with ''RTC DATE'' sample_report_line = False" "ends_with ''RTC TIME'' sample_report_line = False"
  "ends_with ''UPTIME'' sample_report_line = False"
  by (simp_all add: sample_report_line_def ends_with_def)

lemma sample_line_labels:
  "strip_suffix ''DARKNESS'' sample_report_line = None" "strip_suffix ''PRINT SPEED'' sample_report_line = None"
  "strip_suffix ''LEFT POSITION'' sample_report_line = None" "strip_suffix ''LABEL TOP'' sample_report_line = None"
  "strip_suffix ''PRINT WIDTH'' sample_report_line = None" "strip_suffix ''LABEL LENGTH'' sample_report_line = None"
  "strip_suffix ''PRINT MODE'' sample_report_line = None" "strip_suffix ''PRINT METHOD'' sample_report_line = None"
  "strip_suffix ''SENSOR TYPE'' sample_report_line = None" "strip_suffix ''RESOLUTION'' sample_report_line = None"
  "strip_suffix ''MEDIA TYPE'' sample_report_line = Some ''WEB''"
  by (simp_all add: sample_report_line_def strip_suffix_def ends_with_def)

lemma sample_fields:
  "report_field [sample_report_line] l = (case strip_suffix l sample_report_line of None \<Rightarrow> [] | Some v \<Rightarrow> trim_ws v)"
  by (simp add: report_field_def map_filter_def sample_line_text split: option.split)

lemmas fields_of_line = sample_line_text no_words sample_line_labels sample_fields

lemma parse_nothing: "parse_word [] = None" "parse_signed [] = None" "parse_dots [] = None"
  by (simp_all add: parse_word_def parse_unsigned_def all_digits_def parse_signed_def parse_dots_def fields_of_line)

lemma sample_report_settings: "parse_settings sample_numeric (text_lines sample_report_line) = sample_settings"
   by (simp add: parse_settings_def sample_settings_def no_settings_def sample_numeric_def finite_f64_def json_float_def parse_print_mode_def parse_print_method_def normalized_def parse_tracking_def 
     fields_of_line parse_nothing)

lemma sample_report_revision: "config_revision sample_numeric sample_report_line = sample_report_line"
  by (simp add: config_revision_def stable_lines_def volatile_suffixes_def sample_line_stable fields_of_line sample_numeric_def)

lemma sample_parse: "parse_configuration sample_numeric sample_report_line default_profile w =
  (Inr \<lparr>on_settings = sample_settings, on_resolution_dpi = None, on_revision = sample_report_line, on_observed_at = env_utc (w_env w) (w_tick w), on_raw = sample_report_line\<rparr>, advance w)"
  unfolding parse_configuration_def sample_report_settings sample_report_revision 
  by (simp add: fields_of_line now_def sample_settings_def no_settings_def parse_resolution_def default_profile_def)

lemma usb_answer:
  assumes "env_write (w_env w) = (\<lambda>_. WrOk 4096)" "env_read (w_env w) (w_tick w + 2) = RdOk bs" "env_read (w_env w) (Suc (Suc (Suc (w_tick w)))) = RdTimeout"
   "bs \<noteq> []" "length bs \<le> 4096" "usb_in_endpoint u \<noteq> None" "cmd \<noteq> []" "length cmd \<le> 4096"
  shows "\<exists>q w'. query pid (Usb u) cmd fb w = Some (Inr q, Usb u, w') \<and> qr_bytes q = bs \<and> qr_classification q = classify bs \<and>
    w_env w' = w_env w \<and> w_tick w' = w_tick w + 5 "
  using assms
  by (auto simp: query_def usb_query_def instant_def write_all_bulk_def counted_loop.simps dev_write_call_def dev_read_call_def usb_read_loop.simps advance_def)

definition sample_usb :: transport where
  "sample_usb = Usb \<lparr>usb_interface = 0, usb_in_endpoint = Some 0x82, usb_out_endpoint = 1\<rparr>"

definition talkative :: world where
  "talkative = (world_with [])\<lparr>w_env := calm_env\<lparr>env_read :=
     \<lambda>n. if n \<in> {2, 18, 41} then RdOk sample_report_bytes else RdTimeout\<rparr>\<rparr>"

definition sample_save :: save_request where
  "sample_save = \<lparr>sr_revision = sample_report_line, sr_settings = sample_settings, sr_confirm_save_all = True\<rparr>"

definition sample_observation :: "nat \<Rightarrow> observation" where
  "sample_observation n = \<lparr>on_settings = sample_settings, on_resolution_dpi = None,
     on_revision = sample_report_line, on_observed_at = int n, on_raw = sample_report_line\<rparr>"

lemma sample_report_small: "sample_report_bytes \<noteq> []" "take 4096 sample_report_bytes = sample_report_bytes"
  by (simp_all add: bytes_of_def sample_report_bytes_def sample_report_line_def)

lemma commands_small: "read_command \<noteq> []" "length read_command \<le> 4096" "take 4096 read_command = read_command"
 "save_command \<noteq> []" "length save_command \<le> 4096" "take 4096 save_command = save_command"
  by (simp_all add: bytes_of_def read_command_def save_command_def newline_def)

lemma sample_valid: "validate_settings sample_settings default_profile = Inr ()"
  by (simp add: validate_settings_def sample_settings_def no_settings_def check_def within_u32_def within_offset_def opt_ok_def)

lemma sample_checked: "save_checks sample_save (sample_observation t) = Inr ()"
  by (simp add: save_checks_def sample_observation_def sample_save_def check_def unreadable_def differs_def sample_settings_def no_settings_def json_float_def)

lemma sample_confirmed: "mismatches sample_settings sample_settings = []"
  by (simp add: mismatches_def sample_settings_def no_settings_def differs_def json_float_def)

lemma sample_commands_small: "bytes_of (settings_commands sample_numeric sample_settings) \<noteq> []" "length (bytes_of (settings_commands sample_numeric sample_settings)) \<le> 4096"
  by (simp_all add: bytes_of_def settings_commands_def sample_settings_def no_settings_def  setting_command_def newline_def tracking_code_def)

lemma sample_query:
  assumes "w_env w = calm_env\<lparr>env_read := \<lambda>n. if n \<in> {2, 18, 41} then RdOk sample_report_bytes else RdTimeout\<rparr>"
  shows "query ''p'' sample_usb read_command fb w =
    (if w_tick w \<in> {0, 16, 39} then Some (Inr \<lparr>qr_bytes = sample_report_bytes, qr_duration = 4, qr_classification = ''response''\<rparr>, sample_usb, 
      w\<lparr>w_tick := w_tick w + 5, w_clock := w_clock w + 5, w_wire := (w_wire w)(''p'' := w_wire w ''p'' @ read_command)\<rparr>)
     else query ''p'' sample_usb read_command fb w)"
 using assms by (auto simp: sample_usb_def query_def usb_query_def instant_def write_all_bulk_def counted_loop.simps dev_write_call_def dev_read_call_def usb_read_loop.simps advance_def calm_env_def sample_report_small commands_small sample_report_class with_wire_def)

lemma sample_query':
  assumes "w_env w = calm_env\<lparr>env_read := \<lambda>n. if n \<in> {2, 18, 41} then RdOk sample_report_bytes else RdTimeout\<rparr>"
   "w_tick w \<in> {0, 16, 39}"
  shows "query ''p'' sample_usb read_command fb w =
     Some (Inr \<lparr>qr_bytes = sample_report_bytes, qr_duration = 4, qr_classification = ''response''\<rparr>, sample_usb, 
      w\<lparr>w_tick := w_tick w + 5, w_clock := w_clock w + 5, w_wire := (w_wire w)(''p'' := w_wire w ''p'' @ read_command)\<rparr>)"
  using sample_query [OF assms(1)] assms(2) by simp

lemma sample_read:
  assumes "w_env w = calm_env\<lparr>env_read := \<lambda>n. if n \<in> {2, 18, 41} then RdOk sample_report_bytes else RdTimeout\<rparr>"
   "w_tick w \<in> {0, 16, 39}"
  shows "read_configuration sample_numeric sample_printer sample_usb w =
     Some (Inr \<lparr>on_settings = sample_settings, on_resolution_dpi = None, on_revision = sample_report_line, on_observed_at = int (w_tick w + 5), on_raw = sample_report_line\<rparr>, sample_usb,
         w\<lparr>w_tick := w_tick w + 6, w_clock := w_clock w + 6, w_wire := (w_wire w)(''p'' := w_wire w ''p'' @ read_command)\<rparr>)"
  using assms(1) by (simp add: read_configuration_def sample_query' [OF assms] bindQ_def filesQ_def sample_printer_def default_printer_config_def sample_report_text sample_parse advance_def calm_env_def)

lemma sample_write:
  assumes "w_env w = calm_env\<lparr>env_read := \<lambda>n. if n \<in> {2, 18, 41} then RdOk sample_report_bytes else RdTimeout\<rparr>" "cmd \<noteq> []" "length cmd \<le> 4096"
  shows "write_bytes pid sample_usb cmd w = (Inr (), sample_usb, w\<lparr>w_tick := w_tick w + 1, w_clock := w_clock w + 1, w_wire := (w_wire w)(pid := w_wire w pid @ cmd)\<rparr>)"
  using assms by (simp add: write_bytes_def sample_usb_def usb_chunk_def write_all_bulk_def counted_loop.simps dev_write_call_def with_wire_def advance_def calm_env_def split: prod.split)

definition at_tick :: "nat \<Rightarrow> world \<Rightarrow> bool" where
  "at_tick n w = (w_env w = calm_env\<lparr>env_read := \<lambda>n. if n \<in> {2, 18, 41} then RdOk sample_report_bytes else RdTimeout\<rparr> \<and> w_tick w = n \<and> no_tmp w)"

lemma at_tick_steps:
  "at_tick n w \<Longrightarrow> n \<in> {0, 16, 39} \<Longrightarrow> \<exists>obs w'. read_configuration sample_numeric sample_printer sample_usb w = Some (Inr obs, sample_usb, w') \<and>
    at_tick (n + 6) w' \<and> obs = sample_observation (n + 5)"
  "at_tick n w \<Longrightarrow> cmd \<noteq> [] \<Longrightarrow> length cmd \<le> 4096 \<Longrightarrow> \<exists>w'. write_bytes pid sample_usb cmd w = (Inr (), sample_usb, w') \<and> at_tick (n + 1) w'"
  "at_tick n w \<Longrightarrow> at_tick (n + 1) (advance w)"
  by (simp_all add: at_tick_def sample_read sample_write sample_observation_def no_tmp_def lookup_def advance_def)

lemma at_tick_atomic: "at_tick n w \<Longrightarrow> \<not> is_tmp p \<Longrightarrow> \<exists>w'. atomic_json p d w = (Inr (), w') \<and> at_tick (n + 8) w'"
proof -
  assume at: "at_tick n w" and "\<not> is_tmp p"
  then have "quiet w" "no_tmp w" by (simp_all add: at_tick_def quiet_def calm_env_def)
  from atomic_json_quiet [OF this \<open>\<not> is_tmp p\<close>] obtain w' where w': "atomic_json p d w = (Inr (), w')" "no_tmp w'" by blast
  have "w_env w' = w_env w" using w'(1) atomic_json_only_files [of p w d] by (simp add: only_files_def)
  moreover have "w_tick w' = w_tick w + 8"
    using w'(1) \<open>quiet w\<close> \<open>no_tmp w\<close> by (auto simp: run_defs quiet_def no_tmp_def split: option.splits)
  ultimately show ?thesis using w' at by (auto simp: at_tick_def)
qed

lemma sample_saved: "\<exists>rep w'. save_configuration sample_numeric sample_printer sample_save sample_usb talkative = Some (Inr rep, sample_usb, w') \<and> rp_state rep = ''save_sent_active_verified''"
proof -
  let ?rep = "new_report sample_save 6"
  let ?cmds = "bytes_of (settings_commands sample_numeric sample_settings)"
  have t0: "at_tick 0 talkative" by (simp add: at_tick_def talkative_def no_tmp_def lookup_def)
  obtain o1 w1 where s1: "read_configuration sample_numeric sample_printer sample_usb talkative = Some (Inr o1, sample_usb, w1)"
    "at_tick 6 w1" "o1 = sample_observation 5" using at_tick_steps(1) [OF t0] by auto
  obtain w2 where s2: "atomic_json (AttemptFile ''p'') (DReport ?rep) (advance w1) = (Inr (), w2)" "at_tick 15 w2"
    using at_tick_atomic [where p = "AttemptFile ''p''" and d = "DReport ?rep", OF at_tick_steps(3) [OF s1(2)]] by auto
  obtain w3 where s3: "write_bytes ''p'' sample_usb ?cmds w2 = (Inr (), sample_usb, w3)" "at_tick 16 w3"
    using at_tick_steps(2) [OF s2(2) sample_commands_small] by auto
  obtain o2 w4 where s4: "read_configuration sample_numeric sample_printer sample_usb w3 = Some (Inr o2, sample_usb, w4)"
    "at_tick 22 w4" "o2 = sample_observation 21" using at_tick_steps(1) [OF s3(2)] by auto
  obtain w5 where s5: "atomic_json (ConfigurationFile ''p'') (DObservation o2) w4 = (Inr (), w5)" "at_tick 30 w5"
    using at_tick_atomic [where p = "ConfigurationFile ''p''" and d = "DObservation o2", OF s4(2)] by auto
  obtain w6 where s6: "atomic_json (AttemptFile ''p'') (DReport (?rep\<lparr>rp_active_values_verified := True,
       rp_state := ''save_outcome_unknown''\<rparr>)) w5 = (Inr (), w6)" "at_tick 38 w6"
    using at_tick_atomic [where p = "AttemptFile ''p''" and d = "DReport (?rep\<lparr>rp_active_values_verified := True,
       rp_state := ''save_outcome_unknown''\<rparr>)", OF s5(2)] by auto
  obtain w7 where s7: "write_bytes ''p'' sample_usb save_command w6 = (Inr (), sample_usb, w7)" "at_tick 39 w7"
    using at_tick_steps(2) [OF s6(2) commands_small(4,5)] by auto
  obtain o3 w8 where s8: "read_configuration sample_numeric sample_printer sample_usb w7 = Some (Inr o3, sample_usb, w8)"
    "at_tick 45 w8" "o3 = sample_observation 44" using at_tick_steps(1) [OF s7(2)] by auto
  obtain w9 where s9: "atomic_json (ConfigurationFile ''p'') (DObservation o3) w8 = (Inr (), w9)" "at_tick 53 w9"
    using at_tick_atomic [where p = "ConfigurationFile ''p''" and d = "DObservation o3", OF s8(2)] by auto
  define final where "final = ?rep\<lparr>rp_active_values_verified := True, rp_save_command_sent := True,
     rp_state := ''save_sent_active_verified'', rp_observation := Some o3,
     rp_finished_at := Some (env_utc (w_env w9) (w_tick w9))\<rparr>"
  obtain w' where s10: "atomic_json (AttemptFile ''p'') (DReport final) (advance w9) = (Inr (), w')"
    using at_tick_atomic [where p = "AttemptFile ''p''" and d = "DReport final", OF at_tick_steps(3) [OF s9(2)]] by auto
  have r: "sr_confirm_save_all sample_save" "sr_settings sample_save = sample_settings"
    by (simp_all add: sample_save_def)
  have p: "pc_id sample_printer = ''p''" "pc_device_profile sample_printer = default_profile" 
    by (simp_all add: sample_printer_def default_printer_config_def)
  have o2: "on_settings o2 = sample_settings" and o3: "on_settings o3 = sample_settings"
    by (simp_all add: s4(3) s8(3) sample_observation_def)
  have "save_protocol sample_numeric sample_printer sample_save sample_usb ?rep w2 =
    Some (Inr (), (sample_usb, ?rep\<lparr>rp_active_values_verified := True, rp_save_command_sent := True,
     rp_state := ''save_sent_active_verified'', rp_observation := Some o3\<rparr>), w9)"
    by (simp add: save_protocol_def apply_phase_def persist_phase_def Let_def carry_def bindQ_def filesQ_def
      r p s3(1) s4(1) s5(1) s6(1) s7(1) s8(1) s9(1) sample_confirmed o2 o3)
  moreover have "env_utc (w_env w1) (w_tick w1) = 6" using s1(2) by (simp add: at_tick_def calm_env_def)
  ultimately have "attempt_save sample_numeric sample_printer sample_save sample_usb w1 = Some (Inr final, sample_usb, w')"
    using s2(1) s10 by (simp add: attempt_save_def Let_def now_def bindQ_def filesQ_def p finish_report_def failed_report_def final_def)
  then show ?thesis
    using s1(1) by (auto simp: save_configuration_def bindQ_def filesQ_def ensureE_def r p sample_valid s1(3) sample_checked final_def)
qed

section \<open>Witnesses\<close>

theorem save_only_if_confirmed_witness:
  "\<exists>rep w' after active w4. save_configuration sample_numeric sample_printer sample_save sample_usb talkative =
       Some (Inr rep, sample_usb, w') \<and> rp_save_command_sent rep \<and>
     read_back sample_numeric sample_printer sample_save sample_usb talkative active w4 \<and>
     mismatches sample_settings (on_settings active) = [] \<and>
     rp_observation rep = Some after \<and> mismatches sample_settings (on_settings after) = []"
proof -
  obtain rep w' where
    run: "save_configuration sample_numeric sample_printer sample_save sample_usb talkative =
        Some (Inr rep, sample_usb, w')"
    and saved: "rp_state rep = ''save_sent_active_verified''"
    using sample_saved by blast
  have settings: "sr_settings sample_save = sample_settings" by (simp add: sample_save_def)
  from save_only_if_confirmed [OF run] saved run show ?thesis unfolding settings by blast
qed

theorem save_refused_harmless_witness:
  "\<exists>e w'. save_configuration sample_numeric sample_printer (sample_save\<lparr>sr_confirm_save_all := False\<rparr>)
       sample_usb talkative = Some (Inl e, sample_usb, w') \<and> w_files w' = []"
proof -
  let ?r = "sample_save\<lparr>sr_confirm_save_all := False\<rparr>"
  obtain x w' where
    run: "save_configuration sample_numeric sample_printer ?r sample_usb talkative = Some (x, sample_usb, w')"
    by (simp add: save_configuration_def bindQ_def filesQ_def ensureE_def)
  from save_refused_harmless [OF run] run show ?thesis by (auto simp: talkative_def)
qed

theorem mismatches_none_witness:
  "ds_tracking sample_settings = Some GapTracking"
  using mismatches_none [OF sample_confirmed] by (simp add: sample_settings_def)

end
