(* ===== verification/Probe.thy ===== *)
theory Probe
  imports Device_Sample
begin

text \<open>
  The probe of \<open>src/worker.rs\<close>: the queries, the recording of responses in the snapshot and
  the parsing of the two answers whose format is known. A probe sends only the fixed
  read-only queries, and answers "ok" exactly when one of the base queries was answered.
\<close>

section \<open>Queries\<close>

definition BASE_QUERIES :: "(string \<times> u8 list) list" where
  "BASE_QUERIES = map (\<lambda>(n, q). (n, bytes_of q))
     [(''host_status'', ''~HS''), (''head_diagnostics'', ''~HD''), (''memory'', ''~HM''),
      (''battery'', ''~HB''), (''configuration'', ''^XA^HH^XZ''),
      (''directory_r'', ''^XA^HWR:*.*^XZ''), (''directory_e'', ''^XA^HWE:*.*^XZ''),
      (''directory_b'', ''^XA^HWB:*.*^XZ''), (''directory_z'', ''^XA^HWZ:*.*^XZ'')]"

definition crlf :: string where
  "crlf = [byte_char 13, byte_char 10]"

definition quoted :: "string \<Rightarrow> string" where
  "quoted s = byte_char 34 # s @ [byte_char 34]"

definition OPTIONAL_QUERIES :: "(string \<times> u8 list) list" where
  "OPTIONAL_QUERIES = map (\<lambda>(n, q). (n, bytes_of q))
     [(''sgd_device'', ''! U1 getvar '' @ quoted ''device.friendly_name'' @ crlf),
      (''hq_status'', ''~HQES''),
      (''odometer'', ''! U1 getvar '' @ quoted ''odometer.total_print_length'' @ crlf)]"

section \<open>Recording a response\<close>

definition millis :: "nat \<Rightarrow> u64" where
  "millis ns = of_nat (ns div 1000000)"

definition count_response :: "u8 list \<Rightarrow> nat \<Rightarrow> string option \<Rightarrow> query_stats \<Rightarrow> query_stats" where
  "count_response bytes duration error q = q\<lparr>
     qs_count := sat_add (qs_count q) 1,
     qs_duration_ms_total := sat_add (qs_duration_ms_total q) (millis duration),
     qs_response_bytes_total := sat_add (qs_response_bytes_total q) (of_nat (length bytes)),
     qs_timeouts := (case error of
        None \<Rightarrow> qs_timeouts q
      | Some e \<Rightarrow> if contains_str ''timeout'' e then sat_add (qs_timeouts q) 1 else qs_timeouts q)\<rparr>"

definition record_response :: "string \<Rightarrow> u8 list \<Rightarrow> nat \<Rightarrow> string option \<Rightarrow> string \<Rightarrow>
    printer_snapshot \<Rightarrow> world \<Rightarrow> printer_snapshot \<times> world" where
  "record_response name bytes duration error classification s w =
     (let q = (case map_of (sn_query_stats s) name of None \<Rightarrow> default_query_stats | Some q \<Rightarrow> q);
          (t, w) = now w
      in (s\<lparr>sn_query_stats := AList.update name (count_response bytes duration error q) (sn_query_stats s),
            sn_raw_responses := AList.update name
              \<lparr>rr_bytes = bytes, rr_observed_at = t, rr_duration_ms = millis duration,
               rr_error = error, rr_classification = classification\<rparr> (sn_raw_responses s)\<rparr>, w))"

section \<open>Parsing known answers\<close>

definition configuration_value :: "string \<Rightarrow> string \<Rightarrow> string option" where
  "configuration_value line label =
     (let clean = trim_control_ws line in
      case strip_suffix label (ascii_uppercase clean) of
        None \<Rightarrow> None
      | Some prefix \<Rightarrow>
          (let v = trim_ws (take (length prefix) clean) in if v = [] then None else Some v))"

function trim_end_matches :: "string \<Rightarrow> string \<Rightarrow> string" where
  "trim_end_matches p s =
     (if p = [] then s
      else case strip_suffix p s of None \<Rightarrow> s | Some t \<Rightarrow> trim_end_matches p t)"
  by pat_completeness auto
termination
  by (relation "measure (length \<circ> snd)") (auto simp: strip_suffix_Some)

declare trim_end_matches.simps [simp del]

definition parse_host_status :: "string \<Rightarrow> printer_snapshot \<Rightarrow> world \<Rightarrow> printer_snapshot \<times> world" where
  "parse_host_status text s w =
     (let parts = split_char (CHR '','') text in
      if length parts > 2 then
        (let (ready, w) = observe_value True None ''~HS'' w;
             (paused, w) = observe_value (trim_ws (parts ! 2) = ''1'') None ''~HS'' w
         in (s\<lparr>sn_status := (sn_status s)\<lparr>st_ready := ready, st_paused := paused\<rparr>\<rparr>, w))
      else (s, w))"

text \<open>One line of the configuration report.\<close>

definition note_firmware :: "string \<Rightarrow> printer_snapshot \<Rightarrow> world \<Rightarrow> printer_snapshot \<times> world" where
  "note_firmware l s w =
     (case configuration_value l ''FIRMWARE'' of
        None \<Rightarrow> (s, w)
      | Some v \<Rightarrow>
          (let (ob, w) = observe_value (trim_ws (trim_end_matches ''<-'' v)) None ''^HH'' w
           in (s\<lparr>sn_identity := (sn_identity s)\<lparr>id_firmware := ob\<rparr>\<rparr>, w)))"

definition note_hardware_id :: "string \<Rightarrow> printer_snapshot \<Rightarrow> world \<Rightarrow> printer_snapshot \<times> world" where
  "note_hardware_id l s w =
     (case configuration_value l ''HARDWARE ID'' of
        None \<Rightarrow> (s, w)
      | Some v \<Rightarrow>
          (let (ob, w) = observe_value v None ''^HH'' w
           in (s\<lparr>sn_identity := (sn_identity s)\<lparr>id_hardware_id := ob\<rparr>\<rparr>, w)))"

definition note_serial_number :: "string \<Rightarrow> printer_snapshot \<Rightarrow> world \<Rightarrow> printer_snapshot \<times> world" where
  "note_serial_number l s w =
     (case configuration_value l ''SERIAL NUMBER'' of
        None \<Rightarrow> (s, w)
      | Some v \<Rightarrow>
          (let (ob, w) = observe_value v None ''^HH'' w
           in (s\<lparr>sn_identity := (sn_identity s)\<lparr>id_serial_number := ob\<rparr>\<rparr>, w)))"

definition dots_per_mm :: "numeric \<Rightarrow> string \<Rightarrow> f64 option" where
  "dots_per_mm nm v =
     (case List.map_filter (strip_suffix ''/MM'') (split_whitespace v) of
        [] \<Rightarrow> None
      | n # _ \<Rightarrow> nm_parse_f64 nm n)"

definition note_resolution :: "numeric \<Rightarrow> string \<Rightarrow> printer_snapshot \<Rightarrow> world \<Rightarrow> printer_snapshot \<times> world" where
  "note_resolution nm l s w =
     (case Option.bind (configuration_value l ''RESOLUTION'') (dots_per_mm nm) of
        None \<Rightarrow> (s, w)
      | Some d \<Rightarrow>
          (let (ob, w) = observe_value (nm_round_dpi nm d) (Some ''dpi'') ''^HH'' w
           in (s\<lparr>sn_identity := (sn_identity s)\<lparr>id_resolution_dpi := ob\<rparr>\<rparr>, w)))"

definition note_line :: "numeric \<Rightarrow> string \<Rightarrow> printer_snapshot \<times> world \<Rightarrow> printer_snapshot \<times> world" where
  "note_line nm line sw =
     (let l = trim_ws line;
          (s, w) = note_firmware l (fst sw) (snd sw);
          (s, w) = note_hardware_id l s w;
          (s, w) = note_serial_number l s w
      in note_resolution nm l s w)"

definition parse_known :: "numeric \<Rightarrow> string \<Rightarrow> u8 list \<Rightarrow> printer_snapshot \<Rightarrow> world \<Rightarrow>
    printer_snapshot \<times> world" where
  "parse_known nm name bytes s w =
     (let text = lossy_text bytes;
          (s, w) = (if name = ''host_status'' then parse_host_status text s w else (s, w))
      in if name = ''configuration'' then fold (note_line nm) (text_lines text) (s, w) else (s, w))"

section \<open>The probe\<close>

fun base_loop :: "numeric \<Rightarrow> printer_config \<Rightarrow> (string \<times> u8 list) list \<Rightarrow> bool \<Rightarrow> transport \<Rightarrow>
    printer_snapshot \<Rightarrow> world \<Rightarrow> (bool \<times> transport \<times> printer_snapshot \<times> world) option" where
  "base_loop nm c [] any t s w = Some (any, t, s, w)"
| "base_loop nm c ((name, q) # qs) any t s w =
     (let (started, w) = instant w in
      case query (pc_id c) t q (pc_first_byte_timeout_ms c) w of
        None \<Rightarrow> None
      | Some (Inr r, t, w) \<Rightarrow>
          (let (s, w) = record_response name (qr_bytes r) (qr_duration r) None (qr_classification r) s w;
               (s, w) = parse_known nm name (qr_bytes r) s w
           in base_loop nm c qs True t s w)
      | Some (Inl e, t, w) \<Rightarrow>
          (let (stop, w) = instant w;
               (s, w) = record_response name [] (stop - started) (Some e) ''transport_error'' s w
           in if \<not> any then Some (any, t, s, w) else base_loop nm c qs any t s w))"

definition set_capability :: "string \<Rightarrow> bool observed \<times> world \<Rightarrow> printer_snapshot \<Rightarrow>
    printer_snapshot \<times> world" where
  "set_capability name ow s =
     (s\<lparr>sn_capabilities := AList.update name (fst ow) (sn_capabilities s)\<rparr>, snd ow)"

fun optional_loop :: "printer_config \<Rightarrow> hardware_counter_policy \<Rightarrow> (string \<times> u8 list) list \<Rightarrow> transport \<Rightarrow>
    printer_snapshot \<Rightarrow> world \<Rightarrow> (transport \<times> printer_snapshot \<times> world) option" where
  "optional_loop c hc [] t s w = Some (t, s, w)"
| "optional_loop c hc ((name, q) # qs) t s w =
     (if name = ''odometer'' \<and> hc = Disabled then
        (let (s, w) = set_capability name (observe_not_supported ''disabled_by_config'' w) s
         in optional_loop c hc qs t s w)
      else
        (let (started, w) = instant w in
         case query (pc_id c) t q (pc_first_byte_timeout_ms c) w of
           None \<Rightarrow> None
         | Some (Inr r, t, w) \<Rightarrow>
             (let (s, w) = record_response name (qr_bytes r) (qr_duration r) None
                    (qr_classification r) s w;
                  (s, w) = set_capability name
                    (if qr_bytes r \<noteq> [] then observe_value True None ''probe'' w
                     else observe_not_supported ''empty_response'' w) s
              in optional_loop c hc qs t s w)
         | Some (Inl e, t, w) \<Rightarrow>
             (let (stop, w) = instant w;
                  (s, w) = record_response name [] (stop - started) (Some e) ''transport_error'' s w;
                  (s, w) = set_capability name
                    (observe_unavailable (if contains_str ''timeout'' e then ''probe_timeout'' else e) w) s
              in optional_loop c hc qs t s w)))"

definition manual_feed :: "printer_snapshot \<Rightarrow> world \<Rightarrow> bool observed \<times> world" where
  "manual_feed s w =
     (case map_option obs_state (map_of (sn_capabilities s) ''odometer'') of
        Some Value \<Rightarrow> observe_value True None ''capability_probe'' w
      | Some NotSupported \<Rightarrow> observe_not_supported ''hardware_counter_not_supported'' w
      | Some Unavailable \<Rightarrow> observe_unavailable ''hardware_counter_probe_unavailable'' w
      | _ \<Rightarrow> (observed_unknown, w))"

text \<open>The end of a probe: the snapshot is completed and stored; a failure to store it is
  ignored.\<close>

definition probe_finish :: "printer_config \<Rightarrow> bool \<Rightarrow> bool \<Rightarrow> printer_snapshot \<Rightarrow> world \<Rightarrow>
    printer_snapshot \<times> world" where
  "probe_finish c capabilities any s w =
     (let (s, w) = (if capabilities
            then (let (ob, w) = manual_feed s w
                  in (s\<lparr>sn_counters := (sn_counters s)\<lparr>ct_manual_feed_detection := ob\<rparr>\<rparr>, w))
            else (s, w));
          (up, w) = observe_value any None ''probe'' w;
          (t, w) = now w;
          s = s\<lparr>sn_transport := (sn_transport s)\<lparr>ts_protocol_up := up\<rparr>, sn_updated_at := t\<rparr>
      in (s, snd (atomic_json (SnapshotFile (pc_id c)) (DSnapshot s) w)))"

definition probe :: "numeric \<Rightarrow> printer_config \<Rightarrow> hardware_counter_policy \<Rightarrow> bool \<Rightarrow> transport option \<Rightarrow>
    printer_snapshot \<Rightarrow> world \<Rightarrow>
    ((string + unit) \<times> transport option \<times> printer_snapshot \<times> world) option" where
  "probe nm c hc capabilities t s w =
     (case ensure_transport c t s w of
        (Inl e, t, s, w) \<Rightarrow> Some (Inl e, t, s, w)
      | (Inr _, t, s, w) \<Rightarrow>
     (case base_loop nm c BASE_QUERIES False (the t) s w of
        None \<Rightarrow> None
      | Some (any, t, s, w) \<Rightarrow>
     (case (if capabilities \<and> any then optional_loop c hc OPTIONAL_QUERIES t s w
            else Some (t, s, w)) of
        None \<Rightarrow> None
      | Some (t, s, w) \<Rightarrow>
          (let (s, w) = probe_finish c capabilities any s w
           in Some (if any then Inr () else Inl ''printer did not answer any base query'',
                    Some t, s, w)))))"

section \<open>What a probe does\<close>

lemma observe_idle [simp]:
  "idle w (snd (observe_value v un src w))" "idle w (snd (observe_not_supported r w))"
  "idle w (snd (observe_unavailable r w))"
  by (simp_all add: observe_value_def observe_not_supported_def observe_unavailable_def now_def
      idle_def)

lemma record_response_idle: "idle w (snd (record_response n b d e cl s w))"
  by (simp add: record_response_def now_def Let_def)

lemma notes_idle:
  "idle w (snd (note_firmware l s w))" "idle w (snd (note_hardware_id l s w))"
  "idle w (snd (note_serial_number l s w))" "idle w (snd (note_resolution nm l s w))"
  by (simp_all add: note_firmware_def note_hardware_id_def note_serial_number_def note_resolution_def
      observe_value_def now_def idle_def split: option.splits)

lemma note_line_idle: "idle (snd sw) (snd (note_line nm l sw))"
proof -
  obtain s1 w1 where 1: "note_firmware (trim_ws l) (fst sw) (snd sw) = (s1, w1)" by fastforce
  obtain s2 w2 where 2: "note_hardware_id (trim_ws l) s1 w1 = (s2, w2)" by fastforce
  obtain s3 w3 where 3: "note_serial_number (trim_ws l) s2 w2 = (s3, w3)" by fastforce
  have "idle (snd sw) w1" "idle w1 w2" "idle w2 w3"
    using notes_idle(1) [of "snd sw" "trim_ws l" "fst sw"] notes_idle(2) [of w1 "trim_ws l" s1]
      notes_idle(3) [of w2 "trim_ws l" s2] 1 2 3 by simp_all
  with notes_idle(4) [of w3 nm "trim_ws l" s3] show ?thesis
    by (auto simp: note_line_def Let_def 1 2 3 intro: idle.trans)
qed

lemma fold_note_idle: "idle (snd sw) (snd (fold (note_line nm) ls sw))"
proof (induction ls arbitrary: sw)
  case Nil
  show ?case by simp
next
  case (Cons l ls)
  show ?case using idle.trans [OF note_line_idle Cons.IH] by simp
qed

lemma parse_known_idle: "idle w (snd (parse_known nm name bytes s w))"
proof -
  have hs: "idle w (snd (parse_host_status str s w))" for str s w
    by (simp add: parse_host_status_def observe_value_def now_def Let_def idle_def)
  show ?thesis
    using hs fold_note_idle [of "(s, w)" nm "text_lines (lossy_text bytes)"]
    by (auto simp: parse_known_def Let_def split: prod.splits) 
qed

text \<open>The bytes sent are beginnings of the given commands.\<close>

definition sends_commands :: "string \<Rightarrow> u8 list set \<Rightarrow> world \<Rightarrow> world \<Rightarrow> bool" where
  "sends_commands pid cmds w w' =
     (\<exists>bss. sends pid (concat bss) w w' \<and> (\<forall>b \<in> set bss. \<exists>q \<in> cmds. take (length b) q = b))"

interpretation sends_commands: respected "sends_commands pid cmds"
proof
  show "sends_commands pid cmds w w" for w
    unfolding sends_commands_def by (rule exI [of _ "[]"]) simp
  fix w1 w2 w3
  assume "sends_commands pid cmds w1 w2" and "sends_commands pid cmds w2 w3"
  then obtain a b where "sends pid (concat a) w1 w2" "\<forall>x \<in> set a. \<exists>q \<in> cmds. take (length x) q = x"
    "sends pid (concat b) w2 w3" "\<forall>x \<in> set b. \<exists>q \<in> cmds. take (length x) q = x"
    unfolding sends_commands_def by blast
  then show "sends_commands pid cmds w1 w3"
    unfolding sends_commands_def by (intro exI [of _ "a @ b"]) (auto intro: sends_trans)
qed

lemma idle_sends_commands: "idle w w' \<Longrightarrow> sends_commands pid cmds w w'"
  unfolding sends_commands_def by (rule exI [of _ "[]"]) (simp add: idle_sends [of _ _ pid])

lemma query_sends_commands:
  assumes "query pid t q fb w = Some (r, t', w')" and "q \<in> cmds"
  shows "sends_commands pid cmds w w'"
proof -
  obtain bs rest where "q = bs @ rest" "sends pid bs w w'"
    using query_prefix [OF assms(1)] by (auto simp: writes_prefix_def)
  with assms(2) show ?thesis
    unfolding sends_commands_def by (intro exI [of _ "[bs]"]) (auto intro!: bexI [of _ q])
qed

lemma sends_commands_mono: "sends_commands pid a w w' \<Longrightarrow> a \<subseteq> b \<Longrightarrow> sends_commands pid b w w'"
  unfolding sends_commands_def by blast

lemma base_loop_sends:
  "base_loop nm c qs any t s w = Some (any', t', s', w') \<Longrightarrow> snd ` set qs \<subseteq> cmds \<Longrightarrow>
     sends_commands (pc_id c) cmds w w'"
proof (induction qs arbitrary: any t s w)
  case Nil
  then show ?case by (simp add: sends_commands.refl)
next
  case (Cons nq qs)
  obtain name q where nq: "nq = (name, q)" by fastforce
  obtain r t1 w1 where qu: "query (pc_id c) t q (pc_first_byte_timeout_ms c) (advance w) = Some (r, t1, w1)"
    using Cons.prems nq by (auto simp: instant_def split: option.splits)
  have s1: "sends_commands (pc_id c) cmds w w1"
    using query_sends_commands [OF qu, of cmds] Cons.prems(2) nq
      sends_commands.trans [OF idle_sends_commands [of w "advance w"]] by simp
  show ?case
  proof (cases r)
    case (Inr resp)
    obtain s2 w2 where rr: "record_response name (qr_bytes resp) (qr_duration resp) None
        (qr_classification resp) s w1 = (s2, w2)" by fastforce
    obtain s3 w3 where pk: "parse_known nm name (qr_bytes resp) s2 w2 = (s3, w3)" by fastforce
    have "idle w1 w3"
      using record_response_idle [of w1 name "qr_bytes resp" "qr_duration resp" None "qr_classification resp" s]
        parse_known_idle [of w2 nm name "qr_bytes resp" s2] rr pk
      by (auto intro: idle.trans)
    with s1 have "sends_commands (pc_id c) cmds w w3"
      by (blast intro: sends_commands.trans idle_sends_commands)
    moreover have "base_loop nm c qs True t1 s3 w3 = Some (any', t', s', w')"
      using Cons.prems(1) nq qu Inr rr pk by (simp add: instant_def)
    ultimately show ?thesis using Cons.IH Cons.prems(2) by (auto intro: sends_commands.trans)
  next
    case (Inl e)
    obtain s2 w2 where rr: "record_response name [] (w_clock w1 - w_clock w) (Some e)
        ''transport_error'' s (advance w1) = (s2, w2)" by fastforce
    have "idle w1 w2"
      using record_response_idle [of "advance w1" name "[]" "w_clock w1 - w_clock w" "Some e"
          "''transport_error''" s] rr by simp
    with s1 have s2: "sends_commands (pc_id c) cmds w w2"
      by (blast intro: sends_commands.trans idle_sends_commands)
    show ?thesis
    proof (cases any)
      case True
      then have "base_loop nm c qs any t1 s2 w2 = Some (any', t', s', w')"
        using Cons.prems(1) nq qu Inl rr by (simp add: instant_def)
      with s2 Cons.IH Cons.prems(2) show ?thesis by (auto intro: sends_commands.trans)
    next
      case False
      with Cons.prems(1) nq qu Inl rr s2 show ?thesis by (simp add: instant_def)
    qed
  qed
qed

lemma set_capability_world [simp]: "set_capability n ow s = (x, w) \<Longrightarrow> w = snd ow"
  by (auto simp: set_capability_def)

lemma optional_loop_sends:
  "optional_loop c hc qs t s w = Some (t', s', w') \<Longrightarrow> snd ` set qs \<subseteq> cmds \<Longrightarrow>
     sends_commands (pc_id c) cmds w w'"
proof (induction qs arbitrary: t s w)
  case Nil
  then show ?case by (simp add: sends_commands.refl)
next
  case (Cons nq qs)
  obtain name q where nq: "nq = (name, q)" by fastforce
  show ?case
  proof (cases "name = ''odometer'' \<and> hc = Disabled")
    case True
    let ?w = "snd (observe_not_supported ''disabled_by_config'' w :: bool observed \<times> world)"
    have "\<exists>s2. optional_loop c hc qs t s2 ?w = Some (t', s', w')"
      using Cons.prems(1) nq True by (auto simp: Let_def set_capability_def)
    moreover have "sends_commands (pc_id c) cmds w ?w" by (simp add: idle_sends_commands)
    ultimately show ?thesis using Cons.IH Cons.prems(2) by (auto intro: sends_commands.trans)
  next
    case False
    obtain r t1 w1 where qu: "query (pc_id c) t q (pc_first_byte_timeout_ms c) (advance w) = Some (r, t1, w1)"
      using Cons.prems nq False by (auto simp: instant_def split: option.splits)
    have s1: "sends_commands (pc_id c) cmds w w1"
      using query_sends_commands [OF qu, of cmds] Cons.prems(2) nq
        sends_commands.trans [OF idle_sends_commands [of w "advance w"]] by simp
    have "\<exists>s2 w2. optional_loop c hc qs t1 s2 w2 = Some (t', s', w') \<and> idle w1 w2"
      using Cons.prems(1) nq False qu
      by (cases r)
        (auto simp: instant_def Let_def set_capability_def record_response_def now_def observe_value_def
            observe_not_supported_def observe_unavailable_def split: if_splits;
          rule exI, rule exI, rule conjI, assumption, simp add: idle_def)+
    then obtain s2 w2 where "idle w1 w2" "optional_loop c hc qs t1 s2 w2 = Some (t', s', w')" by blast
    moreover from this(2) have "sends_commands (pc_id c) cmds w2 w'" using Cons.IH Cons.prems(2) by auto
    ultimately show ?thesis
      using s1 by (blast intro: sends_commands.trans idle_sends_commands)
  qed
qed

lemma probe_finish_only: "only_files (with_tmps (SnapshotFile (pc_id c))) w (snd (probe_finish c cap any s w))"
proof -
  have at: "only_files (with_tmps (SnapshotFile (pc_id c))) v (snd (atomic_json (SnapshotFile (pc_id c)) d v))" for d v
    by (rule atomic_json_only_files)
  have mf: "only_files P v (snd (manual_feed s v))" for P v
    by (simp add: manual_feed_def observe_value_def observe_not_supported_def observe_unavailable_def
        now_def only_files.refl split: option.split value_state.split)
  obtain ob w1 where m: "manual_feed s w = (ob, w1)" by fastforce
  then have w1: "only_files (with_tmps (SnapshotFile (pc_id c))) w w1" using mf [of _ w] by (metis snd_conv)
  have fin: "only_files (with_tmps (SnapshotFile (pc_id c))) v
      (snd (atomic_json (SnapshotFile (pc_id c)) d (advance (advance v))))" for d v
    by (rule only_files_skip, rule only_files_skip, rule at)
  show ?thesis
    using fin only_files.trans [OF w1 fin]
    by (simp add: probe_finish_def m observe_value_def now_def Let_def)
qed

lemma probe_cases:
  assumes "probe nm c hc cap t s w = Some (r, t', s', w')"
  obtains (closed) e where "r = Inl e" "t' = None" "idle w w'"
    | (answered) any s3 w3 where "sends_commands (pc_id c) (snd ` set (BASE_QUERIES @ OPTIONAL_QUERIES)) w w3"
        "probe_finish c cap any s3 w3 = (s', w')" "is_ok r = any"
proof -
  let ?cmds = "snd ` set (BASE_QUERIES @ OPTIONAL_QUERIES)"
  obtain r1 t1 s1 w1 where en: "ensure_transport c t s w = (r1, t1, s1, w1)" using prod_cases4 by blast
  have id: "idle w w1" using ensure_transport_idle [OF en] by simp
  show ?thesis
  proof (cases r1)
    case (Inl e)
    then have "t1 = None" "r = Inl e" "t' = t1" "w' = w1"
      using en assms by (auto simp: ensure_transport_def probe_def Let_def split: if_splits sum.splits prod.splits)
    with id show ?thesis by (intro closed) simp_all
  next
    case (Inr u)
    then obtain any t2 s2 w2 where bl: "base_loop nm c BASE_QUERIES False (the t1) s1 w1 = Some (any, t2, s2, w2)"
      using assms en by (auto simp: probe_def split: option.splits)
    have c2: "sends_commands (pc_id c) ?cmds w w2"
      by (rule sends_commands.trans [OF idle_sends_commands [OF id] base_loop_sends [OF bl]]) auto
    obtain t3 s3 w3 where ol: "(if cap \<and> any then optional_loop c hc OPTIONAL_QUERIES t2 s2 w2
        else Some (t2, s2, w2)) = Some (t3, s3, w3)"
      using assms en Inr bl by (auto simp: probe_def split: option.splits)
    have "sends_commands (pc_id c) ?cmds w2 w3"
      using ol optional_loop_sends [of c hc OPTIONAL_QUERIES t2 s2 w2 t3 s3 w3 ?cmds]
      by (auto simp: sends_commands.refl split: if_splits)
    with c2 have "sends_commands (pc_id c) ?cmds w w3" by (rule sends_commands.trans)
    moreover have "probe_finish c cap any s3 w3 = (s', w')" "is_ok r = any"
      using assms en Inr bl ol by (auto simp: probe_def split: prod.splits if_splits)
    ultimately show ?thesis by (rule answered)
  qed
qed

text \<open>The printer answered: it was open or could be opened, and the first base query, on which
  the others depend, returned a response.\<close>

definition answers_probe :: "printer_config \<Rightarrow> transport option \<Rightarrow> printer_snapshot \<Rightarrow> world \<Rightarrow> bool" where
  "answers_probe c t s w =
     (\<exists>t1 s1 w1 resp t2 w2. ensure_transport c t s w = (Inr (), Some t1, s1, w1) \<and>
        query (pc_id c) t1 (bytes_of ''~HS'') (pc_first_byte_timeout_ms c) (advance w1) = Some (Inr resp, t2, w2))"

lemma base_loop_stays: "base_loop nm c qs True t s w = Some (any, t', s', w') \<Longrightarrow> any"
  by (induction qs arbitrary: t s w)
     (auto simp: Let_def split: prod.splits option.splits sum.splits)

lemma ensure_transport_opens:
  "ensure_transport c t s w = (Inr u, t1, s1, w1) \<Longrightarrow> t1 \<noteq> None"
  by (auto simp: ensure_transport_def Let_def split: if_splits prod.splits sum.splits)

lemma base_loop_first:
  assumes "base_loop nm c ((name, q) # qs) False t s w = Some (any, t', s', w')"
  shows "any \<longleftrightarrow> (\<exists>resp t2 w2. query (pc_id c) t q (pc_first_byte_timeout_ms c) (advance w) = Some (Inr resp, t2, w2))"
proof -
  obtain r t1 w1 where qu: "query (pc_id c) t q (pc_first_byte_timeout_ms c) (advance w) = Some (r, t1, w1)"
    using assms by (auto simp: instant_def split: option.splits)
  with assms show ?thesis
    by (cases r) (auto simp: instant_def Let_def dest: base_loop_stays split: prod.splits)
qed

lemma BASE_QUERIES_first: "\<exists>qs. BASE_QUERIES = (''host_status'', bytes_of ''~HS'') # qs"
  by (simp add: BASE_QUERIES_def)

lemma probe_success:
  assumes "probe nm c hc cap t s w = Some (r, t', s', w')"
  shows "is_ok r \<longleftrightarrow> answers_probe c t s w"
proof -
  obtain r1 t1 s1 w1 where en: "ensure_transport c t s w = (r1, t1, s1, w1)" using prod_cases4 by blast
  show ?thesis
  proof (cases r1)
    case (Inl e)
    with en assms show ?thesis by (auto simp: probe_def answers_probe_def)
  next
    case (Inr u)
    then obtain v where v: "t1 = Some v" using ensure_transport_opens en by blast
    obtain any t2 s2 w2 where bl: "base_loop nm c BASE_QUERIES False v s1 w1 = Some (any, t2, s2, w2)"
      using assms en Inr v by (auto simp: probe_def split: option.splits)
    have "is_ok r = any"
      using assms en Inr v bl by (auto simp: probe_def Let_def split: prod.splits if_splits option.splits)
    moreover obtain qs where "BASE_QUERIES = (''host_status'', bytes_of ''~HS'') # qs"
      using BASE_QUERIES_first by blast
    ultimately show ?thesis
      using base_loop_first [of nm c "''host_status''" "bytes_of ''~HS''" qs v s1 w1] bl en Inr v
      by (simp add: answers_probe_def)
  qed
qed

lemma closed_no_answer: "fst (open_transport c w) = Inl e \<Longrightarrow> \<not> answers_probe c None s w"
  by (cases "open_transport c w") (auto simp: answers_probe_def ensure_transport_def Let_def split: prod.splits)

lemma probe_transport:
  assumes "probe nm c hc cap t s w = Some (r, t', s', w')"
  shows "is_ok r \<Longrightarrow> t' \<noteq> None"
  using assms by (auto simp: probe_def Let_def split: prod.splits sum.splits option.splits)

text \<open>C31: a probe sends nothing but beginnings of the fixed read-only queries and changes no
  file but the stored snapshot of its printer. It reports success exactly when the printer
  was open or could be opened and answered the first base query, and then, and only then,
  it leaves an open printer whose snapshot says that the protocol is up. In particular a
  printer that cannot be opened makes it fail.\<close>

theorem probe_read_only:
  assumes "probe nm c hc cap t s w = Some (r, t', s', w')"
  shows "(\<exists>bss. w_wire w' = (w_wire w)(pc_id c := w_wire w (pc_id c) @ concat bss) \<and>
       (\<forall>b \<in> set bss. \<exists>q \<in> snd ` set (BASE_QUERIES @ OPTIONAL_QUERIES). take (length b) q = b) \<and>
       (\<forall>p. p \<notin> with_tmps (SnapshotFile (pc_id c)) \<longrightarrow> lookup p w' = lookup p w)) \<and>
     (is_ok r \<longleftrightarrow> answers_probe c t s w) \<and>
     (is_ok r \<longleftrightarrow> t' \<noteq> None \<and> obs_value (ts_protocol_up (sn_transport s')) = Some True) \<and>
     (\<forall>e. t = None \<and> fst (open_transport c w) = Inl e \<longrightarrow> \<not> is_ok r)"
  using assms
proof (cases rule: probe_cases)
  case (closed e)
  then show ?thesis
    using probe_success [OF assms] closed_no_answer [of c w _ s]
    by (intro conjI exI [of _ "[]"]) (auto simp: idle_def lookup_def)
next
  case (answered any s3 w3)
  have fr: "only_files (with_tmps (SnapshotFile (pc_id c))) w3 w'"
    using probe_finish_only [of c w3 cap any s3] answered(2) by simp
  have up: "obs_value (ts_protocol_up (sn_transport s')) = Some any"
    using answered(2) by (auto simp: probe_finish_def observe_value_def observed_value_def now_def Let_def
        split: prod.splits)
  obtain bss where "sends (pc_id c) (concat bss) w w3"
    "\<forall>b \<in> set bss. \<exists>q \<in> snd ` set (BASE_QUERIES @ OPTIONAL_QUERIES). take (length b) q = b"
    using answered(1) by (auto simp: sends_commands_def)
  then have "\<exists>bss. w_wire w' = (w_wire w)(pc_id c := w_wire w (pc_id c) @ concat bss) \<and>
       (\<forall>b \<in> set bss. \<exists>q \<in> snd ` set (BASE_QUERIES @ OPTIONAL_QUERIES). take (length b) q = b) \<and>
       (\<forall>p. p \<notin> with_tmps (SnapshotFile (pc_id c)) \<longrightarrow> lookup p w' = lookup p w)"
    using fr by (intro exI [of _ bss]) (auto simp: sends_def only_files_def lookup_def)
  moreover have "is_ok r \<longleftrightarrow> answers_probe c t s w" by (rule probe_success [OF assms])
  moreover have "is_ok r \<longleftrightarrow> t' \<noteq> None \<and> obs_value (ts_protocol_up (sn_transport s')) = Some True"
    using up answered(3) probe_transport [OF assms] by auto
  ultimately show ?thesis using closed_no_answer [of c w _ s] by blast
qed

theorem probe_read_only_witness:
  "\<exists>r t s w'. probe sample_numeric sample_printer Disabled True
       (Some (Usb \<lparr>usb_interface = 0, usb_in_endpoint = None, usb_out_endpoint = 1\<rparr>))
       (new_snapshot 0 ''p'') (world_with []) = Some (r, t, s, w') \<and>
     lookup (JobFile 7) w' = None"
proof -
  let ?t = "Usb \<lparr>usb_interface = 0, usb_in_endpoint = None, usb_out_endpoint = 1\<rparr>"
  obtain r t sw where
    "probe sample_numeric sample_printer Disabled True (Some ?t) (new_snapshot 0 ''p'') (world_with []) = Some (r, t, sw)"
    by (simp add: probe_def ensure_transport_def BASE_QUERIES_def instant_def query_def usb_query_def
        record_response_def now_def Let_def)
  then obtain s w' where
    run: "probe sample_numeric sample_printer Disabled True (Some ?t) (new_snapshot 0 ''p'') (world_with []) =
      Some (r, t, s, w')"
    by (cases sw) auto
  have "JobFile 7 \<notin> with_tmps (SnapshotFile (pc_id sample_printer))" by (auto simp: with_tmps_def)
  with probe_read_only [OF run] run show ?thesis by fastforce
qed

lemma touches_probe:
  assumes "probe nm c hc cap t s w = Some (r, t', s', w')"
  shows "touches (with_tmps (SnapshotFile (pc_id c))) w w'"
  using assms
proof (cases rule: probe_cases)
  case (closed e)
  then show ?thesis by (auto simp: idle_def intro: touches_files)
next
  case (answered any s3 w3)
  have "touches (with_tmps (SnapshotFile (pc_id c))) w w3"
    using answered(1) by (auto simp: sends_commands_def sends_def intro: touches_files)
  moreover have "touches (with_tmps (SnapshotFile (pc_id c))) w3 w'"
    using probe_finish_only [of c w3 cap any s3] answered(2) by (auto intro: touches_only_files)
  ultimately show ?thesis by (rule touches.trans)
qed

end
