(* ===== verification/Worker.thy ===== *)
theory Worker
  imports Probe
begin

text \<open>
  The thread of a printer: \<open>spawn\<close>, \<open>run\<close> and the control operations of
  \<open>src/worker.rs\<close>. The state of the thread is a record, one turn of its loop is a function,
  and a run is the closure of the turns. A command that never returns (a query of a device
  without a bound) is \<open>None\<close>.
\<close>

section \<open>State, commands and answers\<close>

record worker_options =
  wo_storage :: storage_mode
  wo_reconnect_debounce_secs :: u64
  wo_reconnect_loss_labels :: u64
  wo_hardware_counters :: hardware_counter_policy

record worker =
  wk_queue :: "uuid list"
  wk_paused :: bool
  wk_transport :: "transport option"
  wk_ever_connected :: bool
  wk_disconnected_at :: "nat option"   \<comment> \<open>a reading of the monotonic clock\<close>
  wk_snapshot :: printer_snapshot

text \<open>The closures that the service passes to \<open>WorkerHandle::control\<close>.\<close>

datatype control_op =
    ReadDevice
  | SaveDevice save_request
  | Maintenance string
  | MediaLoad media_definition
  | MediaEdit string media_definition
  | MediaUnload
  | MediaAdjust media_adjustment

datatype command =
    Control control_op
  | Probe bool
  | Enqueue uuid
  | SetQueuePaused bool
  | Cancel uuid

datatype answer =
    Observed observation
  | Reported save_report
  | Maintained string string u64
  | Rolled media_state
  | Unloaded
  | Acknowledged

text \<open>What the thread is given: the numeric parts, the digest of a roll, its printer and its
  options.\<close>

record worker_context =
  wc_numeric :: numeric
  wc_digest :: "time \<times> media_definition \<Rightarrow> string"
  wc_config :: printer_config
  wc_options :: worker_options

abbreviation wc_pid :: "worker_context \<Rightarrow> string" where
  "wc_pid x \<equiv> pc_id (wc_config x)"

section \<open>Operations on the device\<close>

text \<open>\<open>read_device\<close>, \<open>save_device\<close> and \<open>maintenance\<close>: each connects first and then uses the
  transport.\<close>

definition connected :: "worker_context \<Rightarrow> worker \<Rightarrow> world \<Rightarrow>
    (transport \<Rightarrow> world \<Rightarrow> ((string + answer) \<times> transport \<times> world) option) \<Rightarrow>
    ((string + answer) \<times> worker \<times> world) option" where
  "connected x wk w k =
     (case ensure_transport (wc_config x) (wk_transport wk) (wk_snapshot wk) w of
        (Inl e, t, s, w) \<Rightarrow> Some (Inl e, wk\<lparr>wk_transport := t, wk_snapshot := s\<rparr>, w)
      | (Inr _, t, s, w) \<Rightarrow>
          map_option (\<lambda>(r, t, w). (r, wk\<lparr>wk_transport := Some t, wk_snapshot := s\<rparr>, w))
            (k (the t) w))"

definition read_device :: "worker_context \<Rightarrow> transport \<Rightarrow> world \<Rightarrow>
    ((string + answer) \<times> transport \<times> world) option" where
  "read_device x t w =
     bindQ (read_configuration (wc_numeric x) (wc_config x) t w) (\<lambda>observed t w.
     bindQ (filesQ (atomic_json (ConfigurationFile (wc_pid x)) (DObservation observed) w) t) (\<lambda>_ t w.
       Some (Inr (Observed observed), t, w)))"

definition save_device :: "worker_context \<Rightarrow> save_request \<Rightarrow> transport \<Rightarrow> world \<Rightarrow>
    ((string + answer) \<times> transport \<times> world) option" where
  "save_device x r t w =
     bindQ (save_configuration (wc_numeric x) (wc_config x) r t w) (\<lambda>report t w.
       Some (Inr (Reported report), t, w))"

text \<open>The command, its description and the labels it uses up.\<close>

definition maintenance_action :: "string \<Rightarrow> (u8 list \<times> string \<times> u64) option" where
  "maintenance_action action =
     (if action = ''print-configuration''
      then Some (bytes_of (''~WC'' @ newline), ''Print Zebra configuration label'', 1)
      else if action = ''print-network-configuration''
      then Some (bytes_of (''~WL'' @ newline), ''Print Zebra network configuration label'', 1)
      else if action = ''calibrate-media''
      then Some (bytes_of (''~JC'' @ newline), ''Calibrate Zebra media sensors'', 0)
      else None)"

definition run_maintenance :: "worker_context \<Rightarrow> string \<Rightarrow> u8 list \<times> string \<times> u64 \<Rightarrow> transport \<Rightarrow> world \<Rightarrow>
    ((string + answer) \<times> transport \<times> world) option" where
  "run_maintenance x action a t w =
     (case a of (bytes, description, labels) \<Rightarrow>
       bindQ (Some (write_bytes (wc_pid x) t bytes w)) (\<lambda>_ t w.
         let w = (if labels > 0 then apply_maintenance_media_loss (wc_pid x) labels action w else w)
         in Some (Inr (Maintained action description (of_nat (length bytes))), t, w)))"

definition maintenance :: "worker_context \<Rightarrow> string \<Rightarrow> worker \<Rightarrow> world \<Rightarrow>
    ((string + answer) \<times> worker \<times> world) option" where
  "maintenance x action wk w =
     (case maintenance_action action of
        None \<Rightarrow> Some (Inl ''unsupported_maintenance_action'', wk, w)
      | Some a \<Rightarrow> connected x wk w (run_maintenance x action a))"

text \<open>Operations on the media need no transport.\<close>

definition on_media :: "(media_state \<Rightarrow> answer) \<Rightarrow> (string + media_state) \<times> world \<Rightarrow> worker \<Rightarrow>
    ((string + answer) \<times> worker \<times> world) option" where
  "on_media f m wk = (case m of (r, w) \<Rightarrow> Some (map_sum id f r, wk, w))"

fun control :: "worker_context \<Rightarrow> control_op \<Rightarrow> worker \<Rightarrow> world \<Rightarrow>
    ((string + answer) \<times> worker \<times> world) option" where
  "control x ReadDevice wk w = connected x wk w (read_device x)"
| "control x (SaveDevice r) wk w = connected x wk w (save_device x r)"
| "control x (Maintenance action) wk w = maintenance x action wk w"
| "control x (MediaLoad d) wk w = on_media Rolled (media_load (wc_pid x) d w) wk"
| "control x (MediaEdit expected d) wk w = on_media Rolled (media_edit (wc_digest x) (wc_pid x) expected d w) wk"
| "control x MediaUnload wk w =
     (case media_unload (wc_pid x) w of (r, w) \<Rightarrow> Some (map_sum id (\<lambda>_. Unloaded) r, wk, w))"
| "control x (MediaAdjust a) wk w = on_media Rolled (media_adjust (wc_pid x) a w) wk"

section \<open>The commands of the loop\<close>

definition set_queue_depth :: "u64 \<Rightarrow> worker \<Rightarrow> worker" where
  "set_queue_depth n wk = wk\<lparr>wk_snapshot := (wk_snapshot wk)\<lparr>sn_jobs :=
     (sn_jobs (wk_snapshot wk))\<lparr>js_queue_depth := n\<rparr>\<rparr>\<rparr>"

definition set_snapshot_paused :: "bool \<Rightarrow> worker \<Rightarrow> worker" where
  "set_snapshot_paused b wk = wk\<lparr>wk_snapshot := (wk_snapshot wk)\<lparr>sn_jobs :=
     (sn_jobs (wk_snapshot wk))\<lparr>js_queue_paused := b\<rparr>\<rparr>\<rparr>"

text \<open>A reconnection after the debounce time costs labels; an absence is dated by its first
  failed probe.\<close>

definition probe_succeeded :: "worker_context \<Rightarrow> worker \<Rightarrow> world \<Rightarrow> worker \<times> world" where
  "probe_succeeded x wk w =
     (let opts = wc_options x;
          w = (if wk_ever_connected wk
               then (case wk_disconnected_at wk of
                       None \<Rightarrow> w
                     | Some at \<Rightarrow>
                         (let (t, w) = instant w
                          in if t - at \<ge> unat (wo_reconnect_debounce_secs opts) * 1000000000
                             then apply_reconnect_loss (wc_pid x) (wo_reconnect_loss_labels opts) w
                             else w))
               else w)
      in (wk\<lparr>wk_ever_connected := True, wk_disconnected_at := None\<rparr>, w))"

definition probe_failed :: "worker \<Rightarrow> world \<Rightarrow> worker \<times> world" where
  "probe_failed wk w =
     (if wk_ever_connected wk
      then (case wk_disconnected_at wk of
              Some _ \<Rightarrow> (wk\<lparr>wk_transport := None\<rparr>, w)
            | None \<Rightarrow> (let (t, w) = instant w
                       in (wk\<lparr>wk_disconnected_at := Some t, wk_transport := None\<rparr>, w)))
      else (wk, w))"

definition handle_probe :: "worker_context \<Rightarrow> bool \<Rightarrow> worker \<Rightarrow> world \<Rightarrow>
    ((string + answer) \<times> worker \<times> world) option" where
  "handle_probe x capabilities wk w =
     (case probe (wc_numeric x) (wc_config x) (wo_hardware_counters (wc_options x)) capabilities
             (wk_transport wk) (wk_snapshot wk) w of
        None \<Rightarrow> None
      | Some (r, t, s, w) \<Rightarrow>
          (let wk = wk\<lparr>wk_transport := t, wk_snapshot := s\<rparr>;
               (wk, w) = (if is_ok r then probe_succeeded x wk w else probe_failed wk w)
           in Some (map_sum id (\<lambda>_. Acknowledged) r, wk, w)))"

definition handle_enqueue :: "worker_context \<Rightarrow> uuid \<Rightarrow> worker \<Rightarrow> world \<Rightarrow>
    (string + answer) \<times> worker \<times> world" where
  "handle_enqueue x jid wk w =
     (let candidate = wk_queue wk @ [jid]
      in case save_queue (wc_pid x) candidate w of
           (Inl e, w) \<Rightarrow> (Inl e, wk, w)
         | (Inr _, w) \<Rightarrow>
             (Inr Acknowledged,
              set_queue_depth (of_nat (length candidate)) (wk\<lparr>wk_queue := candidate\<rparr>), w))"

definition handle_pause :: "worker_context \<Rightarrow> bool \<Rightarrow> worker \<Rightarrow> world \<Rightarrow>
    (string + answer) \<times> worker \<times> world" where
  "handle_pause x paused wk w =
     (case save_queue_paused (wc_pid x) paused w of
        (Inl e, w) \<Rightarrow> (Inl e, wk, w)
      | (Inr _, w) \<Rightarrow> (Inr Acknowledged, set_snapshot_paused paused (wk\<lparr>wk_paused := paused\<rparr>), w))"

text \<open>The first occurrence of the job leaves the queue.\<close>

definition handle_cancel :: "worker_context \<Rightarrow> uuid \<Rightarrow> worker \<Rightarrow> world \<Rightarrow>
    (string + answer) \<times> worker \<times> world" where
  "handle_cancel x jid wk w =
     (if jid \<in> set (wk_queue wk) then
        (case load_job jid w of
           (Inl e, w) \<Rightarrow> (Inl e, wk, w)
         | (Inr j, w) \<Rightarrow>
             (let (at, w) = now w;
                  j = j\<lparr>job_state := Cancelled, job_updated_at := at, job_error := None\<rparr>
              in case save_job j w of
                   (Inl e, w) \<Rightarrow> (Inl e, wk, w)
                 | (Inr _, w) \<Rightarrow>
                     (let candidate = remove1 jid (wk_queue wk)
                      in case save_queue (wc_pid x) candidate w of
                           (Inl e, w) \<Rightarrow> (Inl e, wk, w)
                         | (Inr _, w) \<Rightarrow>
                             (Inr Acknowledged,
                              set_queue_depth (of_nat (length candidate)) (wk\<lparr>wk_queue := candidate\<rparr>),
                              emit ''job_cancelled'' (wc_pid x) jid (JObject []) w))))
      else (Inl ''job_is_not_waiting_in_queue'', wk, w))"

fun handle :: "worker_context \<Rightarrow> command \<Rightarrow> worker \<Rightarrow> world \<Rightarrow>
    ((string + answer) \<times> worker \<times> world) option" where
  "handle x (Control c) wk w = control x c wk w"
| "handle x (Probe capabilities) wk w = handle_probe x capabilities wk w"
| "handle x (Enqueue jid) wk w = Some (handle_enqueue x jid wk w)"
| "handle x (SetQueuePaused b) wk w = Some (handle_pause x b wk w)"
| "handle x (Cancel jid) wk w = Some (handle_cancel x jid wk w)"

section \<open>The loop\<close>

text \<open>The branch that serves the queue: the job is taken out of the stored queue before it
  is processed; if that fails it goes back to the front.\<close>

definition serve :: "worker_context \<Rightarrow> uuid \<Rightarrow> uuid list \<Rightarrow> worker \<Rightarrow> world \<Rightarrow> worker \<times> world" where
  "serve x jid rest wk w =
     (case save_queue (wc_pid x) rest w of
        (Inl _, w) \<Rightarrow> (wk, sleep_ms 100 w)
      | (Inr _, w) \<Rightarrow>
          (let wk = set_queue_depth (of_nat (length rest) + 1) (wk\<lparr>wk_queue := rest\<rparr>);
               (s, t, w) = process_job jid (wc_config x) (wo_storage (wc_options x))
                             (wk_snapshot wk) (wk_transport wk) w
           in (set_queue_depth (of_nat (length rest)) (wk\<lparr>wk_snapshot := s, wk_transport := t\<rparr>), w)))"

text \<open>The start of the thread, by \<open>spawn\<close> and the head of \<open>run\<close>.\<close>

definition initial_snapshot :: "printer_config \<Rightarrow> world \<Rightarrow> printer_snapshot \<times> world" where
  "initial_snapshot c w =
     (let (t, w) = now w; s = new_snapshot t (pc_id c)
      in case pc_model_hint c of
           None \<Rightarrow> (s, w)
         | Some m \<Rightarrow>
             (let (v, w) = observe_value m None ''config_hint'' w
              in (s\<lparr>sn_identity := (sn_identity s)\<lparr>id_model := v\<rparr>\<rparr>, w)))"

definition result_or :: "'a \<Rightarrow> 'e + 'a \<Rightarrow> 'a" where
  "result_or d r = (case r of Inl _ \<Rightarrow> d | Inr v \<Rightarrow> v)"

definition start_worker :: "worker_context \<Rightarrow> world \<Rightarrow> worker \<times> world" where
  "start_worker x w =
     (let (s, w) = initial_snapshot (wc_config x) w;
          (q, w) = load_queue (wc_pid x) w;
          (p, w) = load_queue_paused (wc_pid x) w
      in (set_snapshot_paused (result_or False p)
            \<lparr>wk_queue = result_or [] q, wk_paused = result_or False p, wk_transport = None,
             wk_ever_connected = False, wk_disconnected_at = None, wk_snapshot = s\<rparr>, w))"

text \<open>One turn of the loop. While the queue is served no command is received; otherwise the
  thread waits for one.\<close>

datatype turn = Served uuid | Answered command "string + answer"

inductive turn_step :: "worker_context \<Rightarrow> worker \<times> world \<Rightarrow> turn \<Rightarrow> worker \<times> world \<Rightarrow> bool"
  for x :: worker_context where
  serve: "\<not> wk_paused wk \<Longrightarrow> wk_queue wk = jid # rest \<Longrightarrow>
     turn_step x (wk, w) (Served jid) (serve x jid rest wk w)"
| receive: "wk_paused wk \<or> wk_queue wk = [] \<Longrightarrow> handle x cmd wk w = Some (r, wk', w') \<Longrightarrow>
     turn_step x (wk, w) (Answered cmd r) (wk', w')"

inductive_cases turn_stepE: "turn_step x s l s'"

section \<open>The files of a turn\<close>

definition job_paths :: "uuid \<Rightarrow> string \<Rightarrow> path set" where
  "job_paths jid pid = with_tmps (JobFile jid) \<union> {EventLog} \<union> media_paths pid \<union> {PayloadFile jid}"

lemma touches_within:
  "only_files Q w w' \<Longrightarrow> Q \<subseteq> P \<Longrightarrow> touches P w w'"
  by (rule touches_mono [OF touches_only_files])

lemma touches_save_job:
  assumes "save_job j w = (r, w')" and "job_id j = jid"
  shows "touches (job_paths jid pid) w w'"
proof (rule touches_within)
  show "only_files (with_tmps (JobFile jid)) w w'"
    using only_files_save_job [of j w] assms by simp
qed (auto simp: job_paths_def)

lemma touches_emit: "EventLog \<in> P \<Longrightarrow> touches P w (emit kind pid jid data w)"
  by (rule touches_within [OF only_files_emit]) simp

lemma touches_finish_job:
  assumes "finish_job c storage jid r j t w = (j', t', w')" and "payload_ok j" and "job_id j = jid"
  shows "touches (job_paths jid (pc_id c)) w w' \<and> job_id j' = jid"
proof (cases r)
  case (Inl f)
  with assms show ?thesis by (auto simp: finish_job_def now_def Let_def)
next
  case (Inr bytes)
  let ?P = "job_paths jid (pc_id c)"
  let ?j = "j\<lparr>job_bytes_transferred := bytes, job_state := TransportAccepted,
    job_updated_at := env_utc (w_env w) (w_tick w)\<rparr>"
  let ?e = "emit ''job_transport_accepted'' (pc_id c) jid (JObject [(''bytes'', JNat bytes)])
    (snd (save_job ?j (advance w)))"
  let ?w = "consume_media (pc_id c) ?j ?e"
  have "touches ?P (advance w) (snd (save_job ?j (advance w)))"
    by (rule touches_save_job [OF prod.collapse [symmetric]]) (simp add: assms(3))
  moreover have "touches ?P (snd (save_job ?j (advance w))) ?e" by (rule touches_emit) (simp add: job_paths_def)
  moreover have "touches ?P ?e ?w"
    by (rule touches_within [OF only_files_consume]) (auto simp: job_paths_def)
  ultimately have w1: "touches ?P w ?w"
    by (blast intro: touches.trans touches_advance(1))
  have rm: "touches ?P v (snd (remove_file p v))" if "job_payload_path j = Some p" for p v
    using that assms(2,3)
    by (intro touches_within [OF only_files_remove_any]) (auto simp: payload_ok_def job_paths_def)
  show ?thesis
    using assms Inr w1 touches.trans [OF w1 rm]
    by (auto simp: finish_job_def now_def Let_def split: if_splits option.splits)
qed

lemma touches_attempts:
  assumes "attempt_loop c as result j t s w = (r, j', t', s', w')"
  shows "touches P w w'" "job_id j' = job_id j" "payload_ok j \<Longrightarrow> payload_ok j'"
proof -
  obtain bs n where b: "sends (pc_id c) bs w w'" "j' = j\<lparr>job_delivery_attempts := n\<rparr>"
    using attempt_loop_sends [OF assms] by blast
  then show "touches P w w'" by (auto simp: sends_def intro: touches_files)
  show "job_id j' = job_id j" "payload_ok j \<Longrightarrow> payload_ok j'" using b(2) by (simp_all add: payload_ok_def)
qed

lemma touches_process_job:
  assumes "process_job jid c storage s t w = (s', t', w')" and "jobs_keyed w"
  shows "touches (job_paths jid (pc_id c)) w w'"
  using assms(1)
proof (cases rule: process_job_cases)
  case untouched
  show ?thesis by (rule touches_within [OF untouched(1)]) simp
next
  case (unmarked j w1 at e)
  have "job_id j = jid" using unmarked(1) assms(2) by (simp add: jobs_keyed_def)
  then have "touches (job_paths jid (pc_id c)) w1 w'" by (intro touches_save_job [OF unmarked(4)]) simp
  with unmarked(3) show ?thesis by (blast intro: touches.trans touches_within)
next
  case (delivered j w1 at w2 r j1 t1 s1 w3 j2 t2 w4)
  let ?P = "job_paths jid (pc_id c)"
  let ?j = "j\<lparr>job_state := Writing, job_updated_at := at\<rparr>"
  have j: "job_id ?j = jid" "payload_ok ?j"
    using delivered(1) assms(2) by (auto simp: jobs_keyed_def payload_ok_def)
  note al = touches_attempts [OF delivered(5)]
  have "touches ?P w w1" by (rule touches_within [OF delivered(3)]) simp
  moreover have "touches ?P w1 w2"
    by (rule touches_save_job [OF delivered(4)]) (rule j(1))
  moreover have "touches ?P w2 w3"
    by (rule touches.trans [OF touches_emit al(1)]) (simp add: job_paths_def)
  moreover have fin: "touches ?P w3 w4" "job_id j2 = jid"
    using touches_finish_job [OF delivered(6)] al(2,3) j by simp_all
  moreover have "touches ?P w4 (snd (save_job j2 w4))"
    by (rule touches_save_job [OF prod.collapse [symmetric]]) (rule fin(2))
  ultimately show ?thesis
    unfolding delivered(7) by (meson touches.trans touches_advance(1))
qed

section \<open>The files of a command\<close>

definition command_paths :: "string \<Rightarrow> path set" where
  "command_paths pid = settings_paths pid \<union> media_paths pid \<union> with_tmps (SnapshotFile pid) \<union>
     with_tmps (QueueFile pid) \<union> with_tmps (QueuePausedFile pid)"

lemma no_job_command [simp]: "no_job_file (command_paths pid)"
  by (auto simp: command_paths_def media_paths_def no_job_file_def settings_paths_def with_tmps_def)

lemma command_paths_parts:
  "settings_paths pid \<subseteq> command_paths pid" "media_paths pid \<subseteq> command_paths pid"
  "with_tmps (SnapshotFile pid) \<subseteq> command_paths pid" "with_tmps (QueueFile pid) \<subseteq> command_paths pid"
  "with_tmps (QueuePausedFile pid) \<subseteq> command_paths pid"
  by (auto simp: command_paths_def)

text \<open>What a control operation or a probe leaves alone: the queue of the thread and every
  file of a job.\<close>

definition steady :: "worker_context \<Rightarrow> worker \<Rightarrow> world \<Rightarrow> worker \<Rightarrow> world \<Rightarrow> bool" where
  "steady x wk w wk' w' =
     (touches (command_paths (wc_pid x)) w w' \<and> wk_queue wk' = wk_queue wk \<and> wk_paused wk' = wk_paused wk)"

lemma touches_ensure:
  "ensure_transport c t s w = (r, t', s', w') \<Longrightarrow> touches P w w'"
  by (drule ensure_transport_idle) (auto simp: idle_def intro: touches_files)

lemma connected_steady:
  assumes "connected x wk w k = Some (r, wk', w')"
    and "\<And>t v q t' v'. k t v = Some (q, t', v') \<Longrightarrow> touches (command_paths (wc_pid x)) v v'"
  shows "steady x wk w wk' w'"
proof -
  obtain r1 t1 s1 w1 where en:
    "ensure_transport (wc_config x) (wk_transport wk) (wk_snapshot wk) w = (r1, t1, s1, w1)"
    using prod_cases4 by blast
  have "touches (command_paths (wc_pid x)) w w1" by (rule touches_ensure [OF en])
  with en assms show ?thesis
    by (auto simp: connected_def steady_def split: sum.splits intro: touches.trans)
qed

lemma read_device_touches:
  "read_device x t w = Some (r, t', w') \<Longrightarrow> touches (command_paths (wc_pid x)) w w'"
  by (auto simp: read_device_def bindQ_Some filesQ_Some
      dest!: touches_read_configuration touches_settings
      intro: touches.trans touches_mono [OF _ command_paths_parts(1)])

lemma save_device_touches:
  "save_device x q t w = Some (r, t', w') \<Longrightarrow> touches (command_paths (wc_pid x)) w w'"
  by (auto simp: save_device_def bindQ_Some dest!: touches_save_configuration
      intro: touches_mono [OF _ command_paths_parts(1)])

lemma maintenance_touches:
  assumes "run_maintenance x action a t w = Some (r, t', w')"
  shows "touches (command_paths (wc_pid x)) w w'"
proof -
  have loss: "touches (command_paths (wc_pid x)) v (apply_maintenance_media_loss (wc_pid x) n action v)" for n v
    by (rule touches_within [OF debits_only [OF debits_maintenance] command_paths_parts(2)])
  show ?thesis
    using assms
    by (auto simp: run_maintenance_def bindQ_Some Let_def split: prod.splits if_splits
        dest!: sym [of "Some _"] touches_write_bytes
        intro: touches.trans loss)
qed

lemma on_media_steady:
  assumes "on_media f m wk = Some (r, wk', w')" and "only_files (media_paths (wc_pid x)) w (snd m)"
  shows "steady x wk w wk' w'"
  using assms touches_within [OF assms(2) command_paths_parts(2)]
  by (auto simp: on_media_def steady_def split: prod.splits)

lemma control_steady:
  assumes "control x c wk w = Some (r, wk', w')"
  shows "steady x wk w wk' w'"
proof (cases c)
  case ReadDevice
  with assms show ?thesis by (auto intro: connected_steady read_device_touches)
next
  case (SaveDevice q)
  with assms show ?thesis by (auto intro: connected_steady save_device_touches)
next
  case (Maintenance action)
  with assms show ?thesis
    by (auto simp: maintenance_def steady_def touches.refl split: option.splits
        dest!: connected_steady intro: maintenance_touches)
next
  case (MediaLoad d)
  with assms show ?thesis by (auto intro: on_media_steady only_files_media_load)
next
  case (MediaEdit e d)
  with assms show ?thesis by (auto intro: on_media_steady only_files_edit)
next
  case MediaUnload
  have "touches (command_paths (wc_pid x)) w (snd (media_unload (wc_pid x) w))"
    by (rule touches_within [OF only_files_unload command_paths_parts(2)])
  with MediaUnload assms show ?thesis by (auto simp: steady_def split: prod.splits)
next
  case (MediaAdjust a)
  with assms show ?thesis by (auto intro: on_media_steady only_files_adjust)
qed

end
