(* ===== verification/Worker_Queue.thy ===== *)
theory Worker_Queue
  imports Worker
begin

text \<open>
  The queue of a printer thread. The thread keeps its queue sound (every waiting job is
  stored, distinct, and was not started), implements a first-in first-out queue with
  removal and a pause switch, moves jobs along their life cycle only, and hands the bytes
  of a job to the printer at most once however long it runs.
\<close>

section \<open>Soundness of the queue\<close>

definition waits :: "string \<Rightarrow> world \<Rightarrow> uuid \<Rightarrow> bool" where
  "waits pid w jid = (\<exists>j. jobs_of w jid = Some j \<and> job_state j \<in> {Queued, Cancelled} \<and>
     job_printer_id j = pid)"

definition sound_queue :: "string \<Rightarrow> worker \<Rightarrow> world \<Rightarrow> bool" where
  "sound_queue pid wk w =
     (jobs_keyed w \<and> distinct (wk_queue wk) \<and> (\<forall>jid \<in> set (wk_queue wk). waits pid w jid))"

text \<open>The service enqueues a job once, after it has stored it as queued.\<close>

fun admitted :: "string \<Rightarrow> worker \<Rightarrow> world \<Rightarrow> turn \<Rightarrow> bool" where
  "admitted pid wk w (Answered (Enqueue jid) r) =
     (jid \<notin> set (wk_queue wk) \<and>
      (\<exists>j. jobs_of w jid = Some j \<and> job_state j = Queued \<and> job_printer_id j = pid))"
| "admitted pid wk w _ = True"

lemma waits_same: "jobs_of w' = jobs_of w \<Longrightarrow> waits pid w' = waits pid w"
  by (simp add: waits_def fun_eq_iff)

lemma waits_other: "jobs_of w' = (jobs_of w)(jid := a) \<Longrightarrow> i \<noteq> jid \<Longrightarrow> waits pid w' i = waits pid w i"
  by (simp add: waits_def)

lemma keyed_same: "jobs_of w' = jobs_of w \<Longrightarrow> jobs_keyed w' = jobs_keyed w"
  by (simp add: jobs_keyed_def)

lemma steady_jobs: "steady x wk w wk' w' \<Longrightarrow> jobs_of w' = jobs_of w"
  by (auto simp: steady_def intro: touches_jobs)

lemma touches_debits:
  "touches (command_paths pid) w (apply_reconnect_loss pid n w)"
  by (rule touches_within [OF debits_only [OF debits_reconnect] command_paths_parts(2)])

lemma probe_succeeded_simps [simp]:
  "wk_queue (fst (probe_succeeded x k w)) = wk_queue k"
  "wk_paused (fst (probe_succeeded x k w)) = wk_paused k"
  by (simp_all add: probe_succeeded_def Let_def split: prod.split)

lemma probe_failed_simps [simp]:
  "wk_queue (fst (probe_failed k w)) = wk_queue k"
  "wk_paused (fst (probe_failed k w)) = wk_paused k"
  by (simp_all add: probe_failed_def Let_def split: prod.split option.split)

lemma probe_outcome_touches:
  "touches (command_paths (wc_pid x)) w (snd (probe_succeeded x k w))"
  "touches (command_paths (wc_pid x)) w (snd (probe_failed k w))"
  using touches.trans [OF touches_advance(1) touches_debits]
  by (simp_all add: probe_succeeded_def probe_failed_def instant_def Let_def touches.refl
      split: option.split)

lemma handle_probe_steady:
  assumes "handle_probe x b wk w = Some (r, wk', w')"
  shows "steady x wk w wk' w'"
proof -
  obtain r1 t s w1 where pr: "probe (wc_numeric x) (wc_config x) (wo_hardware_counters (wc_options x)) b
      (wk_transport wk) (wk_snapshot wk) w = Some (r1, t, s, w1)"
    using assms by (auto simp: handle_probe_def split: option.splits)
  have w1: "touches (command_paths (wc_pid x)) w w1"
    by (rule touches_mono [OF touches_probe [OF pr] command_paths_parts(3)])
  let ?wk = "wk\<lparr>wk_transport := t, wk_snapshot := s\<rparr>"
  let ?m = "if is_ok r1 then probe_succeeded x ?wk w1 else probe_failed ?wk w1"
  have "wk' = fst ?m" "w' = snd ?m"
    using assms pr by (simp_all add: handle_probe_def Let_def split: prod.splits)
  then show ?thesis
    using touches.trans [OF w1 probe_outcome_touches(1)] touches.trans [OF w1 probe_outcome_touches(2)]
    by (simp add: steady_def)
qed

section \<open>Every turn\<close>

text \<open>What a turn does, by command.\<close>

lemma save_queue_files:
  "save_queue pid q w = (r, w') \<Longrightarrow> only_files (with_tmps (QueueFile pid)) w w'"
  using queues.save_only [of pid w q] by simp

lemma save_paused_files:
  "save_queue_paused pid b w = (r, w') \<Longrightarrow> only_files (with_tmps (QueuePausedFile pid)) w w'"
  using pauses.save_only [of pid w b] by simp

lemma jobs_of_save_queue: "save_queue pid q w = (r, w') \<Longrightarrow> jobs_of w' = jobs_of w"
  by (drule save_queue_files, erule only_files_jobs) simp

lemma jobs_of_save_paused: "save_queue_paused pid b w = (r, w') \<Longrightarrow> jobs_of w' = jobs_of w"
  by (drule save_paused_files, erule only_files_jobs) simp

lemma stored_queue: "save_queue pid q w = (Inr u, w') \<Longrightarrow> lookup (QueueFile pid) w' = Some (Doc (DQueue q))"
  using queues.save_ok [of pid q w u w'] by simp

lemma enqueue_cases:
  assumes "handle_enqueue x jid wk w = (r, wk', w')"
  obtains (refused) e where "r = Inl e" "wk' = wk" "only_files (with_tmps (QueueFile (wc_pid x))) w w'"
  | (enqueued) "r = Inr Acknowledged" "wk_queue wk' = wk_queue wk @ [jid]" "wk_paused wk' = wk_paused wk"
      "lookup (QueueFile (wc_pid x)) w' = Some (Doc (DQueue (wk_queue wk @ [jid])))"
      "only_files (with_tmps (QueueFile (wc_pid x))) w w'"
proof -
  obtain qr w1 where sq: "save_queue (wc_pid x) (wk_queue wk @ [jid]) w = (qr, w1)" by fastforce
  show thesis
  proof (cases qr)
    case (Inl e)
    with assms sq save_queue_files [OF sq] show thesis
      by (intro refused [of e]) (simp_all add: handle_enqueue_def)
  next
    case (Inr u)
    with assms sq save_queue_files [OF sq] stored_queue [of "wc_pid x" _ w u w1] show thesis
      by (intro enqueued) (auto simp: handle_enqueue_def set_queue_depth_def)
  qed
qed

lemma pause_cases:
  assumes "handle_pause x b wk w = (r, wk', w')"
  obtains (refused) e where "r = Inl e" "wk' = wk" "only_files (with_tmps (QueuePausedFile (wc_pid x))) w w'"
  | (switched) "r = Inr Acknowledged" "wk_queue wk' = wk_queue wk" "wk_paused wk' = b"
      "only_files (with_tmps (QueuePausedFile (wc_pid x))) w w'"
proof -
  obtain r1 w1 where sp: "save_queue_paused (wc_pid x) b w = (r1, w1)" by fastforce
  show thesis
  proof (cases r1)
    case (Inl e)
    with assms sp save_paused_files [OF sp] show thesis
      by (intro refused [of e]) (simp_all add: handle_pause_def)
  next
    case (Inr u)
    with assms sp save_paused_files [OF sp] show thesis
      by (intro switched) (auto simp: handle_pause_def set_snapshot_paused_def)
  qed
qed

lemma cancel_cases:
  assumes "handle_cancel x jid wk w = (r, wk', w')"
  obtains (not_waiting) "jid \<notin> set (wk_queue wk)" "r = Inl ''job_is_not_waiting_in_queue''"
      "wk' = wk" "w' = w"
  | (unloaded) e where "jid \<in> set (wk_queue wk)" "r = Inl e" "wk' = wk" "only_files {} w w'"
  | (stopped) j at e v where "jid \<in> set (wk_queue wk)" "r = Inl e" "wk' = wk" "jobs_of w jid = Some j"
      "jobs_of v = jobs_of w" "w_wire w' = w_wire w"
      "jobs_of w' = jobs_of (snd (save_job (j\<lparr>job_state := Cancelled, job_updated_at := at, job_error := None\<rparr>) v))"
  | (cancelled) j at where "jid \<in> set (wk_queue wk)" "r = Inr Acknowledged" "jobs_of w jid = Some j"
      "wk_queue wk' = remove1 jid (wk_queue wk)" "wk_paused wk' = wk_paused wk" "w_wire w' = w_wire w"
      "lookup (QueueFile (wc_pid x)) w' = Some (Doc (DQueue (remove1 jid (wk_queue wk))))"
      "jobs_of w' = (jobs_of w)(job_id j \<mapsto> j\<lparr>job_state := Cancelled, job_updated_at := at, job_error := None\<rparr>)"
proof (cases "jid \<in> set (wk_queue wk)")
  case False
  with assms show thesis by (intro not_waiting) (simp_all add: handle_cancel_def)
next
  case True
  obtain lr w1 where ld: "load_job jid w = (lr, w1)" by fastforce
  have fr: "only_files {} w w1" using only_files_loads(1) [of "{}" w jid] ld by simp
  show thesis
  proof (cases lr)
    case (Inl e)
    with assms ld True fr show thesis by (intro unloaded [of e]) (simp_all add: handle_cancel_def)
  next
    case (Inr j)
    let ?at = "env_utc (w_env w1) (w_tick w1)"
    let ?j = "j\<lparr>job_state := Cancelled, job_updated_at := ?at, job_error := None\<rparr>"
    have jw: "jobs_of w jid = Some j" using load_job_Inr ld Inr by blast
    have j1: "jobs_of (advance w1) = jobs_of w" using only_files_jobs [OF fr] by simp
    obtain sr w2 where sv: "save_job ?j (advance w1) = (sr, w2)" by fastforce
    have wire2: "w_wire w2 = w_wire w"
      using only_files_save_job [of ?j "advance w1"] sv fr by (simp add: only_files_def)
    show thesis
    proof (cases sr)
      case (Inl e)
      with assms ld Inr True jw j1 sv wire2 show thesis
        by (intro stopped [of e j "advance w1" ?at]) (simp_all add: handle_cancel_def now_def Let_def)
    next
      case ok: (Inr u)
      obtain qr w3 where sq: "save_queue (wc_pid x) (remove1 jid (wk_queue wk)) w2 = (qr, w3)" by fastforce
      have wire3: "w_wire w3 = w_wire w"
        using save_queue_files [OF sq] wire2 by (simp add: only_files_def)
      show thesis
      proof (cases qr)
        case (Inl e)
        with assms ld Inr True jw j1 sv ok wire3 sq jobs_of_save_queue [OF sq] show thesis
          by (intro stopped [of e j "advance w1" ?at]) (simp_all add: handle_cancel_def now_def Let_def)
      next
        case qok: (Inr u')
        define w4 where "w4 = emit ''job_cancelled'' (wc_pid x) jid (JObject []) w3"
        have f4: "only_files {EventLog} w3 w4" unfolding w4_def by (rule only_files_emit)
        have "jobs_of w4 = (jobs_of w)(job_id j \<mapsto> ?j)"
          using jobs_of_save_ok [of ?j "advance w1" "()" w2] sv ok j1 jobs_of_save_queue [OF sq]
          by (simp add: w4_def)
        moreover have "lookup (QueueFile (wc_pid x)) w4 = Some (Doc (DQueue (remove1 jid (wk_queue wk))))"
          using only_files_lookup [OF f4, of "QueueFile (wc_pid x)"] stored_queue [of "wc_pid x" _ w2 "()" w3] sq qok
          by simp
        moreover have "w_wire w4 = w_wire w" using f4 wire3 by (simp add: only_files_def)
        moreover have "r = Inr Acknowledged" "w' = w4"
            "wk' = set_queue_depth (of_nat (length (remove1 jid (wk_queue wk))))
              (wk\<lparr>wk_queue := remove1 jid (wk_queue wk)\<rparr>)"
          using assms ld Inr True sv ok sq qok by (simp_all add: handle_cancel_def now_def Let_def w4_def)
        ultimately show thesis using True jw by (intro cancelled [of j ?at]) (simp_all add: set_queue_depth_def)
      qed
    qed
  qed
qed

lemma serve_cases:
  assumes "serve x jid rest wk w = (wk', w')" and "wk_queue wk = jid # rest"
  obtains (kept) "wk' = wk" "only_files (with_tmps (QueueFile (wc_pid x))) w w'"
  | (popped) w1 s0 s t where "wk_queue wk' = rest" "wk_paused wk' = wk_paused wk"
      "only_files (with_tmps (QueueFile (wc_pid x))) w w1"
      "lookup (QueueFile (wc_pid x)) w1 = Some (Doc (DQueue rest))"
      "process_job jid (wc_config x) (wo_storage (wc_options x)) s0 (wk_transport wk) w1 = (s, t, w')"
proof -
  obtain qr w1 where sq: "save_queue (wc_pid x) rest w = (qr, w1)" by fastforce
  note fr = save_queue_files [OF sq]
  show thesis
  proof (cases qr)
    case (Inl e)
    have "only_files (with_tmps (QueueFile (wc_pid x))) w (sleep_ms 100 w1)"
      using fr by (simp add: only_files_def)
    with assms sq Inl show thesis by (intro kept) (simp_all add: serve_def)
  next
    case (Inr u)
    let ?wk = "set_queue_depth (of_nat (length rest) + 1) (wk\<lparr>wk_queue := rest\<rparr>)"
    obtain s t w2 where pj: "process_job jid (wc_config x) (wo_storage (wc_options x))
        (wk_snapshot ?wk) (wk_transport ?wk) w1 = (s, t, w2)" using prod_cases3 by blast
    have "wk' = set_queue_depth (of_nat (length rest)) (?wk\<lparr>wk_snapshot := s, wk_transport := t\<rparr>)" "w' = w2"
      using assms sq Inr pj by (simp_all add: serve_def Let_def)
    with popped [of w1 "wk_snapshot ?wk" s t] fr stored_queue [of "wc_pid x" rest w u w1] sq Inr pj show thesis
      by (simp add: set_queue_depth_def)
  qed
qed

section \<open>A turn on a sound queue\<close>

text \<open>What a turn does to the jobs: the stored ones move along their life cycle, those that
  do not wait in this queue are left alone.\<close>

definition turn_ok :: "string \<Rightarrow> worker \<Rightarrow> world \<Rightarrow> worker \<Rightarrow> world \<Rightarrow> bool" where
  "turn_ok pid wk w wk' w' =
     (sound_queue pid wk' w' \<and> evolves w w' \<and>
      (\<forall>i. i \<notin> set (wk_queue wk) \<longrightarrow> jobs_of w' i = jobs_of w i))"

lemma turn_ok_same:
  assumes "jobs_of w' = jobs_of w" and "sound_queue pid wk w" and "distinct (wk_queue wk')"
    and "set (wk_queue wk') \<subseteq> set (wk_queue wk)"
  shows "turn_ok pid wk w wk' w'"
  using assms keyed_same [OF assms(1)] waits_same [OF assms(1)]
  by (auto simp: turn_ok_def sound_queue_def evolves_same)

lemma sound_update:
  assumes sound: "sound_queue pid wk w" and jobs: "jobs_of w' = (jobs_of w)(jid \<mapsto> j')"
    and id: "job_id j' = jid" "payload_ok j'"
    and q: "distinct (wk_queue wk')" "set (wk_queue wk') \<subseteq> set (wk_queue wk)"
    and jid: "jid \<in> set (wk_queue wk') \<longrightarrow> job_state j' \<in> {Queued, Cancelled} \<and> job_printer_id j' = pid"
  shows "sound_queue pid wk' w'"
proof -
  have "waits pid w' i" if i: "i \<in> set (wk_queue wk')" for i
  proof (cases "i = jid")
    case True
    with jid i jobs show ?thesis by (simp add: waits_def)
  next
    case False
    with i q(2) sound jobs show ?thesis by (auto simp: sound_queue_def waits_def)
  qed
  moreover have "jobs_keyed w'" using sound jobs id by (auto simp: sound_queue_def jobs_keyed_def)
  ultimately show ?thesis using q(1) by (simp add: sound_queue_def)
qed

lemma turn_ok_update:
  assumes sound: "sound_queue pid wk w" and jobs: "jobs_of w' = (jobs_of w)(jid \<mapsto> j')"
    and jid: "jid \<in> set (wk_queue wk)" "jobs_of w jid = Some j"
    and j': "same_identity j j'" "payload_ok j'" "can_reach (job_state j) (job_state j')"
    and q: "distinct (wk_queue wk')" "set (wk_queue wk') \<subseteq> set (wk_queue wk)"
    and keep: "jid \<in> set (wk_queue wk') \<longrightarrow> job_state j' \<in> {Queued, Cancelled}"
  shows "turn_ok pid wk w wk' w'"
proof -
  have id: "job_id j = jid" "job_printer_id j = pid"
    using sound jid by (auto simp: sound_queue_def jobs_keyed_def waits_def)
  then have id': "job_id j' = jid" "job_printer_id j' = pid" using j'(1) by (simp_all add: same_identity_def)
  have "sound_queue pid wk' w'"
    using sound_update [OF sound jobs id'(1) j'(2) q] keep id'(2) by simp
  moreover have "evolves w w'"
    by (rule evolves_update [OF jobs id'(1) j'(2)]) (use jid j' in \<open>simp add: job_moves_def\<close>)
  ultimately show ?thesis using jobs jid(1) by (auto simp: turn_ok_def)
qed

lemma waiting_can_cancel: "s \<in> {Queued, Cancelled} \<Longrightarrow> can_reach s Cancelled"
  by auto

lemma cancel_turn:
  assumes run: "handle_cancel x jid wk w = (r, wk', w')" and sound: "sound_queue (wc_pid x) wk w"
  shows "turn_ok (wc_pid x) wk w wk' w'"
  using run
proof (cases rule: cancel_cases)
  case not_waiting
  with sound show ?thesis by (intro turn_ok_same) (simp_all add: sound_queue_def)
next
  case (unloaded e)
  have "jobs_of w' = jobs_of w" by (rule only_files_jobs [OF unloaded(4)]) simp
  with unloaded(3) sound show ?thesis by (intro turn_ok_same) (simp_all add: sound_queue_def)
next
  case (stopped j at e v)
  let ?j = "j\<lparr>job_state := Cancelled, job_updated_at := at, job_error := None\<rparr>"
  have j: "job_id j = jid" "payload_ok j" "job_state j \<in> {Queued, Cancelled}"
    using sound stopped(1,4) by (auto simp: sound_queue_def jobs_keyed_def waits_def)
  have "jobs_of w' \<in> {jobs_of w, (jobs_of w)(jid \<mapsto> ?j)}"
    using jobs_of_save_in [of ?j v] stopped(5,7) j(1) by simp
  then consider "jobs_of w' = jobs_of w" | "jobs_of w' = (jobs_of w)(jid \<mapsto> ?j)" by auto
  then show ?thesis
  proof cases
    case 1
    with stopped(3) sound show ?thesis by (intro turn_ok_same) (simp_all add: sound_queue_def)
  next
    case 2
    have "can_reach (job_state j) Cancelled" by (rule waiting_can_cancel [OF j(3)])
    with 2 stopped sound j show ?thesis
      by (intro turn_ok_update [OF sound 2 stopped(1,4)])
         (simp_all add: same_identity_def payload_ok_def sound_queue_def)
  qed
next
  case (cancelled j at)
  have j: "job_id j = jid" "payload_ok j" "job_state j \<in> {Queued, Cancelled}"
    using sound cancelled(1,3) by (auto simp: sound_queue_def jobs_keyed_def waits_def)
  have jobs: "jobs_of w' = (jobs_of w)(jid \<mapsto> j\<lparr>job_state := Cancelled, job_updated_at := at, job_error := None\<rparr>)"
    using cancelled(8) j(1) by simp
  have "can_reach (job_state j) Cancelled" by (rule waiting_can_cancel [OF j(3)])
  moreover have "set (remove1 jid (wk_queue wk)) \<subseteq> set (wk_queue wk)" by (rule set_remove1_subset)
  ultimately show ?thesis
    using cancelled sound j
    by (intro turn_ok_update [OF sound jobs cancelled(1,3)])
       (simp_all add: same_identity_def payload_ok_def sound_queue_def)
qed

text \<open>What serving a job does to it and to the wire.\<close>

lemma serve_turn:
  assumes run: "serve x jid rest wk w = (wk', w')" and q: "wk_queue wk = jid # rest"
    and sound: "sound_queue (wc_pid x) wk w"
  shows "turn_ok (wc_pid x) wk w wk' w' \<and>
     (\<exists>bs. w_wire w' = (w_wire w)(wc_pid x := w_wire w (wc_pid x) @ bs) \<and>
       (bs \<noteq> [] \<longrightarrow> (\<exists>j j'. jobs_of w jid = Some j \<and> job_state j = Queued \<and> jobs_of w' jid = Some j' \<and>
          job_state j' \<in> {Writing, TransportAccepted, OutcomeUnknown, Failed})))"
  using run q
proof (cases rule: serve_cases)
  case kept
  have "jobs_of w' = jobs_of w" by (rule only_files_jobs [OF kept(2)]) simp
  moreover have "w_wire w' = w_wire w" using kept(2) by (simp add: only_files_def)
  ultimately show ?thesis
    using kept(1) sound by (auto intro!: turn_ok_same exI [of _ "[]"] simp: sound_queue_def)
next
  case (popped w1 s0 s t)
  have w1: "jobs_of w1 = jobs_of w" by (rule only_files_jobs [OF popped(3)]) simp
  have wire1: "w_wire w1 = w_wire w" using popped(3) by (simp add: only_files_def)
  have dq: "distinct (wk_queue wk')" "set (wk_queue wk') \<subseteq> set (wk_queue wk)" "jid \<notin> set (wk_queue wk')"
    using q popped(1) sound by (auto simp: sound_queue_def)
  have keyed: "jobs_keyed w1" using sound keyed_same [OF w1] by (simp add: sound_queue_def)
  show ?thesis
  proof (cases "\<exists>j. jobs_of w1 jid = Some j \<and> job_state j = Queued")
    case False
    have fr: "only_files {} w1 w'" by (rule process_job_idle [OF popped(5)]) (use False in auto)
    have "jobs_of w' = jobs_of w" using only_files_jobs [OF fr] w1 by simp
    moreover have "w_wire w' = w_wire w" using fr wire1 by (simp add: only_files_def)
    ultimately show ?thesis using dq sound by (auto intro!: turn_ok_same exI [of _ "[]"])
  next
    case True
    then obtain j where j: "jobs_of w1 jid = Some j" "job_state j = Queued" by blast
    obtain bs j' where r: "w_wire w' = (w_wire w1)(wc_pid x := w_wire w1 (wc_pid x) @ bs)"
        "jobs_of w' = (jobs_of w1)(jid \<mapsto> j')" "same_identity j j'" "payload_ok j'"
        "run_sent jid (wc_config x) j w1 bs (job_state j')"
      using process_job_run [OF popped(5) keyed j] by blast
    note st = run_sent_states [OF r(5)]
    have "turn_ok (wc_pid x) wk w wk' w'"
    proof (rule turn_ok_update [OF sound])
      show "jobs_of w' = (jobs_of w)(jid \<mapsto> j')" using r(2) w1 by simp
      show "can_reach (job_state j) (job_state j')" using j(2) st by auto
    qed (use q j w1 r(3,4) dq in simp_all)
    moreover have "job_state j' \<in> {Writing, TransportAccepted, OutcomeUnknown, Failed}" if "bs \<noteq> []"
      using r(5) that result_state_in unfolding run_sent_def by fastforce
    ultimately show ?thesis using r(1,2) wire1 j w1 by auto
  qed
qed

lemma handle_turn:
  assumes run: "handle x cmd wk w = Some (r, wk', w')" and sound: "sound_queue (wc_pid x) wk w"
    and adm: "admitted (wc_pid x) wk w (Answered cmd r)"
  shows "turn_ok (wc_pid x) wk w wk' w'"
proof (cases cmd)
  case (Control c)
  with run have "steady x wk w wk' w'" by (auto intro: control_steady)
  with sound steady_jobs [OF this] show ?thesis
    by (intro turn_ok_same) (simp_all add: steady_def sound_queue_def)
next
  case (Probe b)
  with run have "steady x wk w wk' w'" by (auto intro: handle_probe_steady)
  with sound steady_jobs [OF this] show ?thesis
    by (intro turn_ok_same) (simp_all add: steady_def sound_queue_def)
next
  case (Enqueue jid)
  with run have "handle_enqueue x jid wk w = (r, wk', w')" by simp
  then show ?thesis
  proof (cases rule: enqueue_cases)
    case (refused e)
    have "jobs_of w' = jobs_of w" by (rule only_files_jobs [OF refused(3)]) simp
    with refused(2) sound show ?thesis by (intro turn_ok_same) (simp_all add: sound_queue_def)
  next
    case enqueued
    have jobs: "jobs_of w' = jobs_of w" by (rule only_files_jobs [OF enqueued(5)]) simp
    have "waits (wc_pid x) w jid" "jid \<notin> set (wk_queue wk)"
      using adm Enqueue by (auto simp: waits_def)
    with enqueued(2) sound jobs show ?thesis
      by (auto simp: turn_ok_def sound_queue_def keyed_same [OF jobs] waits_same [OF jobs] evolves_same)
  qed
next
  case (SetQueuePaused b)
  with run have "handle_pause x b wk w = (r, wk', w')" by simp
  then have "jobs_of w' = jobs_of w \<and> wk_queue wk' = wk_queue wk"
    by (cases rule: pause_cases) (auto intro: only_files_jobs)
  with sound show ?thesis by (intro turn_ok_same) (simp_all add: sound_queue_def)
next
  case (Cancel jid)
  with run have "handle_cancel x jid wk w = (r, wk', w')" by simp
  from cancel_turn [OF this sound] show ?thesis .
qed

lemma turn_keeps:
  assumes "turn_step x (wk, w) t (wk', w')" and "sound_queue (wc_pid x) wk w"
    and "admitted (wc_pid x) wk w t"
  shows "turn_ok (wc_pid x) wk w wk' w'"
  using assms
  by (auto elim!: turn_stepE dest: serve_turn [OF sym] handle_turn)

section \<open>Runs\<close>

text \<open>A run records every turn with the bytes it put on the wire of its printer.\<close>

definition sent_to :: "string \<Rightarrow> world \<Rightarrow> world \<Rightarrow> u8 list" where
  "sent_to pid w w' = drop (length (w_wire w pid)) (w_wire w' pid)"

inductive runs :: "worker_context \<Rightarrow> worker \<times> world \<Rightarrow> (turn \<times> u8 list) list \<Rightarrow> worker \<times> world \<Rightarrow> bool"
  for x :: worker_context where
  stop: "runs x s [] s"
| turn: "turn_step x (wk, w) t (wk', w') \<Longrightarrow> admitted (wc_pid x) wk w t \<Longrightarrow>
     runs x (wk', w') ts s \<Longrightarrow> runs x (wk, w) ((t, sent_to (wc_pid x) w w') # ts) s"

lemma runs_keep:
  assumes "runs x s ts s'" and "sound_queue (wc_pid x) (fst s) (snd s)"
  shows "sound_queue (wc_pid x) (fst s') (snd s') \<and> evolves (snd s) (snd s')"
  using assms
proof (induction rule: runs.induct)
  case (stop s)
  then show ?case by (simp add: evolves.refl)
next
  case (turn wk w t wk' w' ts s)
  with turn_keeps [OF turn.hyps(1)] show ?case
    by (auto simp: turn_ok_def intro: evolves.trans)
qed

text \<open>A job that is neither queued nor still being received never becomes queued again.\<close>

definition closed :: "world \<Rightarrow> uuid \<Rightarrow> bool" where
  "closed w jid = (\<exists>j. jobs_of w jid = Some j \<and> job_state j \<notin> {Receiving, Queued})"

lemma closed_reach: "can_reach s t \<Longrightarrow> s \<notin> {Receiving, Queued} \<Longrightarrow> t \<notin> {Receiving, Queued}"
  by (cases s) auto

lemma evolves_closed:
  assumes "evolves w w'" and "jobs_keyed w" and "closed w jid"
  shows "closed w' jid"
proof -
  obtain j where j: "jobs_of w jid = Some j" "job_state j \<notin> {Receiving, Queued}"
    using assms(3) by (auto simp: closed_def)
  have "job_moves (Some j) (jobs_of w' jid)" using assms(1,2) j(1) by (metis evolves_def)
  with j(2) show ?thesis
    by (auto simp: job_moves_def closed_def split: option.splits dest: closed_reach)
qed

lemma served_sends:
  assumes "turn_step x (wk, w) (Served jid) (wk', w')" and "sound_queue (wc_pid x) wk w"
    and "sent_to (wc_pid x) w w' \<noteq> []"
  shows "\<not> closed w jid \<and> closed w' jid"
proof -
  obtain rest where q: "wk_queue wk = jid # rest" and run: "serve x jid rest wk w = (wk', w')"
    using assms(1) by (auto elim: turn_stepE)
  from serve_turn [OF run q assms(2)] assms(3) show ?thesis
    by (auto simp: sent_to_def closed_def)
qed

text \<open>The turns of a run that put bytes of a job on the wire.\<close>

definition deliveries :: "uuid \<Rightarrow> (turn \<times> u8 list) list \<Rightarrow> (turn \<times> u8 list) list" where
  "deliveries jid ts = filter (\<lambda>(t, bs). t = Served jid \<and> bs \<noteq> []) ts"

lemma closed_not_delivered:
  assumes "runs x s ts s'" and "sound_queue (wc_pid x) (fst s) (snd s)" and "closed (snd s) jid"
  shows "deliveries jid ts = []"
  using assms
proof (induction rule: runs.induct)
  case (stop s)
  then show ?case by (simp add: deliveries_def)
next
  case (turn wk w t wk' w' ts s)
  have ok: "turn_ok (wc_pid x) wk w wk' w'"
    using turn_keeps [OF turn.hyps(1)] turn.hyps(2) turn.prems by simp
  have "closed w' jid"
    using ok turn.prems by (auto simp: turn_ok_def sound_queue_def intro: evolves_closed)
  moreover have "\<not> (t = Served jid \<and> sent_to (wc_pid x) w w' \<noteq> [])"
    using served_sends [of x wk w jid wk' w'] turn.hyps(1) turn.prems by auto
  ultimately show ?case
    using turn.IH ok by (simp add: deliveries_def turn_ok_def)
qed

lemma delivered_at_most_once:
  assumes "runs x s ts s'" and "sound_queue (wc_pid x) (fst s) (snd s)"
  shows "length (deliveries jid ts) \<le> 1"
  using assms
proof (induction rule: runs.induct)
  case (stop s)
  then show ?case by (simp add: deliveries_def)
next
  case (turn wk w t wk' w' ts s)
  have sound: "sound_queue (wc_pid x) wk' w'"
    using turn_keeps [OF turn.hyps(1)] turn.hyps(2) turn.prems by (simp add: turn_ok_def)
  show ?case
  proof (cases "t = Served jid \<and> sent_to (wc_pid x) w w' \<noteq> []")
    case True
    then have "closed w' jid" using served_sends [of x wk w jid wk' w'] turn.hyps(1) turn.prems by auto
    then have "deliveries jid ts = []"
      using closed_not_delivered [OF turn.hyps(3)] sound by simp
    then show ?thesis by (simp add: deliveries_def)
  next
    case False
    with turn.IH sound show ?thesis by (auto simp: deliveries_def)
  qed
qed

section \<open>The queue as an abstract machine\<close>

text \<open>
  The contract of the thread: a first-in first-out queue with a pause switch. A turn may
  fail, and then the queue is as before; serving takes the job at the head out of the
  queue, unless the shortened queue could not be stored.
\<close>

fun fifo_step :: "turn \<Rightarrow> uuid list \<times> bool \<Rightarrow> uuid list \<times> bool \<Rightarrow> bool" where
  "fifo_step (Served jid) (q, p) (q', p') =
     (\<not> p \<and> p' = p \<and> (case q of [] \<Rightarrow> False | i # rest \<Rightarrow> i = jid \<and> (q' = rest \<or> q' = q)))"
| "fifo_step (Answered (Enqueue jid) r) (q, p) (q', p') =
     ((p \<or> q = []) \<and> p' = p \<and> q' = (if is_ok r then q @ [jid] else q))"
| "fifo_step (Answered (SetQueuePaused b) r) (q, p) (q', p') =
     ((p \<or> q = []) \<and> q' = q \<and> p' = (if is_ok r then b else p))"
| "fifo_step (Answered (Cancel jid) r) (q, p) (q', p') =
     ((p \<or> q = []) \<and> p' = p \<and>
      (if is_ok r then jid \<in> set q \<and> q' = remove1 jid q else q' = q))"
| "fifo_step (Answered cmd r) (q, p) (q', p') = ((p \<or> q = []) \<and> q' = q \<and> p' = p)"

text \<open>A queue that changed is the stored one, so a restart finds it.\<close>

definition stored_if_changed :: "string \<Rightarrow> worker \<Rightarrow> worker \<Rightarrow> world \<Rightarrow> bool" where
  "stored_if_changed pid wk wk' w' =
     (wk_queue wk' \<noteq> wk_queue wk \<longrightarrow> lookup (QueueFile pid) w' = Some (Doc (DQueue (wk_queue wk'))))"

definition queue_view :: "worker \<Rightarrow> uuid list \<times> bool" where
  "queue_view wk = (wk_queue wk, wk_paused wk)"

definition refined_turn :: "string \<Rightarrow> turn \<Rightarrow> worker \<Rightarrow> worker \<Rightarrow> world \<Rightarrow> bool" where
  "refined_turn pid t wk wk' w' =
     (fifo_step t (queue_view wk) (queue_view wk') \<and> stored_if_changed pid wk wk' w')"

lemmas refined_defs = refined_turn_def stored_if_changed_def queue_view_def

lemma serve_refines:
  assumes run: "serve x jid rest wk w = (wk', w')" and q: "wk_queue wk = jid # rest"
    and p: "\<not> wk_paused wk" and keyed: "jobs_keyed w"
  shows "refined_turn (wc_pid x) (Served jid) wk wk' w'"
  using run q
proof (cases rule: serve_cases)
  case kept
  with q p show ?thesis by (simp add: refined_defs)
next
  case (popped w1 s0 s t)
  have "jobs_of w1 = jobs_of w" by (rule only_files_jobs [OF popped(3)]) simp
  then have "touches (job_paths jid (wc_pid x)) w1 w'"
    using touches_process_job [OF popped(5)] keyed keyed_same by blast
  moreover have "QueueFile (wc_pid x) \<notin> job_paths jid (wc_pid x)"
    by (auto simp: job_paths_def media_paths_def with_tmps_def)
  ultimately have "lookup (QueueFile (wc_pid x)) w' = Some (Doc (DQueue rest))"
    using popped(4) by (simp add: touches_def)
  with popped(1,2) q p show ?thesis by (simp add: refined_defs)
qed

lemma handle_refines:
  assumes run: "handle x cmd wk w = Some (r, wk', w')" and idle: "wk_paused wk \<or> wk_queue wk = []"
  shows "refined_turn (wc_pid x) (Answered cmd r) wk wk' w'"
proof (cases cmd)
  case (Control c)
  with run have "steady x wk w wk' w'" by (auto intro: control_steady)
  with Control idle show ?thesis by (simp add: steady_def refined_defs)
next
  case (Probe b)
  with run have "steady x wk w wk' w'" by (auto intro: handle_probe_steady)
  with Probe idle show ?thesis by (simp add: steady_def refined_defs)
next
  case (Enqueue jid)
  with run have "handle_enqueue x jid wk w = (r, wk', w')" by simp
  then show ?thesis by (cases rule: enqueue_cases) (use Enqueue idle in \<open>simp_all add: refined_defs\<close>)
next
  case (SetQueuePaused b)
  with run have "handle_pause x b wk w = (r, wk', w')" by simp
  then show ?thesis by (cases rule: pause_cases) (use SetQueuePaused idle in \<open>simp_all add: refined_defs\<close>)
next
  case (Cancel jid)
  with run have "handle_cancel x jid wk w = (r, wk', w')" by simp
  then show ?thesis by (cases rule: cancel_cases) (use Cancel idle in \<open>simp_all add: refined_defs\<close>)
qed

text \<open>C5: every turn of a printer thread is a step of a first-in first-out queue with a pause
  switch: jobs are served from the head and only while the queue runs, enqueued at the
  end, cancelled out of it, and a command that is refused leaves the queue alone; a queue
  that changed is the one stored on disk.\<close>

theorem turn_refines_fifo:
  assumes "turn_step x (wk, w) t (wk', w')" and "jobs_keyed w"
  shows "fifo_step t (queue_view wk) (queue_view wk') \<and> stored_if_changed (wc_pid x) wk wk' w'"
proof -
  have "refined_turn (wc_pid x) t wk wk' w'"
    using assms by (auto elim!: turn_stepE dest: serve_refines [OF sym] handle_refines)
  then show ?thesis by (simp add: refined_turn_def)
qed

text \<open>Along every run of a printer thread from a sound queue, the waiting jobs are
  distinct, stored for this printer and not started, and every job of the data directory
  only moves along its life cycle.\<close>

theorem queue_stays_sound:
  assumes "runs x (wk, w) ts (wk', w')" and "sound_queue (wc_pid x) wk w"
  shows "sound_queue (wc_pid x) wk' w' \<and> evolves w w'"
  using runs_keep [OF assms(1)] assms(2) by simp

text \<open>C4: once the thread has acknowledged a cancellation, the job is stored as cancelled,
  has left the queue, and however long the thread runs on no byte of it is sent.\<close>

theorem cancelled_never_sent:
  assumes run: "handle x (Cancel jid) wk w = Some (Inr a, wk', w')" and sound: "sound_queue (wc_pid x) wk w"
    and later: "runs x (wk', w') ts s"
  shows "map_option job_state (jobs_of w' jid) = Some Cancelled \<and> jid \<notin> set (wk_queue wk') \<and>
     w_wire w' = w_wire w \<and> deliveries jid ts = []"
proof -
  have hc: "handle_cancel x jid wk w = (Inr a, wk', w')" using run by simp
  have ok: "turn_ok (wc_pid x) wk w wk' w'" by (rule cancel_turn [OF hc sound])
  from hc show ?thesis
  proof (cases rule: cancel_cases)
    case (cancelled j at)
    have "job_id j = jid" "distinct (wk_queue wk)"
      using sound cancelled(3) by (auto simp: sound_queue_def jobs_keyed_def)
    with cancelled have st: "map_option job_state (jobs_of w' jid) = Some Cancelled"
        "jid \<notin> set (wk_queue wk')" by auto
    then have "closed w' jid" by (auto simp: closed_def)
    with closed_not_delivered [OF later] ok have "deliveries jid ts = []" by (simp add: turn_ok_def)
    with st cancelled(6) show ?thesis by simp
  qed simp_all
qed

end
