(* ===== verification/Worker_Drain.thy ===== *)
theory Worker_Drain
  imports Worker_Queue
begin

text \<open>
  The queue of a printer thread drains: when the calls into the file system succeed, a
  thread that is not paused serves every waiting job and leaves each in a final state,
  whatever the printer does. Concrete threads, on which the properties of the queue are
  evaluated, close the theory.
\<close>

section \<open>Operations in a quiet world\<close>

text \<open>Operations whose file calls succeed leave no temporary file behind.\<close>

definition tidy :: "world \<Rightarrow> world \<Rightarrow> bool" where
  "tidy w w' = (quiet w \<and> no_tmp w \<longrightarrow> quiet w' \<and> no_tmp w')"

interpretation tidy: respected tidy
  by unfold_locales (auto simp: tidy_def)

lemma tidyI: "w_env w' = w_env w \<Longrightarrow> (quiet w \<Longrightarrow> no_tmp w \<Longrightarrow> no_tmp w') \<Longrightarrow> tidy w w'"
  by (simp add: tidy_def quiet_def)

lemma tidy_only_files:
  assumes "only_files P w w'" and "\<forall>p \<in> P. \<not> is_tmp p"
  shows "tidy w w'"
proof (rule tidyI)
  show "w_env w' = w_env w" using assms(1) by (simp add: only_files_def)
  have "lookup (Tmp p u) w' = lookup (Tmp p u) w" for p u
    using assms by (intro only_files_lookup) auto
  then show "no_tmp w \<Longrightarrow> no_tmp w'" by (simp add: no_tmp_def)
qed

lemma tidy_simps [simp]: "tidy w (advance w)" "tidy w (sleep_ms n w)"
  by (simp_all add: tidy_def no_tmp_def quiet_def)

lemma tidy_idle: "idle w w' \<Longrightarrow> tidy w w'"
  by (simp add: idle_def tidy_def quiet_def no_tmp_def lookup_def)

lemma tidy_sends: "sends pid bs w w' \<Longrightarrow> tidy w w'"
  by (simp add: sends_def tidy_def quiet_def no_tmp_def lookup_def)

lemma tidy_save_job: "tidy w (snd (save_job j w))"
  using jobs.save_quiet [of j "job_id j" w] jobs.quiet_save [of j "job_id j" w]
  by (auto simp: tidy_def)

lemma tidy_save_media: "tidy w (snd (save_media pid m w))"
  using media_files.save_quiet [of w pid m] media_files.quiet_save [of w pid m]
  by (auto simp: tidy_def)

lemma tidy_emit: "tidy w (emit kind pid jid data w)"
  by (rule tidy_only_files [OF only_files_emit]) simp

lemma tidy_ledger: "tidy w (snd (append_media_ledger pid e w))"
  unfolding append_media_ledger_def by (rule tidy_only_files [OF append_ndjson_only_files]) simp

lemma tidy_store_debit: "tidy w (store_debit pid e m w)"
  unfolding store_debit_def by (rule tidy.trans [OF tidy_ledger tidy_save_media])

lemma tidy_consume: "tidy w (consume_media pid j w)"
proof -
  obtain r v where ld: "load_media pid w = (r, v)" by fastforce
  have "only_files {} w v" using only_files_loads(2) [of "{}" w pid] ld by simp
  then have v: "tidy w v" by (rule tidy_only_files) simp
  have "tidy w (store_debit pid e m (advance (advance v)))" for e m
    by (rule tidy.trans [OF v tidy.trans [OF tidy_simps(1) tidy.trans [OF tidy_simps(1) tidy_store_debit]]])
  with v ld show ?thesis
    by (auto simp: consume_media_def now_def Let_def split: option.split sum.split)
qed

lemma tidy_remove: "\<not> is_tmp p \<Longrightarrow> tidy w (snd (remove_file p w))"
  by (rule tidy_only_files [OF only_files_remove_any]) simp

lemma tidy_finish:
  assumes "finish_job c storage jid r j t w = (j', t', w')" and "payload_ok j"
  shows "tidy w w'"
proof (cases r)
  case (Inl f)
  with assms show ?thesis by (auto simp: finish_job_def now_def Let_def)
next
  case (Inr n)
  have a: "tidy w (consume_media pid k (emit kind pid jid d (snd (save_job k (advance w)))))" for pid k kind d
    by (rule tidy.trans [OF tidy_simps(1) tidy.trans [OF tidy_save_job tidy.trans [OF tidy_emit tidy_consume]]])
  have b: "tidy v (case job_payload_path j of None \<Rightarrow> v | Some p \<Rightarrow> snd (remove_file p v))" for v
    using assms(2) by (auto simp: payload_ok_def tidy.refl tidy_remove split: option.split)
  show ?thesis
    using assms(1) Inr
    by (auto simp: finish_job_def now_def Let_def split: if_splits intro: a tidy.trans [OF a b])
qed

section \<open>Serving a job\<close>

definition final_states :: "jstate set" where
  "final_states = {TransportAccepted, Failed, OutcomeUnknown, Cancelled}"

definition finished :: "world \<Rightarrow> uuid \<Rightarrow> bool" where
  "finished w jid = (\<exists>j. jobs_of w jid = Some j \<and> job_state j \<in> final_states)"

lemma save_job_tidy:
  "quiet w \<Longrightarrow> no_tmp w \<Longrightarrow> save_job j w = (r, w') \<Longrightarrow>
     r = Inr () \<and> quiet w' \<and> no_tmp w' \<and> jobs_of w' = (jobs_of w)(job_id j \<mapsto> j)"
  using jobs.save_quiet [of j "job_id j" w] jobs.quiet_save [of j "job_id j" w] jobs_of_save_ok [of j w "()" w']
  by auto

lemma process_job_finishes:
  assumes run: "process_job jid c storage s t w = (s', t', w')" and q: "quiet w" "no_tmp w"
    and keyed: "jobs_keyed w" and job: "jobs_of w jid = Some j" "job_state j \<in> {Queued, Cancelled}"
  shows "quiet w' \<and> no_tmp w' \<and> finished w' jid"
proof (cases "job_state j = Queued")
  case False
  have fr: "only_files {} w w'" by (rule process_job_idle [OF run]) (use job(1) False in simp)
  have "tidy w w'" by (rule tidy_only_files [OF fr]) simp
  moreover have "jobs_of w' = jobs_of w" by (rule only_files_jobs [OF fr]) simp
  ultimately show ?thesis using q job False by (simp add: tidy_def finished_def final_states_def)
next
  case queued: True
  have ld: "fst (load_job jid w) = Inr j" by (rule load_job_quiet [OF q(1) job(1)])
  from run show ?thesis
  proof (cases rule: process_job_cases)
    case untouched
    with ld queued show ?thesis by simp
  next
    case (unmarked j0 w1 at e)
    have "tidy w w1" by (rule tidy_only_files [OF unmarked(3)]) simp
    with q save_job_tidy [OF _ _ unmarked(4)] show ?thesis by (simp add: tidy_def)
  next
    case (delivered j0 w1 at w2 r j1 t1 s1 w3 j2 t2 w4)
    have j0: "j0 = j" "job_id j = jid" "payload_ok j"
      using delivered(1) job(1) keyed by (simp_all add: jobs_keyed_def)
    let ?j = "j\<lparr>job_state := Writing, job_updated_at := at\<rparr>"
    have "tidy w w1" by (rule tidy_only_files [OF delivered(3)]) simp
    moreover have "tidy w1 w2" using tidy_save_job [of w1 ?j] delivered(4) j0 by simp
    moreover have al: "tidy (emit ''job_writing'' (pc_id c) jid (JObject []) w2) w3"
        "payload_ok j1" "job_id j1 = jid"
      using attempt_loop_sends [OF delivered(5)] j0 tidy_sends by (auto simp: payload_ok_def)
    moreover have fin: "tidy w3 w4" by (rule tidy_finish [OF delivered(6) al(2)])
    ultimately have "tidy w w4" by (meson tidy.trans tidy_emit)
    with q have q4: "quiet w4" "no_tmp w4" by (simp_all add: tidy_def)
    have j2: "job_id j2 = jid" "job_state j2 = result_state r"
      using finish_job_jobs [OF delivered(6) al(2)] al(3) by simp_all
    have sv: "quiet (snd (save_job j2 w4)) \<and> no_tmp (snd (save_job j2 w4)) \<and>
        jobs_of (snd (save_job j2 w4)) = (jobs_of w4)(jid \<mapsto> j2)"
      using save_job_tidy [OF q4, of j2] j2(1) by (metis prod.collapse)
    with delivered(7) j2(2) result_state_in [of r] show ?thesis
      by (auto simp: finished_def final_states_def)
  qed
qed

lemma save_queue_tidy:
  assumes "quiet w" and "no_tmp w"
  obtains w' where "save_queue pid q w = (Inr (), w')" "quiet w'" "no_tmp w'" "jobs_of w' = jobs_of w"
proof -
  obtain w' where w': "save_queue pid q w = (Inr (), w')" "no_tmp w'"
    using queues.save_quiet [of w pid q] assms by auto
  moreover have "quiet w'" using queues.quiet_save [of w pid q] assms w' by simp
  ultimately show thesis using that jobs_of_save_queue [OF w'(1)] by blast
qed

lemma serve_finishes:
  assumes q: "quiet w" "no_tmp w" and queue: "wk_queue wk = jid # rest"
    and sound: "sound_queue (wc_pid x) wk w" and run: "serve x jid rest wk w = (wk', w')"
  shows "wk_queue wk' = rest \<and> wk_paused wk' = wk_paused wk \<and> quiet w' \<and> no_tmp w' \<and> finished w' jid"
proof -
  obtain w1 where sq: "save_queue (wc_pid x) rest w = (Inr (), w1)" "quiet w1" "no_tmp w1"
      "jobs_of w1 = jobs_of w"
    by (rule save_queue_tidy [OF q])
  let ?wk = "set_queue_depth (of_nat (length rest) + 1) (wk\<lparr>wk_queue := rest\<rparr>)"
  obtain s t w2 where pj: "process_job jid (wc_config x) (wo_storage (wc_options x))
      (wk_snapshot ?wk) (wk_transport ?wk) w1 = (s, t, w2)" using prod_cases3 by blast
  obtain j where j: "jobs_of w1 jid = Some j" "job_state j \<in> {Queued, Cancelled}" and keyed: "jobs_keyed w1"
    using sound queue sq(4) keyed_same [OF sq(4)] by (auto simp: sound_queue_def waits_def)
  have "wk' = set_queue_depth (of_nat (length rest)) (?wk\<lparr>wk_snapshot := s, wk_transport := t\<rparr>)" "w' = w2"
    using run sq(1) pj by (simp_all add: serve_def Let_def)
  with process_job_finishes [OF pj sq(2,3) keyed j] show ?thesis by (simp add: set_queue_depth_def)
qed

lemma finished_evolves:
  assumes "evolves w w'" and "jobs_keyed w" and "finished w jid"
  shows "finished w' jid"
proof -
  obtain j where j: "jobs_of w jid = Some j" "job_state j \<in> final_states"
    using assms(3) by (auto simp: finished_def)
  have "job_moves (Some j) (jobs_of w' jid)" using assms(1,2) j(1) by (metis evolves_def)
  with j(2) show ?thesis
    by (auto simp: job_moves_def finished_def final_states_def split: option.splits)
qed

text \<open>C6: while every call into the file system succeeds and no temporary file is left over, a thread
  that is not paused and whose queue is sound empties its queue, and every job that waited
  ends accepted, failed, cancelled or with an unknown outcome, whatever the printer does.\<close>

theorem queue_drains:
  assumes "quiet w" and "no_tmp w" and "sound_queue (wc_pid x) wk w" and "\<not> wk_paused wk"
  shows "\<exists>ts wk' w'. runs x (wk, w) ts (wk', w') \<and> length ts = length (wk_queue wk) \<and>
     wk_queue wk' = [] \<and> (\<forall>jid \<in> set (wk_queue wk). finished w' jid)"
  using assms
proof (induction "wk_queue wk" arbitrary: wk w)
  case Nil
  then show ?case by (intro exI [of _ "[]"] exI [of _ wk] exI [of _ w]) (simp add: runs.stop)
next
  case (Cons jid rest)
  note queue = Cons.hyps(2) [symmetric]
  obtain wk1 w1 where run: "serve x jid rest wk w = (wk1, w1)" by fastforce
  have step: "turn_step x (wk, w) (Served jid) (wk1, w1)"
    using turn_step.serve [of wk jid rest x w] Cons.prems(4) queue run by simp
  note fin = serve_finishes [OF Cons.prems(1,2) queue Cons.prems(3) run]
  have ok: "turn_ok (wc_pid x) wk w wk1 w1" using turn_keeps [OF step Cons.prems(3)] by simp
  then have sound1: "sound_queue (wc_pid x) wk1 w1" by (simp add: turn_ok_def)
  obtain ts wk' w' where rest: "runs x (wk1, w1) ts (wk', w')" "length ts = length rest"
      "wk_queue wk' = []" "\<forall>i \<in> set rest. finished w' i"
    using Cons.hyps(1) [of wk1 w1] fin sound1 Cons.prems(4) by auto
  have "finished w' jid"
    using finished_evolves [of w1 w' jid] runs_keep [OF rest(1)] sound1 fin
    by (simp add: sound_queue_def)
  moreover have "runs x (wk, w) ((Served jid, sent_to (wc_pid x) w w1) # ts) (wk', w')"
    using runs.turn [OF step _ rest(1)] by simp
  ultimately show ?case using rest queue by (intro exI conjI) auto
qed

section \<open>Concrete threads\<close>

definition sample_context :: worker_context where
  "sample_context = \<lparr>wc_numeric = sample_numeric, wc_digest = \<lambda>_. ''digest'', wc_config = sample_printer,
     wc_options = \<lparr>wo_storage = Full, wo_reconnect_debounce_secs = 5, wo_reconnect_loss_labels = 2,
       wo_hardware_counters = Prefer\<rparr>\<rparr>"

definition sample_worker :: "uuid list \<Rightarrow> bool \<Rightarrow> worker" where
  "sample_worker q p = \<lparr>wk_queue = q, wk_paused = p, wk_transport = None, wk_ever_connected = False,
     wk_disconnected_at = None, wk_snapshot = new_snapshot 0 ''p''\<rparr>"

definition queued_world :: world where
  "queued_world = world_with [(JobFile 7, Doc (DJob (sample_job Queued))), (PayloadFile 7, Data [94, 88, 65, 10])]"

lemma sample_worker_simps [simp]:
  "wk_queue (sample_worker q p) = q" "wk_paused (sample_worker q p) = p" "wc_pid sample_context = ''p''"
  "wk_snapshot (sample_worker q p) = new_snapshot 0 ''p''" "wk_transport (sample_worker q p) = None"
  by (simp_all add: sample_worker_def sample_context_def sample_printer_def)

lemma queued_world_jobs: "jobs_of queued_world = (\<lambda>i. if i = 7 then Some (sample_job Queued) else None)"
  by (simp add: queued_world_def jobs_of_def fun_eq_iff)

lemma queued_world_simps [simp]: "quiet queued_world" "no_tmp queued_world" "jobs_keyed queued_world"
proof -
  show "jobs_keyed queued_world"
    by (simp add: jobs_keyed_def queued_world_jobs payload_ok_def sample_job_def)
qed (simp_all add: queued_world_def)

lemma sample_sound [simp]: "sound_queue ''p'' (sample_worker [7] b) queued_world"
  by (simp add: sound_queue_def waits_def queued_world_jobs sample_job_def)

lemma cancel_quiet:
  assumes "quiet w" and "no_tmp w" and "sound_queue (wc_pid x) wk w" and "jid \<in> set (wk_queue wk)"
  shows "\<exists>wk' w'. handle x (Cancel jid) wk w = Some (Inr Acknowledged, wk', w')"
proof -
  obtain j where j: "jobs_of w jid = Some j" using assms(3,4) by (auto simp: sound_queue_def waits_def)
  obtain w1 where ld: "load_job jid w = (Inr j, w1)"
    using load_job_quiet [OF assms(1) j] by (cases "load_job jid w") auto
  have "only_files {} w w1" using only_files_loads(1) [of "{}" w jid] ld by simp
  then have "tidy w w1" by (rule tidy_only_files) simp
  then have q1: "quiet (advance w1)" "no_tmp (advance w1)" using assms(1,2) by (simp_all add: tidy_def)
  let ?j = "j\<lparr>job_state := Cancelled, job_updated_at := env_utc (w_env w1) (w_tick w1), job_error := None\<rparr>"
  obtain sr w2 where sv: "save_job ?j (advance w1) = (sr, w2)" by fastforce
  from save_job_tidy [OF q1 sv] have q2: "sr = Inr ()" "quiet w2" "no_tmp w2" by simp_all
  obtain w3 where sq: "save_queue (wc_pid x) (remove1 jid (wk_queue wk)) w2 = (Inr (), w3)"
    by (rule save_queue_tidy [OF q2(2,3)])
  show ?thesis using assms(4) ld sv q2(1) sq by (simp add: handle_cancel_def now_def Let_def)
qed

theorem queue_drains_witness:
  "\<exists>ts wk' w'. runs sample_context (sample_worker [7] False, queued_world) ts (wk', w') \<and>
     length ts = 1 \<and> wk_queue wk' = [] \<and> finished w' 7"
  using queue_drains [of queued_world sample_context "sample_worker [7] False"] by simp

theorem turn_refines_fifo_witness:
  "\<exists>r wk' w'. handle sample_context (SetQueuePaused False) (sample_worker [7] True) queued_world =
       Some (r, wk', w') \<and>
     fifo_step (Answered (SetQueuePaused False) r) ([7], True) (queue_view wk')"
proof -
  obtain r wk' w' where run: "handle sample_context (SetQueuePaused False) (sample_worker [7] True) queued_world =
      Some (r, wk', w')" using prod_cases3 by (metis handle.simps(4))
  have "turn_step sample_context (sample_worker [7] True, queued_world)
      (Answered (SetQueuePaused False) r) (wk', w')"
    by (rule turn_step.receive [OF _ run]) simp
  from turn_refines_fifo [OF this] run show ?thesis by (auto simp: queue_view_def)
qed

theorem queue_stays_sound_witness:
  "\<exists>t bs wk' w'. runs sample_context (sample_worker [7] False, queued_world) [(t, bs)] (wk', w') \<and>
     sound_queue ''p'' wk' w'"
proof -
  obtain wk' w' where "serve sample_context 7 [] (sample_worker [7] False) queued_world = (wk', w')"
    by fastforce
  then have "turn_step sample_context (sample_worker [7] False, queued_world) (Served 7) (wk', w')"
    using turn_step.serve [of "sample_worker [7] False" 7 "[]" sample_context queued_world] by simp
  from runs.turn [OF this _ runs.stop] have run: "runs sample_context (sample_worker [7] False, queued_world)
      [(Served 7, sent_to ''p'' queued_world w')] (wk', w')" by simp
  from queue_stays_sound [OF run] run show ?thesis by auto
qed

theorem cancelled_never_sent_witness:
  "\<exists>a wk' w'. handle sample_context (Cancel 7) (sample_worker [7] True) queued_world = Some (Inr a, wk', w') \<and>
     map_option job_state (jobs_of w' 7) = Some Cancelled"
proof -
  obtain wk' w' where run: "handle sample_context (Cancel 7) (sample_worker [7] True) queued_world =
      Some (Inr Acknowledged, wk', w')"
    using cancel_quiet [of queued_world sample_context "sample_worker [7] True" 7] by auto
  from cancelled_never_sent [OF run _ runs.stop] run show ?thesis by auto
qed

end
