(* ===== verification/Driver.thy ===== *)
theory Driver
  imports Device
begin

text \<open>
  The raster driver of \<open>src/driver.rs\<close> and the hexadecimal encoding of \<open>src/hash.rs\<close>: which
  content types a driver accepts, how a packed raster page becomes a Zebra graphics
  command, and which dots a printer that reads the command prints. Base64 decoding, JSON parsing and SHA-256 are crates the code calls; they are
  the parameters of \<open>codecs\<close>. Of an error message that quotes its argument only the
  constant part is kept.
\<close>

section \<open>Results without a world\<close>

definition bindR :: "'e + 'a \<Rightarrow> ('a \<Rightarrow> 'e + 'b) \<Rightarrow> 'e + 'b" where
  "bindR r k = (case r of Inl e \<Rightarrow> Inl e | Inr x \<Rightarrow> k x)"

text \<open>\<open>context(e)\<close> on an option or a failing call.\<close>

definition or_error :: "'e \<Rightarrow> 'a option \<Rightarrow> 'e + 'a" where
  "or_error e r = (case r of None \<Rightarrow> Inl e | Some x \<Rightarrow> Inr x)"

lemma bindR_Inr: "bindR r k = Inr y \<longleftrightarrow> (\<exists>x. r = Inr x \<and> k x = Inr y)"
  by (auto simp: bindR_def split: sum.splits)

lemma bindR_simps [simp]: "bindR (Inl e) k = Inl e" "bindR (Inr x) k = k x"
  by (simp_all add: bindR_def)

lemma or_error_Inr [simp]: "or_error e r = Inr x \<longleftrightarrow> r = Some x"
  by (simp add: or_error_def split: option.split)

lemma or_error_simps [simp]: "or_error e None = Inl e" "or_error e (Some x) = Inr x"
  by (simp_all add: or_error_def)

lemma check_Inr [simp]: "check c e = Inr u \<longleftrightarrow> c"
  by (simp add: check_def)

lemma checks_Cons_Inr [simp]: "checks (c # cs) = Inr u \<longleftrightarrow> c = Inr () \<and> checks cs = Inr u"
  by (auto split: sum.splits)

section \<open>Hexadecimal text\<close>

definition encode_hex :: "u8 list \<Rightarrow> string" where
  "encode_hex bs = concat (map (hex_byte False) bs)"

definition hexadecimal :: "u8 list \<Rightarrow> string" where
  "hexadecimal bs = concat (map (hex_byte True) bs)"

interpretation hex_lower: codec encode_hex decode_hex
  by unfold_locales (simp add: encode_hex_def decode_hex_concat)

interpretation hex_upper: codec hexadecimal decode_hex
  by unfold_locales (simp add: hexadecimal_def decode_hex_concat)

lemma length_hex: "length (encode_hex bs) = 2 * length bs" "length (hexadecimal bs) = 2 * length bs"
  by (induction bs) (simp_all add: encode_hex_def hexadecimal_def hex_byte_def)

section \<open>Drivers\<close>

record driver_descriptor =
  dd_id :: string
  dd_accepted_mime_types :: "string list"
  dd_available :: bool
  dd_device_configuration :: bool
  dd_status_probe :: bool

definition ZPL_MIME :: string where "ZPL_MIME = ''application/zpl''"
definition RASTER_MIME :: string where "RASTER_MIME = ''application/vnd.printhub.raster-page+json''"

definition DRIVERS :: "driver_descriptor list" where
  "DRIVERS = [\<lparr>dd_id = ''zpl'', dd_accepted_mime_types = [ZPL_MIME, RASTER_MIME],
     dd_available = True, dd_device_configuration = True, dd_status_probe = True\<rparr>]"

definition descriptor :: "string \<Rightarrow> driver_descriptor option" where
  "descriptor i = find (\<lambda>d. dd_id d = i) DRIVERS"

text \<open>\<open>content_type.split(';').next().unwrap_or("").trim()\<close>\<close>

definition mime_of :: "string \<Rightarrow> string" where
  "mime_of content_type = trim_ws (hd (split_char (CHR '';'') content_type))"

definition accepts :: "driver_descriptor \<Rightarrow> string \<Rightarrow> bool" where
  "accepts d content_type = (mime_of content_type \<in> set (dd_accepted_mime_types d))"

section \<open>Raster pages\<close>

record prepared_payload =
  pp_bytes :: "u8 list"
  pp_label_count :: "u64 option"

record raster_page =
  rg_version :: u8
  rg_width_px :: u32
  rg_height_px :: u32
  rg_dpi :: u32
  rg_copies :: u16
  rg_black_bits_base64 :: string

text \<open>The object whose JSON text is hashed to identify a request (\<open>src/protocol_v2.rs\<close>).\<close>

record canonical_request =
  cr_printer_id :: string
  cr_copies :: u16
  cr_media_revision :: "string option"
  cr_reprint_of :: "string option"
  cr_options :: json
  cr_artifacts :: "(string \<times> string) list"

text \<open>The crates: base64 (standard alphabet), the typed and the untyped JSON reader, SHA-256,
  and the JSON text of a canonical request.\<close>

record codecs =
  cd_base64 :: "string \<Rightarrow> u8 list option"
  cd_raster :: "u8 list \<Rightarrow> raster_page option"
  cd_json :: "u8 list \<Rightarrow> json option"
  cd_sha256 :: "u8 list \<Rightarrow> u8 list"
  cd_canonical :: "canonical_request \<Rightarrow> u8 list"

definition div_ceil :: "u32 \<Rightarrow> u32 \<Rightarrow> u32" where
  "div_ceil a b = a div b + (if a mod b = 0 then 0 else 1)"

function chunks_exact :: "nat \<Rightarrow> 'a list \<Rightarrow> 'a list list" where
  "chunks_exact n xs =
     (if n = 0 \<or> length xs < n then [] else take n xs # chunks_exact n (drop n xs))"
  by pat_completeness auto
termination
  by (relation "measure (length \<circ> snd)") auto

declare chunks_exact.simps [simp del]

definition unused_mask :: "u32 \<Rightarrow> u8" where
  "unused_mask used_bits = push_bit (8 - unat used_bits) 1 - 1"

definition unused_bits_white :: "u32 \<Rightarrow> nat \<Rightarrow> u8 list \<Rightarrow> bool" where
  "unused_bits_white used_bits bytes_per_row packed =
     (used_bits \<noteq> 0 \<longrightarrow>
      list_all (\<lambda>row. row ! (bytes_per_row - 1) AND unused_mask used_bits = 0)
        (chunks_exact bytes_per_row packed))"

definition graphics_zpl :: "raster_page \<Rightarrow> usize \<Rightarrow> usize \<Rightarrow> u8 list \<Rightarrow> string" where
  "graphics_zpl g expected bytes_per_row packed =
     ''^XA'' @ newline @ ''^PW'' @ show_word (rg_width_px g) @ newline @
     ''^LL'' @ show_word (rg_height_px g) @ newline @ ''^FO0,0'' @ newline @
     ''^GFA,'' @ show_word expected @ '','' @ show_word expected @ '','' @ show_word bytes_per_row @ '','' @
     hexadecimal packed @ newline @ ''^FS'' @ newline @ ''^PQ'' @ show_word (rg_copies g) @ newline @
     ''^XZ'' @ newline"

definition raster_checks :: "raster_page \<Rightarrow> device_profile \<Rightarrow> string + unit" where
  "raster_checks g p = checks [
     check (rg_version g = 1) ''unsupported raster page version'',
     check (0 < rg_width_px g \<and> 0 < rg_height_px g) ''raster dimensions must be positive'',
     check (0 < rg_copies g \<and> rg_copies g \<le> 999) ''raster copies must be between 1 and 999'',
     check (rg_width_px g \<le> dp_max_width_dots p) ''raster width exceeds printer profile'',
     check (rg_height_px g \<le> dp_max_length_dots p) ''raster height exceeds printer profile'',
     check (case dp_resolution_dpi p of None \<Rightarrow> True | Some dpi \<Rightarrow> rg_dpi g = dpi)
       ''raster DPI does not match printer profile'']"

definition encode_raster_page :: "codecs \<Rightarrow> u8 list \<Rightarrow> device_profile \<Rightarrow> string + prepared_payload" where
  "encode_raster_page cd source p =
     bindR (or_error ''invalid PrintHub raster page JSON'' (cd_raster cd source)) (\<lambda>g.
     bindR (raster_checks g p) (\<lambda>_.
     let bytes_per_row = ucast (div_ceil (rg_width_px g) 8) :: usize in
     bindR (or_error ''raster dimensions overflow'' (checked_mul bytes_per_row (ucast (rg_height_px g)))) (\<lambda>expected.
     bindR (or_error ''invalid raster base64'' (cd_base64 cd (rg_black_bits_base64 g))) (\<lambda>packed.
     bindR (check (length packed = unat expected) ''raster byte count does not match dimensions'') (\<lambda>_.
     bindR (check (unused_bits_white (rg_width_px g mod 8) (unat bytes_per_row) packed)
       ''unused raster row bits must be white'') (\<lambda>_.
       Inr \<lparr>pp_bytes = bytes_of (graphics_zpl g expected bytes_per_row packed),
            pp_label_count = Some (ucast (rg_copies g))\<rparr>))))))"

definition prepare_zebra_payload :: "codecs \<Rightarrow> string \<Rightarrow> u8 list \<Rightarrow> device_profile \<Rightarrow> string + prepared_payload" where
  "prepare_zebra_payload cd content_type source p =
     (if mime_of content_type = ZPL_MIME then Inr \<lparr>pp_bytes = source, pp_label_count = None\<rparr>
      else if mime_of content_type = RASTER_MIME then encode_raster_page cd source p
      else Inl ''unsupported Zebra payload type'')"

section \<open>What is printed\<close>

text \<open>The pixel in column \<open>x\<close> of row \<open>y\<close> of a packed page: rows of \<open>n\<close> bytes, the most
  significant bit first.\<close>

definition pixel :: "nat \<Rightarrow> u8 list \<Rightarrow> nat \<Rightarrow> nat \<Rightarrow> bool" where
  "pixel n packed x y = bit (packed ! (y * n + x div 8)) (7 - x mod 8)"

lemma chunks_exact_rows:
  assumes "0 < n" and "length xs = n * h"
  shows "chunks_exact n xs = map (\<lambda>y. take n (drop (y * n) xs)) [0..<h]"
  using assms(2)
proof (induction h arbitrary: xs)
  case 0
  with assms(1) show ?case by (simp add: chunks_exact.simps)
next
  case (Suc h)
  have "chunks_exact n (drop n xs) = map (\<lambda>y. take n (drop (y * n) (drop n xs))) [0..<h]"
    by (rule Suc.IH) (simp add: Suc.prems)
  moreover have "map (\<lambda>y. take n (drop (y * n) xs)) [0..<Suc h] =
      take n xs # map (\<lambda>y. take n (drop (Suc y * n) xs)) [0..<h]"
    by (simp only: upt_conv_Cons [of 0 "Suc h"] zero_less_Suc list.map map_Suc_upt [symmetric] map_map)
       (simp add: comp_def)
  ultimately show ?case
    using Suc.prems assms(1) by (simp add: chunks_exact.simps [of n xs] add.commute)
qed

lemma unused_mask_bits: "used \<le> 8 \<Longrightarrow> bit (unused_mask used) i \<longleftrightarrow> i < 8 - unat used"
proof -
  assume "used \<le> 8"
  have "unused_mask used = mask (8 - unat used)"
    by (simp add: unused_mask_def mask_eq_exp_minus_1 push_bit_eq_mult)
  then show ?thesis by (auto simp: bit_mask_iff)
qed

lemma unat_div_ceil: "unat (div_ceil w 8) = (unat w + 7) div 8" for w :: u32
proof -
  have b: "unat w < 2 ^ 32" using unsigned_less [of w] by simp
  have u: "unat (w div 8) = unat w div 8" "unat (w mod 8) = unat w mod 8"
    by (simp_all add: unat_div unat_mod)
  show ?thesis
  proof (cases "w mod 8 = 0")
    case True
    then have "unat w mod 8 = 0" using u(2) by simp
    with True u(1) show ?thesis by (simp add: div_ceil_def) presburger
  next
    case False
    then have m: "unat w mod 8 \<noteq> 0" using u(2) by (metis unat_eq_zero)
    have "unat (w div 8 + 1) = unat w div 8 + 1"
      using b u(1) by (simp add: unat_word_ariths)
    with m False show ?thesis by (simp add: div_ceil_def) presburger
  qed
qed

lemma unat_widen: "unat (ucast w :: usize) = unat w" for w :: u32
proof -
  have "unat w < 2 ^ 32" using unsigned_less [of w] by simp
  then show ?thesis by (simp add: unsigned_ucast_eq take_bit_nat_eq_self)
qed

lemma row_index: "y < h \<Longrightarrow> d < n \<Longrightarrow> y * n + d < n * (h :: nat)"
proof -
  assume "y < h" "d < n"
  then have "y * n + d < (y + 1) * n" by simp
  also have "\<dots> \<le> h * n" using \<open>y < h\<close> by (intro mult_le_mono1) simp
  finally show ?thesis by (simp add: mult.commute)
qed

lemma last_byte:
  assumes n: "n = (w + 7) div (8 :: nat)" and x: "w \<le> x" "x < 8 * n"
  shows "x div 8 = n - 1" "w mod 8 \<le> x mod 8" "w mod 8 \<noteq> 0" "0 < n"
proof -
  obtain q u where w: "w = 8 * q + u" "u < 8" by (metis mod_less_divisor mult_div_mod_eq zero_less_numeral)
  have u: "u \<noteq> 0"
  proof
    assume "u = 0"
    then have "n = q" using n w by simp
    with x w show False by simp
  qed
  then have nq: "n = q + 1" using n w by (simp add: div_nat_eqI)
  then obtain r where r: "x = 8 * q + r" "u \<le> r" "r < 8"
    using x w le_Suc_ex [OF x(1)] by auto
  with nq w u show "x div 8 = n - 1" "w mod 8 \<le> x mod 8" "w mod 8 \<noteq> 0" "0 < n" by simp_all
qed

text \<open>The check of the unused bits says that nothing is black right of the page.\<close>

lemma unused_white_pixels:
  assumes white: "unused_bits_white (w mod 8) n packed" and n: "n = (unat w + 7) div 8"
    and len: "length packed = n * h" and y: "y < h" and x: "unat w \<le> x" "x < 8 * n"
  shows "\<not> pixel n packed x y"
proof -
  let ?u = "unat w mod 8"
  have u: "unat (w mod 8) = ?u" by (simp add: unat_mod)
  note last = last_byte [OF n x]
  have used: "w mod 8 \<noteq> 0" using u last(3) by (metis unsigned_0)
  have "w mod 8 < 8" by (simp add: word_mod_less_divisor)
  then have le: "w mod 8 \<le> 8" by simp
  have "take n (drop (y * n) packed) \<in> set (chunks_exact n packed)"
    using y chunks_exact_rows [OF last(4) len] by auto
  then have "take n (drop (y * n) packed) ! (n - 1) AND unused_mask (w mod 8) = 0"
    using white used by (auto simp: unused_bits_white_def list_all_iff)
  moreover have "take n (drop (y * n) packed) ! (n - 1) = packed ! (y * n + (n - 1))"
    using row_index [OF y last(4)] len last(4) by simp
  ultimately have zero: "packed ! (y * n + (n - 1)) AND unused_mask (w mod 8) = 0" by simp
  have "bit (unused_mask (w mod 8)) (7 - x mod 8)"
    using unused_mask_bits [OF le] u last(2) by (auto simp: less_diff_conv)
  then have "\<not> bit (packed ! (y * n + (n - 1))) (7 - x mod 8)"
    using zero by (auto simp: bit_eq_iff bit_and_iff)
  then show ?thesis using last(1) by (simp add: pixel_def)
qed

lemma encode_raster_Inr:
  assumes "encode_raster_page cd source p = Inr pp"
  obtains g e packed where "cd_raster cd source = Some g" "cd_base64 cd (rg_black_bits_base64 g) = Some packed"
    "raster_checks g p = Inr ()" "unat e = (unat (rg_width_px g) + 7) div 8 * unat (rg_height_px g)"
    "length packed = unat e"
    "unused_bits_white (rg_width_px g mod 8) ((unat (rg_width_px g) + 7) div 8) packed"
    "pp = \<lparr>pp_bytes = bytes_of (graphics_zpl g e (of_nat ((unat (rg_width_px g) + 7) div 8)) packed),
       pp_label_count = Some (ucast (rg_copies g))\<rparr>"
proof -
  obtain g where g: "cd_raster cd source = Some g"
    using assms by (auto simp: encode_raster_page_def bindR_Inr)
  let ?bpr = "ucast (div_ceil (rg_width_px g) 8) :: usize"
  let ?n = "(unat (rg_width_px g) + 7) div 8"
  have bpr: "unat ?bpr = ?n" using unat_div_ceil [of "rg_width_px g"] by (simp add: unat_widen)
  obtain e packed where data: "cd_base64 cd (rg_black_bits_base64 g) = Some packed"
    and ck: "raster_checks g p = Inr ()"
    and e: "checked_mul ?bpr (ucast (rg_height_px g)) = Some e" and len: "length packed = unat e"
    and white: "unused_bits_white (rg_width_px g mod 8) (unat ?bpr) packed"
    and pp: "pp = \<lparr>pp_bytes = bytes_of (graphics_zpl g e ?bpr packed), pp_label_count = Some (ucast (rg_copies g))\<rparr>"
    using assms g by (auto simp: encode_raster_page_def Let_def bindR_Inr)
  have "?bpr = of_nat ?n" using bpr [symmetric] by simp
  moreover have "unat e = ?n * unat (rg_height_px g)"
    using checked_mul_Some [OF e] bpr by (simp add: unat_widen)
  ultimately show thesis using that g data ck len white pp bpr by simp
qed

section \<open>Reading a graphics command back\<close>

text \<open>What a printer reads from the fields of the command: the sizes and the packed rows.\<close>

definition read_graphics :: "string \<Rightarrow> (usize option \<times> usize option \<times> u8 list option) option" where
  "read_graphics z =
     (case split_char (CHR '','') z of
        [_, _, sz, _, row, rest] \<Rightarrow>
          Some (parse_word sz, parse_word row, decode_hex (takeWhile (\<lambda>c. c \<noteq> byte_char 10) rest))
      | _ \<Rightarrow> None)"

lemma split_char_Cons: "c \<notin> set a \<Longrightarrow> split_char c (a @ c # b) = a # split_char c b"
  by (induction a) (auto split: list.splits simp: split_char_nonempty)

lemma split_char_none: "c \<notin> set a \<Longrightarrow> split_char c a = [a]"
  by (induction a) auto

lemma hexdigits: "list_all is_hexdigit (hexadecimal bs)"
proof (induction bs)
  case Nil
  show ?case by (simp add: hexadecimal_def)
next
  case (Cons b bs)
  have "unat b < 256" using unsigned_less [of b] by simp
  then have "unat b div 16 < 16" "unat b mod 16 < 16" by simp_all
  with Cons show ?case by (simp add: hexadecimal_def hex_byte_def hex_char_ok)
qed

lemma not_separators:
  "is_hexdigit c \<Longrightarrow> c \<noteq> CHR '','' \<and> c \<noteq> byte_char 10"
  "is_digit c \<Longrightarrow> c \<noteq> CHR '','' \<and> c \<noteq> byte_char 10"
proof -
  have "char_code (CHR '','') = 44" "char_code (byte_char 10) = 10"
    by (simp_all add: char_code_def byte_char_def)
  then show "is_hexdigit c \<Longrightarrow> c \<noteq> CHR '','' \<and> c \<noteq> byte_char 10"
    "is_digit c \<Longrightarrow> c \<noteq> CHR '','' \<and> c \<noteq> byte_char 10"
    by (auto simp: is_hexdigit_def is_digit_def)
qed

lemma separators_absent:
  "CHR '','' \<notin> set (hexadecimal bs)" "byte_char 10 \<notin> set (hexadecimal bs)"
  "CHR '','' \<notin> set (show_word w)" "byte_char 10 \<notin> set (show_word w)"
proof -
  have "\<forall>c \<in> set (hexadecimal bs). c \<noteq> CHR '','' \<and> c \<noteq> byte_char 10"
    using hexdigits [of bs] not_separators(1) unfolding list_all_iff by blast
  then show "CHR '','' \<notin> set (hexadecimal bs)" "byte_char 10 \<notin> set (hexadecimal bs)" by blast+
  have "\<forall>c \<in> set (show_word w). c \<noteq> CHR '','' \<and> c \<noteq> byte_char 10"
    using all_digits_show_nat [of "unat w"] not_separators(2)
    unfolding list_all_iff all_digits_def show_word_def by blast
  then show "CHR '','' \<notin> set (show_word w)" "byte_char 10 \<notin> set (show_word w)" by blast+
qed

lemma newline_comma: "CHR '','' \<notin> set newline"
proof -
  have "char_code (CHR '','') = 44" "char_code (byte_char 10) = 10"
    by (simp_all add: char_code_def byte_char_def)
  then have "CHR '','' \<noteq> byte_char 10" by auto
  then show ?thesis by (simp add: newline_def)
qed

text \<open>C39: reading the fields of a graphics command gives back the number of bytes, the bytes
  per row and the packed rows it was made from.\<close>

theorem graphics_roundtrip:
  "read_graphics (graphics_zpl g sz row packed) = Some (Some sz, Some row, Some packed)"
proof -
  let ?head = "''^XA'' @ newline @ ''^PW'' @ show_word (rg_width_px g) @ newline @
     ''^LL'' @ show_word (rg_height_px g) @ newline @ ''^FO0''"
  let ?rest = "hexadecimal packed @ newline @ ''^FS'' @ newline @ ''^PQ'' @ show_word (rg_copies g) @ newline @
     ''^XZ'' @ newline"
  have z: "graphics_zpl g sz row packed = ?head @ CHR '','' # (''0'' @ newline @ ''^GFA'') @ CHR '','' #
      show_word sz @ CHR '','' # show_word sz @ CHR '','' # show_word row @ CHR '','' # ?rest"
    by (simp add: graphics_zpl_def)
  have "CHR '','' \<notin> set ?head" "CHR '','' \<notin> set (''0'' @ newline @ ''^GFA'')" "CHR '','' \<notin> set ?rest"
    by (simp_all add: separators_absent newline_comma)
  then have "split_char (CHR '','') (graphics_zpl g sz row packed) =
      [?head, ''0'' @ newline @ ''^GFA'', show_word sz, show_word sz, show_word row, ?rest]"
    unfolding z by (simp only: split_char_Cons split_char_none separators_absent not_False_eq_True)
  moreover have "takeWhile (\<lambda>c. c \<noteq> byte_char 10) ?rest = hexadecimal packed"
    using separators_absent(2) [of packed] by (subst takeWhile_append2) (auto simp: newline_def)
  ultimately show ?thesis
    by (simp add: read_graphics_def parse_word_show_word hex_upper.roundtrip)
qed

section \<open>What a printer makes of a page\<close>

text \<open>A reader of the page, written from the format and not from the encoder: a line for
  each command, numbers in decimal, the graphics field as its two byte counts, the bytes of
  one row and the data in hexadecimal, each byte eight dots from the most significant bit
  on. It yields the width, the length, the rows of dots and the number of copies.\<close>

definition after_name :: "string \<Rightarrow> string \<Rightarrow> string option" where
  "after_name name l = (if take (length name) l = name then Some (drop (length name) l) else None)"

definition read_number :: "string \<Rightarrow> nat option" where
  "read_number s = (if all_digits s then Some (digits_value 0 s) else None)"

definition byte_dots :: "u8 \<Rightarrow> bool list" where
  "byte_dots b = map (bit b) [7, 6, 5, 4, 3, 2, 1, 0]"

definition dot_rows :: "nat \<Rightarrow> u8 list \<Rightarrow> bool list list" where
  "dot_rows n data = map (\<lambda>y. concat (map byte_dots (take n (drop (y * n) data)))) [0..<length data div n]"

definition read_field :: "string \<Rightarrow> bool list list option" where
  "read_field f =
     (case split_char (CHR '','') f of
        [a, b, n, hex] \<Rightarrow>
          Option.bind (read_number a) (\<lambda>a. Option.bind (read_number b) (\<lambda>b.
          Option.bind (read_number n) (\<lambda>n. Option.bind (decode_hex hex) (\<lambda>data.
            if a = length data \<and> b = length data then Some (dot_rows n data) else None))))
      | _ \<Rightarrow> None)"

definition read_label :: "u8 list \<Rightarrow> (nat \<times> nat \<times> bool list list \<times> nat) option" where
  "read_label bs =
     (case split_char (byte_char 10) (string_of_bytes bs) of
        [xa, pw, ll, fo, gf, fs, pq, xz, []] \<Rightarrow>
          if xa = ''^XA'' \<and> fo = ''^FO0,0'' \<and> fs = ''^FS'' \<and> xz = ''^XZ'' then
            Option.bind (Option.bind (after_name ''^PW'' pw) read_number) (\<lambda>w.
            Option.bind (Option.bind (after_name ''^LL'' ll) read_number) (\<lambda>l.
            Option.bind (Option.bind (after_name ''^GFA,'' gf) read_field) (\<lambda>rows.
            Option.bind (Option.bind (after_name ''^PQ'' pq) read_number) (\<lambda>q.
              Some (w, l, rows, q)))))
          else None
      | _ \<Rightarrow> None)"

lemma after_name_append [simp]: "after_name name (name @ s) = Some s"
  by (simp add: after_name_def)

lemma read_number_show_word: "read_number (show_word w) = Some (unat w)"
  by (simp add: read_number_def show_word_def all_digits_show_nat digits_value_show_nat)

lemma read_field_written:
  assumes "unat e = length packed"
  shows "read_field (show_word e @ '','' @ show_word e @ '','' @ show_word m @ '','' @ hexadecimal packed) =
    Some (dot_rows (unat m) packed)"
proof -
  have "split_char (CHR '','') (show_word e @ '','' @ show_word e @ '','' @ show_word m @ '','' @ hexadecimal packed) =
      [show_word e, show_word e, show_word m, hexadecimal packed]"
    by (simp add: split_char_Cons split_char_none separators_absent)
  then show ?thesis
    using assms by (simp add: read_field_def read_number_show_word hex_upper.roundtrip)
qed

lemma newline_absent:
  "byte_char 10 \<notin> set ''^XA''" "byte_char 10 \<notin> set ''^PW''" "byte_char 10 \<notin> set ''^LL''"
  "byte_char 10 \<notin> set ''^FO0,0''" "byte_char 10 \<notin> set ''^GFA,''" "byte_char 10 \<notin> set '',''"
  "byte_char 10 \<notin> set ''^FS''" "byte_char 10 \<notin> set ''^PQ''" "byte_char 10 \<notin> set ''^XZ''"
  by (simp_all add: byte_char_def char_of_def)

text \<open>The reader on what the encoder writes.\<close>

lemma read_label_written:
  assumes "unat e = length packed"
  shows "read_label (bytes_of (graphics_zpl g e m packed)) =
    Some (unat (rg_width_px g), unat (rg_height_px g), dot_rows (unat m) packed, unat (rg_copies g))"
proof -
  let ?nl = "byte_char 10"
  let ?f = "show_word e @ '','' @ show_word e @ '','' @ show_word m @ '','' @ hexadecimal packed"
  let ?pw = "''^PW'' @ show_word (rg_width_px g)" and ?ll = "''^LL'' @ show_word (rg_height_px g)"
  let ?gf = "''^GFA,'' @ ?f" and ?pq = "''^PQ'' @ show_word (rg_copies g)"
  have z: "graphics_zpl g e m packed = ''^XA'' @ ?nl # ?pw @ ?nl # ?ll @ ?nl # ''^FO0,0'' @ ?nl # ?gf @ ?nl #
      ''^FS'' @ ?nl # ?pq @ ?nl # ''^XZ'' @ ?nl # []"
    by (simp add: graphics_zpl_def newline_def)
  have parts: "?nl \<notin> set ?pw" "?nl \<notin> set ?ll" "?nl \<notin> set ?gf" "?nl \<notin> set ?pq"
    by (simp_all only: set_append Un_iff newline_absent separators_absent simp_thms not_False_eq_True)
  have "split_char ?nl (graphics_zpl g e m packed) =
      [''^XA'', ?pw, ?ll, ''^FO0,0'', ?gf, ''^FS'', ?pq, ''^XZ'', []]"
    unfolding z by (simp only: split_char_Cons parts newline_absent not_False_eq_True split_char.simps)
  then show ?thesis
    by (simp only: read_label_def string_of_bytes_of list.case if_True simp_thms after_name_append
        bind.bind_lunit read_number_show_word read_field_written [OF assms])
qed

lemma nth_concat_bytes:
  "x < 8 * length bs \<Longrightarrow> concat (map byte_dots bs) ! x \<longleftrightarrow> bit (bs ! (x div 8)) (7 - x mod 8)"
proof (induction bs arbitrary: x)
  case Nil
  then show ?case by simp
next
  case (Cons b bs)
  have len: "length (byte_dots b) = 8" by (simp add: byte_dots_def)
  show ?case
  proof (cases "x < 8")
    case True
    then have "x \<in> {0, 1, 2, 3, 4, 5, 6, 7}" by auto
    then have "byte_dots b ! x \<longleftrightarrow> bit b (7 - x)" by (auto simp: byte_dots_def)
    with True len show ?thesis by (simp add: nth_append)
  next
    case False
    then obtain y where y: "x = 8 + y" by (metis le_Suc_ex not_less)
    with Cons.prems have "y < 8 * length bs" by simp
    moreover have "x div 8 = Suc (y div 8)" "x mod 8 = y mod 8" using y by simp_all
    ultimately show ?thesis using Cons.IH [of y] len y by (simp add: nth_append)
  qed
qed

lemma length_concat_bytes: "length (concat (map byte_dots bs)) = 8 * length bs"
  by (induction bs) (simp_all add: byte_dots_def)

lemma dot_rows_exact:
  assumes n: "0 < n" and len: "length data = n * h"
  shows "length (dot_rows n data) = h"
    "y < h \<Longrightarrow> length (dot_rows n data ! y) = 8 * n"
    "y < h \<Longrightarrow> x < 8 * n \<Longrightarrow> dot_rows n data ! y ! x \<longleftrightarrow> pixel n data x y"
proof -
  have h: "length data div n = h" using n len by simp
  then show "length (dot_rows n data) = h" by (simp add: dot_rows_def)
  assume y: "y < h"
  have row: "dot_rows n data ! y = concat (map byte_dots (take n (drop (y * n) data)))"
    using y h by (simp add: dot_rows_def)
  have "n + y * n \<le> h * n" using y mult_le_mono1 [of "Suc y" h n] by simp
  then have fits: "n \<le> length data - y * n" using len by (simp add: mult.commute)
  then have rl: "length (take n (drop (y * n) data)) = n" by simp
  then show "length (dot_rows n data ! y) = 8 * n" unfolding row by (simp only: length_concat_bytes)
  assume x: "x < 8 * n"
  then have d: "x div 8 < n" by (simp add: less_mult_imp_div_less mult.commute)
  have "dot_rows n data ! y ! x \<longleftrightarrow> bit (take n (drop (y * n) data) ! (x div 8)) (7 - x mod 8)"
    unfolding row by (rule nth_concat_bytes) (use x rl in simp)
  also have "take n (drop (y * n) data) ! (x div 8) = data ! (y * n + x div 8)"
    using d fits by simp
  finally show "dot_rows n data ! y ! x \<longleftrightarrow> pixel n data x y" by (simp add: pixel_def)
qed

text \<open>C26: an accepted raster page fits the profile of the printer, in dots and in dots per
  inch, and what is sent prints it dot for dot: read back, the page has the width, the
  length and the number of copies of the request, and a dot is black exactly if it lies
  inside the page and is black in the image.\<close>

theorem raster_page_exact:
  assumes enc: "encode_raster_page cd source p = Inr pp" and n: "n = (unat (rg_width_px g) + 7) div 8"
    and page: "cd_raster cd source = Some g" and data: "cd_base64 cd (rg_black_bits_base64 g) = Some packed"
  shows "(\<exists>rows. read_label (pp_bytes pp) =
         Some (unat (rg_width_px g), unat (rg_height_px g), rows, unat (rg_copies g)) \<and>
       length rows = unat (rg_height_px g) \<and>
       (\<forall>y < unat (rg_height_px g). length (rows ! y) = 8 * n \<and>
          (\<forall>x < 8 * n. rows ! y ! x \<longleftrightarrow> x < unat (rg_width_px g) \<and> pixel n packed x y))) \<and>
     length packed = n * unat (rg_height_px g) \<and>
     pp_label_count pp = Some (ucast (rg_copies g)) \<and> 0 < rg_copies g \<and> rg_copies g \<le> 999 \<and>
     0 < rg_width_px g \<and> rg_width_px g \<le> dp_max_width_dots p \<and>
     0 < rg_height_px g \<and> rg_height_px g \<le> dp_max_length_dots p \<and>
     (dp_resolution_dpi p = None \<or> dp_resolution_dpi p = Some (rg_dpi g))"
  using enc
proof (cases rule: encode_raster_Inr)
  case (1 g' e packed')
  then have same: "g' = g" "packed' = packed" using page data by simp_all
  let ?h = "unat (rg_height_px g)"
  have len: "length packed = n * ?h" and e: "unat e = length packed" using 1 same n by simp_all
  have fits: "0 < rg_copies g" "rg_copies g \<le> 999" "0 < rg_width_px g" "rg_width_px g \<le> dp_max_width_dots p"
    "0 < rg_height_px g" "rg_height_px g \<le> dp_max_length_dots p"
    "dp_resolution_dpi p = None \<or> dp_resolution_dpi p = Some (rg_dpi g)"
    using 1(3) same by (auto simp: raster_checks_def simp del: checks.simps(2) split: option.splits)
  have "unat (rg_width_px g) < 2 ^ 32" using unsigned_less [of "rg_width_px g"] by simp
  then have small: "unat (of_nat n :: usize) = n" using n by (simp add: unat_of_nat)
  have "0 < unat (rg_width_px g)" using fits(3) by (simp add: unat_gt_0)
  then have pos: "0 < n" using n by simp
  have "read_label (pp_bytes pp) =
      Some (unat (rg_width_px g), ?h, dot_rows n packed, unat (rg_copies g))"
    using 1(7) same n small read_label_written [OF e, of g "of_nat n"] by simp
  moreover have "dot_rows n packed ! y ! x \<longleftrightarrow> x < unat (rg_width_px g) \<and> pixel n packed x y"
    if y: "y < ?h" and x: "x < 8 * n" for x y
    using dot_rows_exact(3) [OF pos len y x] unused_white_pixels [OF _ n len y _ x] 1(6) same n
    by (metis not_less)
  ultimately show ?thesis
    using 1(7) same fits len dot_rows_exact [OF pos len] by auto
qed

section \<open>The size of a page\<close>

lemma length_show_nat: "length (show_nat n) \<le> n + 1"
proof (induction n rule: show_nat.induct)
  case (1 n)
  then show ?case by (cases "n < 10") (simp_all add: show_nat.simps [of n])
qed

lemma length_show_word: "length (show_word w) \<le> unat w + 1"
  using length_show_nat by (simp add: show_word_def)

text \<open>The length of a prepared page is a \<open>usize\<close>.\<close>

lemma raster_length:
  assumes "encode_raster_page cd source p = Inr pp"
  shows "length (pp_bytes pp) < 2 ^ 64"
  using assms
proof (cases rule: encode_raster_Inr)
  case (1 g e packed)
  let ?n = "(unat (rg_width_px g) + 7) div 8"
  have b: "unat (rg_width_px g) < 2 ^ 32" "unat (rg_height_px g) < 2 ^ 32" "unat (rg_copies g) < 2 ^ 16"
    using unsigned_less [of "rg_width_px g"] unsigned_less [of "rg_height_px g"]
      unsigned_less [of "rg_copies g"] by simp_all
  have n: "?n \<le> 2 ^ 29" using b(1) by simp
  have "?n * unat (rg_height_px g) \<le> 2 ^ 29 * 2 ^ 32"
    by (rule mult_le_mono [OF n]) (use b(2) in simp)
  then have e: "unat e \<le> 2 ^ 61" using 1(4) by simp
  have "unat (of_nat ?n :: usize) = ?n" using n by (simp add: unat_of_nat)
  then have "length (show_word (of_nat ?n :: usize)) \<le> 2 ^ 29 + 1"
    using length_show_word [of "of_nat ?n :: usize"] n by linarith
  then show ?thesis
    using 1(5,7) b e length_show_word [of e] length_show_word [of "rg_width_px g"]
      length_show_word [of "rg_height_px g"] length_show_word [of "rg_copies g"]
    by (simp add: graphics_zpl_def newline_def length_hex)
qed

section \<open>A concrete page\<close>

definition sample_page :: raster_page where
  "sample_page = \<lparr>rg_version = 1, rg_width_px = 9, rg_height_px = 2, rg_dpi = 203, rg_copies = 2,
     rg_black_bits_base64 = ''gACAAA==''\<rparr>"

definition sample_codecs :: codecs where
  "sample_codecs = \<lparr>cd_base64 = \<lambda>s. if s = ''gACAAA=='' then Some [0x80, 0, 0x80, 0] else None,
     cd_raster = \<lambda>bs. if bs = [1] then Some sample_page else None, cd_json = \<lambda>_. None,
     cd_sha256 = \<lambda>_. replicate 32 0, cd_canonical = \<lambda>_. []\<rparr>"

lemma sample_chunks: "chunks_exact 2 [0x80, 0, 0x80, 0 :: u8] = [[0x80, 0], [0x80, 0]]"
  by (simp add: chunks_exact.simps)

lemma sample_page_ok: "\<exists>pp. encode_raster_page sample_codecs [1] default_profile = Inr pp"
  by (simp add: encode_raster_page_def sample_codecs_def sample_page_def raster_checks_def check_def
      default_profile_def div_ceil_def checked_mul_def unused_bits_white_def sample_chunks
      unused_mask_def Let_def)

lemma sample_pixels:
  "pixel 2 [0x80, 0, 0x80, 0] 0 0" "\<not> pixel 2 [0x80, 0, 0x80, 0] (Suc 0) 0" "\<not> pixel 2 [0x80, 0, 0x80, 0] 8 (Suc 0)"
  by (simp_all add: pixel_def)

theorem raster_page_exact_witness:
  "\<exists>pp rows. encode_raster_page sample_codecs [1] default_profile = Inr pp \<and>
     pp_label_count pp = Some 2 \<and> read_label (pp_bytes pp) = Some (9, 2, rows, 2) \<and>
     rows ! 0 ! 0 \<and> \<not> rows ! 0 ! 1 \<and> \<not> rows ! 1 ! 8 \<and> \<not> rows ! 1 ! 9"
proof -
  obtain pp where pp: "encode_raster_page sample_codecs [1] default_profile = Inr pp"
    using sample_page_ok by blast
  have c: "cd_raster sample_codecs [1] = Some sample_page"
    "cd_base64 sample_codecs (rg_black_bits_base64 sample_page) = Some [0x80, 0, 0x80, 0]"
    by (simp_all add: sample_codecs_def sample_page_def)
  have sz: "unat (rg_width_px sample_page) = 9" "unat (rg_height_px sample_page) = 2"
    "unat (rg_copies sample_page) = 2" "ucast (rg_copies sample_page) = (2 :: u64)"
    by (simp_all add: sample_page_def)
  have n: "2 = (unat (rg_width_px sample_page) + 7) div 8" by (simp add: sz)
  note ex = raster_page_exact [OF pp n c, unfolded sz]
  then obtain rows where page: "read_label (pp_bytes pp) = Some (9, 2, rows, 2)"
    and r: "\<forall>y < 2. length (rows ! y) = 8 * 2 \<and>
      (\<forall>x < 8 * 2. rows ! y ! x \<longleftrightarrow> x < 9 \<and> pixel 2 [0x80, 0, 0x80, 0] x y)"
    by (elim conjE exE)
  have label: "pp_label_count pp = Some 2" using ex by (elim conjE)
  have dot: "rows ! y ! x \<longleftrightarrow> x < 9 \<and> pixel 2 [0x80, 0, 0x80, 0] x y" if "y < 2" "x < 16" for x y
    using r that by simp
  have "rows ! 0 ! 0" "\<not> rows ! 0 ! 1" "\<not> rows ! 1 ! 8" "\<not> rows ! 1 ! 9"
    by (simp_all add: dot sample_pixels)
  then show ?thesis using pp label page by blast
qed

end
