(* ===== verification/Protocol.thy ===== *)
theory Protocol
  imports Driver
begin

text \<open>
  The preparation of a print request of protocol version 2 (\<open>src/protocol_v2.rs\<close>): its limits,
  the check of every artifact against its hash, the collated copies, and the hash that
  identifies the request.
\<close>

section \<open>Requests\<close>

record artifact =
  ar_mime_type :: string
  ar_sha256 :: string
  ar_data_base64 :: string

record submit_job =
  sj_idempotency_key :: string
  sj_description :: "string option"
  sj_media_revision :: "string option"
  sj_copies :: u16
  sj_reprint_of :: "string option"
  sj_artifacts :: "artifact list"
  sj_options :: json

record prepared_job =
  pj_bytes :: "u8 list"
  pj_request_hash :: string
  pj_label_count :: u64

definition is_digit_byte :: "u8 \<Rightarrow> bool" where
  "is_digit_byte b = (48 \<le> b \<and> b \<le> 57)"

definition pq_copies :: "u8 list \<Rightarrow> u64 option" where
  "pq_copies rest = parse_word (string_of_bytes (takeWhile is_digit_byte rest))"

definition has_multi_copy_pq :: "u8 list \<Rightarrow> bool" where
  "has_multi_copy_pq bs =
     list_ex (\<lambda>at. take 3 (drop at bs) = bytes_of ''^PQ'' \<and>
         (case pq_copies (drop (at + 3) bs) of None \<Rightarrow> False | Some n \<Rightarrow> 1 < n))
       [0..<length bs - 2]"

text \<open>\<open>value.get("copies").and_then(Value::as_u64)\<close>\<close>

definition json_u64 :: "string \<Rightarrow> json \<Rightarrow> u64 option" where
  "json_u64 key v =
     (case v of
        JObject kvs \<Rightarrow> (case map_of kvs key of Some (JNat n) \<Rightarrow> Some n | _ \<Rightarrow> None)
      | _ \<Rightarrow> None)"

definition is_object :: "json \<Rightarrow> bool" where
  "is_object v = (case v of JObject _ \<Rightarrow> True | _ \<Rightarrow> False)"

definition request_checks :: "submit_job \<Rightarrow> string + unit" where
  "request_checks r = checks [
     check (sj_idempotency_key r \<noteq> [] \<and> length (sj_idempotency_key r) \<le> 255)
       ''idempotency_key must contain between 1 and 255 characters'',
     check (case sj_description r of None \<Rightarrow> True | Some v \<Rightarrow> length v \<le> 1000)
       ''description is too long'',
     check (1 \<le> sj_copies r \<and> sj_copies r \<le> 999) ''copies must be between 1 and 999'',
     check (sj_artifacts r \<noteq> [] \<and> length (sj_artifacts r) \<le> MAX_ARTIFACTS)
       ''artifacts must contain between 1 and 100 pages'',
     check (sj_options r = JNull \<or> is_object (sj_options r)) ''options must be an object'']"

text \<open>The check of the number of copies an artifact asks for itself.\<close>

definition copies_check :: "codecs \<Rightarrow> submit_job \<Rightarrow> string \<Rightarrow> u8 list \<Rightarrow> string + unit" where
  "copies_check cd r mime source =
     (if mime = RASTER_MIME then
        bindR (or_error ''invalid PrintHub raster page JSON'' (cd_json cd source)) (\<lambda>v.
          check (json_u64 ''copies'' v = Some 1)
            ''v2 raster artifacts must use copies=1; use envelope copies'')
      else if sj_copies r > 1 then
        check (\<not> has_multi_copy_pq source)
          ''native ZPL with ^PQ greater than 1 cannot be combined with envelope copies''
      else Inr ())"

text \<open>The body of the loop over the artifacts: the running sizes are \<open>usize\<close>. It yields the
  page, the canonical artifact and the new sizes.\<close>

definition prepare_artifact :: "codecs \<Rightarrow> submit_job \<Rightarrow> device_profile \<Rightarrow> usize \<Rightarrow> usize \<Rightarrow> artifact \<Rightarrow>
    string + (u8 list \<times> (string \<times> string) \<times> usize \<times> usize)" where
  "prepare_artifact cd r p total_source total_prepared a =
     (let mime = mime_of (ar_mime_type a) in
      bindR (checks [check (mime \<in> {ZPL_MIME, RASTER_MIME}) ''unsupported artifact mime_type'',
          check (length (ar_sha256 a) = 64 \<and> list_all is_hexdigit (ar_sha256 a))
            ''artifact sha256 must contain 64 hexadecimal characters'']) (\<lambda>_.
      bindR (or_error ''invalid artifact base64'' (cd_base64 cd (ar_data_base64 a))) (\<lambda>source.
      bindR (check (length source \<le> unat MAX_ARTIFACT_BYTES) ''artifact exceeds the maximum decoded size'') (\<lambda>_.
      bindR (or_error ''job size overflow'' (checked_add total_source (of_nat (length source)))) (\<lambda>total_source.
      bindR (checks [check (total_source \<le> MAX_JOB_BYTES) ''job exceeds the maximum decoded size'',
          check (eq_ignore_ascii_case (encode_hex (cd_sha256 cd source)) (ar_sha256 a)) ''artifact sha256 mismatch'',
          copies_check cd r mime source]) (\<lambda>_.
      bindR (prepare_zebra_payload cd mime source p) (\<lambda>prepared.
      bindR (or_error ''prepared job size overflow''
          (checked_add total_prepared (of_nat (length (pp_bytes prepared))))) (\<lambda>total_prepared.
      bindR (check (case checked_mul total_prepared (ucast (sj_copies r)) of
            None \<Rightarrow> False | Some v \<Rightarrow> v \<le> MAX_JOB_BYTES) ''prepared job exceeds the maximum size'') (\<lambda>_.
        Inr (pp_bytes prepared, (mime, ar_sha256 a), total_source, total_prepared))))))))))"

fun prepare_artifacts :: "codecs \<Rightarrow> submit_job \<Rightarrow> device_profile \<Rightarrow> usize \<Rightarrow> usize \<Rightarrow> artifact list \<Rightarrow>
    string + (u8 list list \<times> (string \<times> string) list)" where
  "prepare_artifacts cd r p ts tp [] = Inr ([], [])"
| "prepare_artifacts cd r p ts tp (a # as) =
     bindR (prepare_artifact cd r p ts tp a) (\<lambda>(page, canonical, ts, tp).
     bindR (prepare_artifacts cd r p ts tp as) (\<lambda>(pages, canonicals).
       Inr (page # pages, canonical # canonicals)))"

definition prepare_job :: "codecs \<Rightarrow> string \<Rightarrow> submit_job \<Rightarrow> device_profile \<Rightarrow> string + prepared_job" where
  "prepare_job cd pid r p =
     bindR (request_checks r) (\<lambda>_.
     bindR (prepare_artifacts cd r p 0 0 (sj_artifacts r)) (\<lambda>(pages, canonicals).
       let canonical = \<lparr>cr_printer_id = pid, cr_copies = sj_copies r,
             cr_media_revision = sj_media_revision r, cr_reprint_of = sj_reprint_of r,
             cr_options = sj_options r, cr_artifacts = canonicals\<rparr>
       in Inr \<lparr>pj_bytes = concat (replicate (unat (sj_copies r)) (concat pages)),
               pj_request_hash = encode_hex (cd_sha256 cd (cd_canonical cd canonical)),
               pj_label_count = of_nat (length (sj_artifacts r)) * ucast (sj_copies r)\<rparr>))"

section \<open>What a prepared job is made of\<close>

definition page_of :: "codecs \<Rightarrow> device_profile \<Rightarrow> artifact \<Rightarrow> u8 list \<Rightarrow> bool" where
  "page_of cd p a page =
     (\<exists>source pp. cd_base64 cd (ar_data_base64 a) = Some source \<and>
        eq_ignore_ascii_case (encode_hex (cd_sha256 cd source)) (ar_sha256 a) \<and>
        prepare_zebra_payload cd (mime_of (ar_mime_type a)) source p = Inr pp \<and> page = pp_bytes pp)"

definition within_limit :: "submit_job \<Rightarrow> nat \<Rightarrow> bool" where
  "within_limit r n = (n * unat (sj_copies r) \<le> unat MAX_JOB_BYTES)"

lemma small_length: "length xs \<le> unat MAX_ARTIFACT_BYTES \<Longrightarrow> unat (of_nat (length xs) :: usize) = length xs"
  by (simp add: MAX_ARTIFACT_BYTES_def unat_of_nat)

lemma prepare_length:
  assumes "prepare_zebra_payload cd m source p = Inr pp" and "length source \<le> unat MAX_ARTIFACT_BYTES"
  shows "unat (of_nat (length (pp_bytes pp)) :: usize) = length (pp_bytes pp)"
proof -
  have "length (pp_bytes pp) < 2 ^ 64"
    using assms by (auto simp: prepare_zebra_payload_def MAX_ARTIFACT_BYTES_def split: if_splits
        dest: raster_length)
  then show ?thesis by (simp add: unat_of_nat)
qed

lemma widen_copies: "unat (ucast c :: usize) = unat c" for c :: u16
proof -
  have "unat c < 2 ^ 16" using unsigned_less [of c] by simp
  then show ?thesis by (simp add: unsigned_ucast_eq take_bit_nat_eq_self)
qed

lemma prepare_artifact_Inr:
  assumes "prepare_artifact cd r p ts tp a = Inr (page, canonical, ts', tp')"
  shows "page_of cd p a page \<and> unat tp' = unat tp + length page \<and> within_limit r (unat tp')"
proof -
  obtain source pp where data: "cd_base64 cd (ar_data_base64 a) = Some source"
    and small: "length source \<le> unat MAX_ARTIFACT_BYTES"
    and hash: "eq_ignore_ascii_case (encode_hex (cd_sha256 cd source)) (ar_sha256 a)"
    and prep: "prepare_zebra_payload cd (mime_of (ar_mime_type a)) source p = Inr pp"
    and tp: "checked_add tp (of_nat (length (pp_bytes pp))) = Some tp'"
    and lim: "case checked_mul tp' (ucast (sj_copies r)) of None \<Rightarrow> False | Some v \<Rightarrow> v \<le> MAX_JOB_BYTES"
    and page: "page = pp_bytes pp"
    using assms
    by (auto simp: prepare_artifact_def Let_def bindR_Inr simp del: checks.simps(2))
  have "unat tp' = unat tp + length page"
    using checked_add_Some [OF tp] prepare_length [OF prep small] page by simp
  moreover have "within_limit r (unat tp')"
    using lim by (auto simp: within_limit_def widen_copies word_le_nat_alt split: option.splits dest: checked_mul_Some)
  ultimately show ?thesis using data hash prep page by (auto simp: page_of_def)
qed

lemma prepare_artifacts_Inr:
  assumes "prepare_artifacts cd r p ts tp as = Inr (pages, canonicals)"
  shows "list_all2 (page_of cd p) as pages \<and>
     (as \<noteq> [] \<longrightarrow> within_limit r (unat tp + length (concat pages)))"
  using assms
proof (induction as arbitrary: ts tp pages canonicals)
  case Nil
  then show ?case by simp
next
  case (Cons a as)
  obtain page canonical ts' tp' pages' cs' where
    a: "prepare_artifact cd r p ts tp a = Inr (page, canonical, ts', tp')"
    and as: "prepare_artifacts cd r p ts' tp' as = Inr (pages', cs')" and pages: "pages = page # pages'"
    using Cons.prems by (auto simp: bindR_Inr)
  note one = prepare_artifact_Inr [OF a] and more = Cons.IH [OF as]
  have "within_limit r (unat tp + length (concat pages))"
  proof (cases as)
    case Nil
    with as one pages show ?thesis by auto
  next
    case Cons
    with one more pages show ?thesis by (simp add: add.assoc)
  qed
  with one more pages show ?case by simp
qed

text \<open>The total of the pages is bounded, so the copies are too.\<close>

lemma length_copies: "length (concat (replicate n xs)) = n * length xs"
  by (induction n) simp_all

lemma small_product: "n \<le> 100 \<Longrightarrow> c \<le> 999 \<Longrightarrow> n * c < 2 ^ 64" for n c :: nat
  using mult_le_mono [of n 100 c 999] by simp

text \<open>C27: a request that is accepted prints its pages in order, as often as the request says
  and collated; every page is the rendering of the artifact whose content has the hash the
  client gave; the job is not empty of pages, does not exceed the size limit and is
  counted with pages times copies labels.\<close>

theorem prepared_job_exact:
  assumes "prepare_job cd pid r p = Inr j"
  shows "\<exists>pages. list_all2 (page_of cd p) (sj_artifacts r) pages \<and>
     pj_bytes j = concat (replicate (unat (sj_copies r)) (concat pages)) \<and>
     length (pj_bytes j) \<le> unat MAX_JOB_BYTES \<and>
     1 \<le> length pages \<and> length pages \<le> 100 \<and> 1 \<le> unat (sj_copies r) \<and> unat (sj_copies r) \<le> 999 \<and>
     unat (pj_label_count j) = length pages * unat (sj_copies r)"
proof -
  obtain pages canonicals where ck: "request_checks r = Inr ()"
    and run: "prepare_artifacts cd r p 0 0 (sj_artifacts r) = Inr (pages, canonicals)"
    and j: "pj_bytes j = concat (replicate (unat (sj_copies r)) (concat pages))"
      "pj_label_count j = of_nat (length (sj_artifacts r)) * ucast (sj_copies r)"
    using assms by (auto simp: prepare_job_def Let_def bindR_Inr)
  note pages = prepare_artifacts_Inr [OF run]
  have lim: "sj_artifacts r \<noteq> []" "length (sj_artifacts r) \<le> 100" "1 \<le> sj_copies r" "sj_copies r \<le> 999"
    using ck by (simp_all add: request_checks_def MAX_ARTIFACTS_def del: checks.simps(2))
  then have copies: "1 \<le> unat (sj_copies r)" "unat (sj_copies r) \<le> 999"
    by (simp_all add: word_le_nat_alt)
  have len: "length pages = length (sj_artifacts r)" using pages list_all2_lengthD by metis
  have "length (concat pages) * unat (sj_copies r) \<le> unat MAX_JOB_BYTES"
    using pages lim(1) by (simp add: within_limit_def)
  then have size: "length (pj_bytes j) \<le> unat MAX_JOB_BYTES" by (simp add: j(1) length_copies mult.commute)
  have "length pages * unat (sj_copies r) < 2 ^ 64" using small_product lim(2) len copies(2) by simp
  then have "unat (pj_label_count j) = length pages * unat (sj_copies r)"
    using lim(2) by (simp add: j(2) len unat_word_ariths widen_copies unat_of_nat)
  moreover have "1 \<le> length pages" using lim(1) len by (cases "sj_artifacts r") simp_all
  ultimately show ?thesis using pages j(1) size copies lim(2) len by auto
qed

section \<open>Copies inside native ZPL\<close>

text \<open>The specification of the search: some print quantity command asks for more than one
  copy, in a number that fits 64 bits.\<close>

definition asks_copies :: "u8 list \<Rightarrow> nat \<Rightarrow> bool" where
  "asks_copies bs n =
     (\<exists>before ds rest. bs = before @ bytes_of ''^PQ'' @ ds @ rest \<and> ds \<noteq> [] \<and> list_all is_digit_byte ds \<and>
        (rest = [] \<or> \<not> is_digit_byte (hd rest)) \<and> digits_value 0 (string_of_bytes ds) = n)"

lemma digit_byte_char: "is_digit_byte b \<longleftrightarrow> is_digit (byte_char (unat b))"
proof -
  have "unat b < 256" using unsigned_less [of b] by simp
  then show ?thesis
    by (simp add: is_digit_byte_def is_digit_def char_code_byte_char word_le_nat_alt)
qed

lemma all_digits_bytes: "all_digits (string_of_bytes ds) \<longleftrightarrow> ds \<noteq> [] \<and> list_all is_digit_byte ds"
  by (simp add: all_digits_def string_of_bytes_def list_all_iff digit_byte_char)

lemma parse_digits:
  assumes "list_all is_digit_byte ds"
  shows "parse_word (string_of_bytes ds) = (Some n :: u64 option) \<longleftrightarrow>
     ds \<noteq> [] \<and> digits_value 0 (string_of_bytes ds) = unat n"
proof (cases ds)
  case Nil
  then show ?thesis by (simp add: parse_word_def parse_unsigned_def string_of_bytes_def all_digits_def)
next
  case (Cons b bs)
  let ?s = "string_of_bytes ds"
  have dig: "all_digits ?s" using assms Cons by (simp add: all_digits_bytes)
  have "hd ?s \<noteq> CHR ''+''"
    using assms Cons digit_not_sign by (auto simp: string_of_bytes_def digit_byte_char)
  then have "parse_unsigned b ?s = (if digits_value 0 ?s < b then Some (digits_value 0 ?s) else None)" for b
    using dig Cons by (auto simp: parse_unsigned_def string_of_bytes_def)
  then have "parse_word ?s = (Some n :: u64 option) \<longleftrightarrow>
      digits_value 0 ?s < 2 ^ 64 \<and> of_nat (digits_value 0 ?s) = n"
    by (simp add: parse_word_def)
  also have "\<dots> \<longleftrightarrow> digits_value 0 ?s = unat n"
  proof
    assume "digits_value 0 ?s < 2 ^ 64 \<and> of_nat (digits_value 0 ?s) = n"
    then show "digits_value 0 ?s = unat n" by (auto simp: unat_of_nat)
  next
    assume "digits_value 0 ?s = unat n"
    then show "digits_value 0 ?s < 2 ^ 64 \<and> of_nat (digits_value 0 ?s) = n"
      using unsigned_less [of n] by simp
  qed
  finally show ?thesis using Cons by simp
qed

lemma digit_run:
  assumes "bs = ds @ rest" and "list_all is_digit_byte ds" and "rest = [] \<or> \<not> is_digit_byte (hd rest)"
  shows "takeWhile is_digit_byte bs = ds"
  using assms by (cases rest) (auto simp: list_all_iff takeWhile_append2)

lemma multi_copy_iff:
  "has_multi_copy_pq bs \<longleftrightarrow> (\<exists>n. asks_copies bs n \<and> 1 < n \<and> n < 2 ^ 64)"
proof
  assume "has_multi_copy_pq bs"
  then obtain i n where i: "i < length bs - 2" and m: "take 3 (drop i bs) = bytes_of ''^PQ''"
    and pq: "pq_copies (drop (i + 3) bs) = Some n" and gt: "1 < n"
    by (auto simp: has_multi_copy_pq_def list_ex_iff split: option.splits)
  let ?ds = "takeWhile is_digit_byte (drop (i + 3) bs)"
  let ?rest = "dropWhile is_digit_byte (drop (i + 3) bs)"
  have all: "list_all is_digit_byte ?ds" by (auto simp: list_all_iff dest: set_takeWhileD)
  have ds: "?ds \<noteq> []" "digits_value 0 (string_of_bytes ?ds) = unat n"
    using pq parse_digits [OF all] by (simp_all add: pq_copies_def)
  have "bs = take i bs @ take 3 (drop i bs) @ ?ds @ ?rest"
    by (metis append_take_drop_id drop_drop takeWhile_dropWhile_id add.commute)
  then have "asks_copies bs (unat n)"
    unfolding asks_copies_def using m ds all hd_dropWhile [of is_digit_byte "drop (i + 3) bs"] by metis
  moreover have "1 < unat n" using gt by (simp add: word_less_nat_alt)
  moreover have "unat n < 2 ^ 64" using unsigned_less [of n] by simp
  ultimately show "\<exists>n. asks_copies bs n \<and> 1 < n \<and> n < 2 ^ 64" by blast
next
  assume "\<exists>n. asks_copies bs n \<and> 1 < n \<and> n < 2 ^ 64"
  then obtain n before ds rest where bs: "bs = before @ bytes_of ''^PQ'' @ ds @ rest" and ds: "ds \<noteq> []"
    "list_all is_digit_byte ds" and rest: "rest = [] \<or> \<not> is_digit_byte (hd rest)"
    and v: "digits_value 0 (string_of_bytes ds) = n" and n: "1 < n" "n < 2 ^ 64"
    by (auto simp: asks_copies_def)
  have run: "takeWhile is_digit_byte (ds @ rest) = ds" by (rule digit_run [OF refl ds(2) rest])
  have u: "unat (of_nat n :: u64) = n" using n(2) by (simp add: unat_of_nat)
  then have "pq_copies (ds @ rest) = Some (of_nat n)"
    using parse_digits [OF ds(2), of "of_nat n"] ds(1) v by (simp add: pq_copies_def run)
  moreover have "(1 :: u64) < of_nat n" using n(1) u by (simp add: word_less_nat_alt)
  moreover have "length before < length bs - 2" "take 3 (drop (length before) bs) = bytes_of ''^PQ''"
    "drop (length before + 3) bs = ds @ rest"
    by (simp_all add: bs bytes_of_def)
  ultimately show "has_multi_copy_pq bs"
    unfolding has_multi_copy_pq_def list_ex_iff by (intro bexI [of _ "length before"]) simp_all
qed

text \<open>A count that does not fit 64 bits is not read as a number, so the command is passed over.\<close>

definition huge_count :: "u8 list" where
  "huge_count = bytes_of ''^PQ99999999999999999999''"

lemma huge_count_bytes:
  "huge_count = [94, 80, 81, 57, 57, 57, 57, 57, 57, 57, 57, 57, 57, 57, 57, 57, 57, 57, 57, 57, 57, 57, 57]"
  by (simp add: huge_count_def bytes_of_def)

lemma nine_digit: "is_digit_byte 57"
  by (simp add: is_digit_byte_def)

lemma string_of_bytes_simps [simp]:
  "string_of_bytes [] = []" "string_of_bytes (b # bs) = byte_char (unat b) # string_of_bytes bs"
  by (simp_all add: string_of_bytes_def)

lemma huge_count_value:
  "digits_value 0 (string_of_bytes (drop 3 huge_count)) = 99999999999999999999"
  by (simp add: huge_count_bytes char_code_byte_char)

lemma huge_count_run: "takeWhile is_digit_byte (drop 3 huge_count) = drop 3 huge_count"
  by (simp add: huge_count_bytes nine_digit)

lemma huge_count_asked: "asks_copies huge_count 99999999999999999999"
  unfolding asks_copies_def
proof (intro exI conjI)
  show "huge_count = [] @ bytes_of ''^PQ'' @ drop 3 huge_count @ []"
    by (simp add: huge_count_bytes bytes_of_def)
  show "drop 3 huge_count \<noteq> []" "list_all is_digit_byte (drop 3 huge_count)"
    by (simp_all add: huge_count_bytes nine_digit)
qed (simp_all add: huge_count_value)

lemma u64_limit: "unat n < 18446744073709551616" for n :: u64
  using unsigned_less [of n] by simp

lemma huge_count_unread: "pq_copies (drop 3 huge_count) = None"
proof -
  have "list_all is_digit_byte (drop 3 huge_count)" by (simp add: huge_count_bytes nine_digit)
  then have "parse_word (string_of_bytes (drop 3 huge_count)) \<noteq> (Some n :: u64 option)" for n
    using parse_digits [of "drop 3 huge_count" n] u64_limit [of n] huge_count_value by auto
  then have "(parse_word (string_of_bytes (drop 3 huge_count)) :: u64 option) = None"
    by (meson not_None_eq)
  then show ?thesis by (simp add: pq_copies_def huge_count_run)
qed

lemma huge_count_missed: "\<not> has_multi_copy_pq huge_count"
proof -
  have first: "take 3 (drop at huge_count) \<noteq> bytes_of ''^PQ''" if "at \<in> set [1..<21]" for at
    using that by (auto simp: upt_rec huge_count_bytes bytes_of_def)
  have "at = 0 \<or> at \<in> set [1..<21]" if "at < length huge_count - 2" for at
    using that by (auto simp: huge_count_bytes)
  then show ?thesis
    using first huge_count_unread
    unfolding has_multi_copy_pq_def list_ex_iff by fastforce
qed

text \<open>C35: the search for copies in native ZPL finds exactly the print quantity commands that
  ask for more than one copy in a number that fits 64 bits. A command with a larger number
  is passed over, as the example shows: it asks for 99999999999999999999 copies.\<close>

theorem multi_copy_search:
  "(has_multi_copy_pq bs \<longleftrightarrow> (\<exists>n. asks_copies bs n \<and> 1 < n \<and> n < 2 ^ 64)) \<and>
   \<not> has_multi_copy_pq huge_count \<and> asks_copies huge_count 99999999999999999999"
  using multi_copy_iff [of bs] huge_count_asked huge_count_missed by blast

section \<open>A concrete request\<close>

definition sample_artifact :: artifact where
  "sample_artifact = \<lparr>ar_mime_type = ZPL_MIME, ar_sha256 = encode_hex (replicate 32 0),
     ar_data_base64 = ''gACAAA==''\<rparr>"

definition sample_request :: submit_job where
  "sample_request = \<lparr>sj_idempotency_key = ''k'', sj_description = None, sj_media_revision = None,
     sj_copies = 2, sj_reprint_of = None, sj_artifacts = [sample_artifact], sj_options = JNull\<rparr>"

lemma mime_zpl: "mime_of ZPL_MIME = ZPL_MIME"
proof -
  have "CHR '';'' \<notin> set ZPL_MIME" by (simp add: ZPL_MIME_def)
  moreover have "printable (hd ZPL_MIME) \<and> printable (last ZPL_MIME)"
    by (simp add: ZPL_MIME_def printable_def char_code_def)
  then have "trim_ws ZPL_MIME = ZPL_MIME" by (intro trim_printable) simp
  ultimately show ?thesis by (simp add: mime_of_def split_char_none)
qed

lemma sample_hash: "length (encode_hex (replicate 32 0)) = 64" "list_all is_hexdigit (encode_hex (replicate 32 0))"
proof -
  show "length (encode_hex (replicate 32 0)) = 64" by (simp only: length_hex) simp
  show "list_all is_hexdigit (encode_hex (replicate 32 0))"
    by (simp add: encode_hex_def hex_byte_def hex_char_ok list_all_iff)
qed

lemma mimes_differ: "ZPL_MIME \<noteq> RASTER_MIME"
  by (simp add: ZPL_MIME_def RASTER_MIME_def)

lemma no_copies_asked: "\<not> has_multi_copy_pq [0x80, 0, 0x80, 0]"
proof -
  have "of_char (CHR ''^'') = (94 :: u8)" by simp
  then show ?thesis by (simp add: has_multi_copy_pq_def bytes_of_def upt_rec)
qed

lemma sample_prepared:
  "\<exists>j. prepare_job sample_codecs ''p'' sample_request default_profile = Inr j"
proof -
  let ?m = "MAX_JOB_BYTES"
  have m: "unat MAX_ARTIFACT_BYTES = 4194304" "MAX_JOB_BYTES = 8388608"
    by (simp_all add: MAX_ARTIFACT_BYTES_def MAX_JOB_BYTES_def)
  show ?thesis
    by (simp add: prepare_job_def sample_request_def request_checks_def prepare_artifact_def check_def Let_def
        sample_artifact_def mime_zpl sample_hash mimes_differ no_copies_asked sample_codecs_def m
        checked_add_def checked_mul_def copies_check_def prepare_zebra_payload_def
        eq_ignore_ascii_case_def MAX_ARTIFACTS_def)
qed

theorem prepared_job_exact_witness:
  "\<exists>j pages. prepare_job sample_codecs ''p'' sample_request default_profile = Inr j \<and>
     list_all2 (page_of sample_codecs default_profile) [sample_artifact] pages \<and>
     pj_bytes j = concat pages @ concat pages"
proof -
  obtain j where j: "prepare_job sample_codecs ''p'' sample_request default_profile = Inr j"
    using sample_prepared by blast
  have copies: "unat (sj_copies sample_request) = 2" "sj_artifacts sample_request = [sample_artifact]"
    by (simp_all add: sample_request_def)
  have twice: "concat (replicate 2 xs) = xs @ xs" for xs :: "u8 list" by (simp add: numeral_2_eq_2)
  from prepared_job_exact [OF j] j show ?thesis unfolding copies twice by auto
qed

end
