(* ===== verification/Settings.thy ===== *)
theory Settings
  imports Driver
begin

text \<open>
  The configuration of the service (\<open>src/config.rs\<close>): loading and validating it, the token
  files, and the persistent identity of the agent. The TOML reader is a parameter; files
  outside the data directory are read through the function \<open>read\<close>. Of an error message
  that quotes its argument only the constant part is kept.
\<close>

section \<open>Validation\<close>

definition token_ok :: "string option \<Rightarrow> bool" where
  "token_ok t = (case t of None \<Rightarrow> True | Some s \<Rightarrow> 24 \<le> length s)"

definition id_char :: "char \<Rightarrow> bool" where
  "id_char c = (is_alnum c \<or> c = CHR ''-'' \<or> c = CHR ''_'')"

definition validate_agent_id :: "string \<Rightarrow> string + unit" where
  "validate_agent_id i =
     check (i \<noteq> [] \<and> list_all id_char i)
       ''agent_id must contain only letters, digits, hyphens and underscores''"

definition profile_ok :: "device_profile \<Rightarrow> bool" where
  "profile_ok p =
     (0 < dp_max_width_dots p \<and> 0 < dp_max_length_dots p \<and>
      1 \<le> dp_max_speed_ips p \<and> dp_max_speed_ips p \<le> 14 \<and>
      0 \<le>s dp_max_offset_dots p \<and> dp_max_offset_dots p \<le>s 9999 \<and>
      (case dp_resolution_dpi p of None \<Rightarrow> True | Some dpi \<Rightarrow> 100 \<le> dpi \<and> dpi \<le> 1200))"

definition transport_checks :: "printer_config \<Rightarrow> string + unit" where
  "transport_checks p =
     (if pc_transport p = ''char_device'' then
        check (pc_device p \<noteq> []) ''char_device transport requires device''
      else if pc_transport p = ''usb_bulk'' then
        check (pc_usb_vendor_id p \<noteq> None \<and> pc_usb_product_id p \<noteq> None)
          ''usb_bulk transport requires usb_vendor_id and usb_product_id''
      else if pc_transport p = ''tcp'' then
        checks [
          check (case pc_tcp_host p of None \<Rightarrow> False | Some h \<Rightarrow> trim_ws h \<noteq> []) ''tcp transport requires tcp_host'',
          check (0 < pc_tcp_port p) ''tcp_port must be positive'',
          check (0 < pc_connect_timeout_ms p) ''connect_timeout_ms must be positive'']
      else Inl ''unsupported transport'')"

definition driver_checks :: "printer_config \<Rightarrow> string + unit" where
  "driver_checks p =
     bindR (or_error ''unsupported driver'' (descriptor (pc_driver p))) (\<lambda>d.
       check (dd_available d) ''driver is reserved but not implemented by this agent build'')"

text \<open>The body of the loop over the printers; \<open>ids\<close> is the set of identifiers met so far.\<close>

definition printer_checks :: "string list \<Rightarrow> printer_config \<Rightarrow> string + unit" where
  "printer_checks ids p = checks [
     check (profile_ok (pc_device_profile p)) ''Invalid device_profile limits'',
     check (pc_id p \<noteq> []) ''printer id must not be empty'',
     check (list_all id_char (pc_id p)) ''printer id contains unsafe characters'',
     check (pc_id p \<notin> set ids) ''duplicate printer id'',
     transport_checks p,
     check (0 < pc_first_byte_timeout_ms p \<and> 0 < pc_idle_timeout_ms p \<and> 0 < pc_write_timeout_ms p \<and>
            0 < pc_max_response_bytes p)
       ''printer timeouts and max_response_bytes must be positive'',
     driver_checks p]"

fun printers_checks :: "string list \<Rightarrow> printer_config list \<Rightarrow> string + unit" where
  "printers_checks ids [] = Inr ()"
| "printers_checks ids (p # ps) = bindR (printer_checks ids p) (\<lambda>_. printers_checks (pc_id p # ids) ps)"

definition config_validate :: "config \<Rightarrow> string + unit" where
  "config_validate c =
     bindR (checks [
       check (token_ok (cf_read_token c)) ''read_token must have at least 24 characters'',
       check (token_ok (cf_print_token c)) ''print_token must have at least 24 characters'',
       check (token_ok (cf_admin_token c)) ''admin_token must have at least 24 characters'',
       check (\<not> cf_webui_enabled c \<or> (case cf_admin_token c of None \<Rightarrow> False | Some s \<Rightarrow> 24 \<le> length s))
         ''webui_enabled requires an admin_token of at least 24 characters'',
       check (0 < cf_max_job_bytes c \<and> cf_max_job_bytes c \<le> MAX_JOB_BYTES)
         ''max_job_bytes must be between 1 and 8388608'',
       check (0 < cf_max_active_jobs_per_printer c) ''max_active_jobs_per_printer must be positive'',
       (case cf_agent_id c of None \<Rightarrow> Inr () | Some i \<Rightarrow> validate_agent_id i)]) (\<lambda>_.
     printers_checks [] (cf_printers c))"

section \<open>Loading\<close>

text \<open>\<open>base.join(path)\<close> on the paths of a Unix system.\<close>

definition join_path :: "string \<Rightarrow> string \<Rightarrow> string" where
  "join_path base p =
     (if starts_with ''/'' p \<or> base = [] then p
      else if ends_with ''/'' base then base @ p else base @ ''/'' @ p)"

definition resolve_token :: "(string \<Rightarrow> string + string) \<Rightarrow> string option \<Rightarrow> string option \<Rightarrow> string \<Rightarrow>
    string + string option" where
  "resolve_token read inline file config_dir =
     bindR (check (inline = None \<or> file = None) ''configure only one of token and token file'') (\<lambda>_.
       case file of
         None \<Rightarrow> Inr inline
       | Some p \<Rightarrow> bindR (read (join_path config_dir p)) (\<lambda>t. Inr (Some (trim_ws t))))"

definition load_config :: "(string \<Rightarrow> config option) \<Rightarrow> (string \<Rightarrow> string + string) \<Rightarrow> string \<Rightarrow> string \<Rightarrow>
    string + config" where
  "load_config parse read path base =
     bindR (read path) (\<lambda>raw.
     bindR (or_error ''parsing configuration'' (parse raw)) (\<lambda>c.
     bindR (resolve_token read (cf_read_token c) (cf_read_token_file c) base) (\<lambda>rt.
     let c = c\<lparr>cf_read_token := rt\<rparr> in
     bindR (resolve_token read (cf_print_token c) (cf_print_token_file c) base) (\<lambda>pt.
     let c = c\<lparr>cf_print_token := pt\<rparr> in
     bindR (resolve_token read (cf_admin_token c) (cf_admin_token_file c) base) (\<lambda>at.
     let c = c\<lparr>cf_admin_token := at\<rparr> in
     bindR (config_validate c) (\<lambda>_. Inr c))))))"

section \<open>What a valid configuration is\<close>

text \<open>The specification is written in plain numbers and as a list of the allowed characters;
  it uses none of the predicates of the code above.\<close>

definition safe_name :: "string \<Rightarrow> bool" where
  "safe_name s =
     (s \<noteq> [] \<and>
      set s \<subseteq> set ''ABCDEFGHIJKLMNOPQRSTUVWXYZabcdefghijklmnopqrstuvwxyz0123456789-_'')"

definition long_token :: "string option \<Rightarrow> bool" where
  "long_token t = (\<forall>s. t = Some s \<longrightarrow> 24 \<le> length s)"

definition valid_profile :: "device_profile \<Rightarrow> bool" where
  "valid_profile p =
     (0 < unat (dp_max_width_dots p) \<and> 0 < unat (dp_max_length_dots p) \<and>
      unat (dp_max_speed_ips p) \<in> {1..14} \<and> sint (dp_max_offset_dots p) \<in> {0..9999} \<and>
      (\<forall>dpi. dp_resolution_dpi p = Some dpi \<longrightarrow> unat dpi \<in> {100..1200}))"

definition valid_transport :: "printer_config \<Rightarrow> bool" where
  "valid_transport p =
     (pc_transport p = ''char_device'' \<and> pc_device p \<noteq> [] \<or>
      pc_transport p = ''usb_bulk'' \<and> pc_usb_vendor_id p \<noteq> None \<and> pc_usb_product_id p \<noteq> None \<or>
      pc_transport p = ''tcp'' \<and> (\<exists>h. pc_tcp_host p = Some h \<and> trim_ws h \<noteq> []) \<and> 0 < pc_tcp_port p \<and>
        0 < pc_connect_timeout_ms p)"

definition valid_printer :: "printer_config \<Rightarrow> bool" where
  "valid_printer p =
     (valid_profile (pc_device_profile p) \<and> safe_name (pc_id p) \<and> valid_transport p \<and>
      0 < pc_first_byte_timeout_ms p \<and> 0 < pc_idle_timeout_ms p \<and> 0 < pc_write_timeout_ms p \<and>
      0 < pc_max_response_bytes p \<and> pc_driver p = ''zpl'')"

definition valid_config :: "config \<Rightarrow> bool" where
  "valid_config c =
     (long_token (cf_read_token c) \<and> long_token (cf_print_token c) \<and> long_token (cf_admin_token c) \<and>
      (cf_webui_enabled c \<longrightarrow> cf_admin_token c \<noteq> None) \<and>
      0 < cf_max_job_bytes c \<and> cf_max_job_bytes c \<le> 8388608 \<and>
      0 < cf_max_active_jobs_per_printer c \<and>
      (\<forall>i. cf_agent_id c = Some i \<longrightarrow> safe_name i) \<and>
      list_all valid_printer (cf_printers c) \<and> distinct (map pc_id (cf_printers c)))"

lemma char_of_code: "(\<forall>n \<in> set ns. byte_char n \<in> A) \<Longrightarrow> char_code c \<in> set ns \<Longrightarrow> c \<in> A"
  by (metis byte_char_char_code)

lemma safe_chars: "id_char c \<longleftrightarrow> c \<in> set ''ABCDEFGHIJKLMNOPQRSTUVWXYZabcdefghijklmnopqrstuvwxyz0123456789-_''"
proof
  let ?A = "set ''ABCDEFGHIJKLMNOPQRSTUVWXYZabcdefghijklmnopqrstuvwxyz0123456789-_''"
  have upper: "\<forall>n \<in> set [65..<91]. byte_char n \<in> ?A"
    by (simp add: upt_rec byte_char_def char_of_def bit_Suc_0_iff)
  have lower: "\<forall>n \<in> set [97..<123]. byte_char n \<in> ?A"
    by (simp add: upt_rec byte_char_def char_of_def bit_Suc_0_iff)
  have digit: "\<forall>n \<in> set [48..<58]. byte_char n \<in> ?A"
    by (simp add: upt_rec byte_char_def char_of_def bit_Suc_0_iff)
  assume "id_char c"
  then consider "65 \<le> char_code c" "char_code c \<le> 90" | "97 \<le> char_code c" "char_code c \<le> 122" |
      "48 \<le> char_code c" "char_code c \<le> 57" | "c = CHR ''-''" | "c = CHR ''_''"
    unfolding id_char_def is_alnum_def is_digit_def is_upper_def is_lower_def by blast
  then show "c \<in> ?A"
  proof cases
    case 1
    then have "char_code c \<in> set [65..<91]" by (simp only: set_upt atLeastLessThan_iff) simp
    with upper show ?thesis by (rule char_of_code)
  next
    case 2
    then have "char_code c \<in> set [97..<123]" by (simp only: set_upt atLeastLessThan_iff) simp
    with lower show ?thesis by (rule char_of_code)
  next
    case 3
    then have "char_code c \<in> set [48..<58]" by (simp only: set_upt atLeastLessThan_iff) simp
    with digit show ?thesis by (rule char_of_code)
  qed simp_all
next
  assume "c \<in> set ''ABCDEFGHIJKLMNOPQRSTUVWXYZabcdefghijklmnopqrstuvwxyz0123456789-_''"
  then have "list_all id_char [c]"
    by (simp only: list.set insert_iff empty_iff, elim disjE)
       (simp_all add: id_char_def is_alnum_def is_digit_def is_upper_def is_lower_def char_code_def)
  then show "id_char c" by simp
qed

lemma safe_name_iff: "safe_name s \<longleftrightarrow> s \<noteq> [] \<and> list_all id_char s"
  unfolding safe_name_def list_all_iff subset_iff safe_chars by blast

lemma long_token_iff: "long_token t \<longleftrightarrow> token_ok t"
  by (cases t) (simp_all add: long_token_def token_ok_def)

lemma valid_profile_iff: "valid_profile p \<longleftrightarrow> profile_ok p"
proof -
  have w: "0 < unat w \<longleftrightarrow> 0 < w" for w :: u32
    by (simp add: unat_gt_0 word_gt_0)
  have s: "unat w \<in> {1..14} \<longleftrightarrow> 1 \<le> w \<and> w \<le> 14" for w :: u32
    by (simp add: word_le_nat_alt)
  have d: "unat w \<in> {100..1200} \<longleftrightarrow> 100 \<le> w \<and> w \<le> 1200" for w :: u32
    by (simp add: word_le_nat_alt)
  have f: "sint w \<in> {0..9999} \<longleftrightarrow> 0 \<le>s w \<and> w \<le>s 9999" for w :: i32
    by (simp add: word_sle_eq)
  show ?thesis
    unfolding valid_profile_def profile_ok_def w s d f by (auto split: option.splits)
qed

lemma transport_checks_ok: "transport_checks p = Inr () \<longleftrightarrow> valid_transport p"
  by (cases "pc_tcp_host p")
     (auto simp: transport_checks_def valid_transport_def simp del: checks.simps(2))

lemma driver_checks_ok: "driver_checks p = Inr () \<longleftrightarrow> pc_driver p = ''zpl''"
  by (auto simp: driver_checks_def bindR_Inr descriptor_def DRIVERS_def)

lemma printer_checks_ok: "printer_checks ids p = Inr () \<longleftrightarrow> valid_printer p \<and> pc_id p \<notin> set ids"
  by (auto simp: printer_checks_def valid_printer_def valid_profile_iff safe_name_iff
      transport_checks_ok driver_checks_ok
      simp del: checks.simps(2))

lemma printers_checks_ok:
  "printers_checks ids ps = Inr () \<longleftrightarrow>
     list_all valid_printer ps \<and> distinct (map pc_id ps) \<and> set (map pc_id ps) \<inter> set ids = {}"
  by (induction ps arbitrary: ids) (auto simp: bindR_Inr printer_checks_ok)

lemma config_validate_iff: "config_validate c = Inr () \<longleftrightarrow> valid_config c"
proof -
  have "printers_checks [] (cf_printers c) = Inr () \<longleftrightarrow>
      list_all valid_printer (cf_printers c) \<and> distinct (map pc_id (cf_printers c))"
    by (simp add: printers_checks_ok)
  then show ?thesis
    by (cases "cf_agent_id c"; cases "cf_admin_token c")
       (auto simp: config_validate_def valid_config_def bindR_Inr validate_agent_id_def long_token_iff
         token_ok_def safe_name_iff MAX_JOB_BYTES_def
         simp del: checks.simps(2))
qed

text \<open>C33: validation accepts exactly the configurations whose tokens have at least 24
  characters, whose job limit is between 1 and 8388608 bytes, and whose printers are
  complete for their transport, have a driver, positive timeouts, a profile within its
  limits (speed 1 to 14, offset 0 to 9999, 100 to 1200 dots per inch), and distinct names of
  letters, digits, hyphens and underscores.\<close>

theorem validation_exact: "config_validate c = Inr () \<longleftrightarrow> valid_config c"
  by (rule config_validate_iff)

section \<open>The identity of the agent\<close>

text \<open>Text files: a file that was created but not written is empty.\<close>

datatype read_error = NotFound | OtherError string

definition text_of :: "fcontent \<Rightarrow> read_error + string" where
  "text_of f =
     (case f of
        Data bs \<Rightarrow> (if utf8_lossy (string_of_bytes bs) = string_of_bytes bs then Inr (string_of_bytes bs)
                   else Inl (OtherError ''stream did not contain valid UTF-8''))
      | Partial \<Rightarrow> Inr []
      | _ \<Rightarrow> Inl (OtherError ''stream did not contain valid UTF-8''))"

definition read_to_string :: "path \<Rightarrow> world \<Rightarrow> (read_error + string) \<times> world" where
  "read_to_string p w =
     bindE (mapE OtherError (sys w)) (\<lambda>_ w.
       case lookup p w of None \<Rightarrow> (Inl NotFound, w) | Some f \<Rightarrow> (text_of f, w))"

text \<open>\<open>write_all\<close>: a failing call may leave any proper beginning of the text.\<close>

definition write_text :: "path \<Rightarrow> string \<Rightarrow> world \<Rightarrow> (string + unit) \<times> world" where
  "write_text p s w =
     (case env_fs (w_env w) (w_tick w) of
        None \<Rightarrow> (Inr (), put p (Data (bytes_of s)) (advance w))
      | Some (e, torn) \<Rightarrow>
          (Inl e, if torn then put p (Data (bytes_of (take (env_dt (w_env w) (w_tick w) mod length s) s))) (advance w)
                  else advance w))"

text \<open>\<open>Uuid::to_string\<close>\<close>

definition uuid_bytes :: "uuid \<Rightarrow> u8 list" where
  "uuid_bytes u = map (\<lambda>i. ucast (drop_bit (8 * (15 - i)) u)) [0..<16]"

definition show_uuid :: "uuid \<Rightarrow> string" where
  "show_uuid u =
     (let h = encode_hex (uuid_bytes u)
      in take 8 h @ ''-'' @ take 4 (drop 8 h) @ ''-'' @ take 4 (drop 12 h) @ ''-'' @
         take 4 (drop 16 h) @ ''-'' @ drop 20 h)"

definition show_read_error :: "read_error \<Rightarrow> string" where
  "show_read_error e = (case e of NotFound \<Rightarrow> ''not found'' | OtherError s \<Rightarrow> s)"

definition adopt_id :: "config \<Rightarrow> string \<Rightarrow> string + config" where
  "adopt_id c text =
     bindR (validate_agent_id (trim_ws text)) (\<lambda>_. Inr (c\<lparr>cf_agent_id := Some (trim_ws text)\<rparr>))"

text \<open>The answer of \<open>create_new\<close> that the code tells apart from the other errors is
  \<open>file exists\<close>.\<close>

definition create_identity :: "config \<Rightarrow> world \<Rightarrow> (string + config) \<times> world" where
  "create_identity c w =
     (let (u, w) = new_uuid w; i = show_uuid u
      in case create_new AgentIdFile w of
           (Inr _, w) \<Rightarrow>
             bindE (write_text AgentIdFile i w) (\<lambda>_ w.
             bindE (sync_call w) (\<lambda>_ w. (Inr (c\<lparr>cf_agent_id := Some i\<rparr>), w)))
         | (Inl e, w) \<Rightarrow>
             if e = ''file exists'' then
               bindE (mapE show_read_error (read_to_string AgentIdFile w)) (\<lambda>t w. (adopt_id c t, w))
             else (Inl e, w))"

definition ensure_agent_id :: "config \<Rightarrow> world \<Rightarrow> (string + config) \<times> world" where
  "ensure_agent_id c w =
     (if cf_agent_id c \<noteq> None then (bindR (config_validate c) (\<lambda>_. Inr c), w)
      else
        bindE (create_dir_all w) (\<lambda>_ w.
          case read_to_string AgentIdFile w of
            (Inr t, w) \<Rightarrow> (adopt_id c t, w)
          | (Inl NotFound, w) \<Rightarrow> create_identity c w
          | (Inl (OtherError e), w) \<Rightarrow> (Inl e, w)))"

text \<open>The identity a file holds.\<close>

definition id_of_file :: "fcontent \<Rightarrow> string option" where
  "id_of_file f =
     (case text_of f of
        Inr t \<Rightarrow> (if trim_ws t \<noteq> [] \<and> list_all id_char (trim_ws t) then Some (trim_ws t) else None)
      | Inl _ \<Rightarrow> None)"

definition stored_identity :: "world \<Rightarrow> string option" where
  "stored_identity w = (case lookup AgentIdFile w of None \<Rightarrow> None | Some f \<Rightarrow> id_of_file f)"

lemma adopt_id_Inr:
  "adopt_id c t = Inr c' \<longleftrightarrow>
     trim_ws t \<noteq> [] \<and> list_all id_char (trim_ws t) \<and> c' = c\<lparr>cf_agent_id := Some (trim_ws t)\<rparr>"
  by (auto simp: adopt_id_def bindR_Inr validate_agent_id_def)

lemma read_identity:
  "read_to_string AgentIdFile w = (Inr t, w') \<Longrightarrow> adopt_id c t = Inr c' \<Longrightarrow>
     lookup AgentIdFile w' = lookup AgentIdFile w \<and> cf_agent_id c' = stored_identity w' \<and>
     cf_agent_id c' \<noteq> None"
  by (auto simp: read_to_string_def bindE_Inr_iff mapE_Inr_iff stored_identity_def id_of_file_def
      adopt_id_Inr split: option.splits)

lemma printable_id: "id_char c \<Longrightarrow> printable c"
proof -
  have "char_code (CHR ''-'') = 45" "char_code (CHR ''_'') = 95" by (simp_all add: char_code_def)
  then show "id_char c \<Longrightarrow> printable c"
    by (auto simp: id_char_def is_alnum_def is_digit_def is_upper_def is_lower_def printable_def)
qed

lemma hex_lower_id: "d < 16 \<Longrightarrow> id_char (hex_char False d)"
  by (auto simp: hex_char_def id_char_def is_alnum_def is_digit_def is_lower_def char_code_byte_char)

lemma encode_hex_id: "list_all id_char (encode_hex bs)"
proof (induction bs)
  case Nil
  show ?case by (simp add: encode_hex_def)
next
  case (Cons b bs)
  have "unat b < 256" using unsigned_less [of b] by simp
  then have "unat b div 16 < 16" "unat b mod 16 < 16" by simp_all
  with Cons show ?case by (simp add: encode_hex_def hex_byte_def hex_lower_id)
qed

lemma show_uuid_id: "show_uuid u \<noteq> [] \<and> list_all id_char (show_uuid u)"
proof -
  have "\<forall>c \<in> set (encode_hex (uuid_bytes u)). id_char c" using encode_hex_id by (simp add: list_all_iff)
  moreover have "id_char (CHR ''-'')" by (simp add: id_char_def)
  ultimately show ?thesis
    by (auto simp: show_uuid_def Let_def list_all_iff dest: in_set_takeD in_set_dropD)
qed

lemma id_text:
  assumes "s \<noteq> []" and "list_all id_char s"
  shows "trim_ws s = s" "utf8_lossy s = s"
proof -
  have "printable (hd s)" "printable (last s)" using assms printable_id by (auto simp: list_all_iff)
  then show "trim_ws s = s" by (intro trim_printable) simp
  have "list_all (\<lambda>c. char_code c < 0x80) s"
    using assms(2) printable_id by (fastforce simp: list_all_iff printable_def)
  then show "utf8_lossy s = s" by (rule utf8_lossy_ascii)
qed

lemma stored_identity_new:
  "lookup AgentIdFile w = Some (Data (bytes_of (show_uuid u))) \<Longrightarrow> stored_identity w = Some (show_uuid u)"
  using show_uuid_id [of u] id_text [of "show_uuid u"]
  by (simp add: stored_identity_def id_of_file_def text_of_def string_of_bytes_of)

lemma write_text_Inr: "write_text p s w = (Inr u, w') \<Longrightarrow> lookup p w' = Some (Data (bytes_of s))"
  by (auto simp: write_text_def split: option.splits)

lemma text_of_found: "text_of f \<noteq> Inl NotFound"
  by (cases f) (simp_all add: text_of_def)

lemma read_not_found: "read_to_string p w = (Inl NotFound, w') \<Longrightarrow> lookup p w = None"
  by (cases "env_fs (w_env w) (w_tick w)"; cases "lookup p w")
     (auto simp: read_to_string_def sys_def text_of_found)

lemma create_identity_stored:
  assumes "create_identity c w = (Inr c', w')"
  shows "cf_agent_id c' = stored_identity w' \<and> cf_agent_id c' \<noteq> None"
proof -
  obtain r w1 where cr: "create_new AgentIdFile (advance w) = (r, w1)" by fastforce
  show ?thesis
  proof (cases r)
    case (Inr u)
    then obtain w2 where "write_text AgentIdFile (show_uuid (env_uuid (w_env w) (w_tick w))) w1 = (Inr (), w2)"
        "w' = advance w2" "c' = c\<lparr>cf_agent_id := Some (show_uuid (env_uuid (w_env w) (w_tick w)))\<rparr>"
      using assms cr by (auto simp: create_identity_def new_uuid_def Let_def bindE_Inr_iff sync_call_def)
    moreover from this have "lookup AgentIdFile w' = Some (Data (bytes_of (show_uuid (env_uuid (w_env w) (w_tick w)))))"
      using write_text_Inr by simp
    ultimately show ?thesis by (simp add: stored_identity_new)
  next
    case (Inl e)
    then obtain t where "read_to_string AgentIdFile w1 = (Inr t, w')" "adopt_id c t = Inr c'"
      using assms cr by (auto simp: create_identity_def new_uuid_def Let_def bindE_Inr_iff split: if_splits)
    from read_identity [OF this] show ?thesis by metis
  qed
qed

lemma ensure_stored:
  assumes "ensure_agent_id c w = (Inr c', w')" and "cf_agent_id c = None"
  shows "cf_agent_id c' = stored_identity w' \<and> cf_agent_id c' \<noteq> None \<and>
     (stored_identity w \<noteq> None \<longrightarrow> stored_identity w' = stored_identity w)"
proof -
  obtain w1 where cd: "create_dir_all w = (Inr (), w1)"
    using assms by (auto simp: ensure_agent_id_def bindE_Inr_iff)
  then have w1: "lookup AgentIdFile w1 = lookup AgentIdFile w"
    by (auto simp: create_dir_all_def)
  obtain r w2 where rd: "read_to_string AgentIdFile w1 = (r, w2)" by fastforce
  show ?thesis
  proof (cases r)
    case (Inr t)
    with assms cd rd have "adopt_id c t = Inr c'" "w' = w2" by (simp_all add: ensure_agent_id_def)
    with read_identity [of w1 t w2 c c'] rd Inr have
      "cf_agent_id c' = stored_identity w' \<and> cf_agent_id c' \<noteq> None \<and> lookup AgentIdFile w' = lookup AgentIdFile w1"
      by metis
    moreover from this w1 have "stored_identity w' = stored_identity w" by (simp add: stored_identity_def)
    ultimately show ?thesis by metis
  next
    case (Inl e)
    show ?thesis
    proof (cases e)
      case NotFound
      then have "stored_identity w = None"
        using read_not_found [of AgentIdFile w1 w2] rd Inl w1 by (simp add: stored_identity_def)
      moreover have "create_identity c w2 = (Inr c', w')"
        using assms cd rd Inl NotFound by (simp add: ensure_agent_id_def)
      ultimately show ?thesis using create_identity_stored [of c w2 c' w'] by metis
    next
      case (OtherError m)
      with assms cd rd Inl show ?thesis by (simp add: ensure_agent_id_def)
    qed
  qed
qed

text \<open>C34: an agent without a configured identity that has started once keeps its identity: a
  later start on the same file, with any configuration and in any environment, either
  fails or takes the same identity, and an identity that was stored is never replaced.\<close>

theorem identity_survives:
  assumes first: "ensure_agent_id c w = (Inr c', w')" "cf_agent_id c = None"
    and later: "ensure_agent_id d v = (Inr d', v')" "cf_agent_id d = None"
    and same: "lookup AgentIdFile v = lookup AgentIdFile w'"
  shows "cf_agent_id d' = cf_agent_id c' \<and> cf_agent_id c' \<noteq> None \<and>
     (stored_identity w \<noteq> None \<longrightarrow> cf_agent_id c' = stored_identity w)"
proof -
  have "stored_identity v = stored_identity w'" using same by (simp add: stored_identity_def)
  with ensure_stored [OF first] ensure_stored [OF later] show ?thesis by metis
qed

section \<open>Concrete configurations\<close>

definition first_start :: world where
  "first_start = world_with []"

lemma first_identity:
  "\<exists>c w. ensure_agent_id default_config first_start = (Inr c, w) \<and> w_env w = calm_env"
proof -
  have fs: "env_fs calm_env = (\<lambda>_. None)" by (simp add: calm_env_def)
  show ?thesis
    by (simp add: ensure_agent_id_def default_config_def create_dir_all_def sys_def fs first_start_def
        read_to_string_def create_identity_def new_uuid_def Let_def create_new_def write_text_def
        sync_call_def)
qed

theorem identity_survives_witness:
  "\<exists>c w d w'. ensure_agent_id default_config first_start = (Inr c, w) \<and>
     ensure_agent_id default_config w = (Inr d, w') \<and> cf_agent_id d = cf_agent_id c"
proof -
  obtain c w where one: "ensure_agent_id default_config first_start = (Inr c, w)" "w_env w = calm_env"
    using first_identity by blast
  have none: "cf_agent_id default_config = None" by (simp add: default_config_def)
  have "stored_identity w \<noteq> None" using ensure_stored [OF one(1) none] by metis
  then obtain f i where f: "lookup AgentIdFile w = Some f" "id_of_file f = Some i"
    by (auto simp: stored_identity_def split: option.splits)
  then obtain t d where t: "text_of f = Inr t" "adopt_id default_config t = Inr d"
    by (auto simp: id_of_file_def adopt_id_Inr split: sum.splits if_splits)
  have fs: "env_fs (w_env w) = (\<lambda>_. None)" by (simp add: one(2) calm_env_def)
  have two: "ensure_agent_id default_config w = (Inr d, advance (advance w))"
    using f(1) t none by (simp add: ensure_agent_id_def create_dir_all_def sys_def fs read_to_string_def)
  from identity_survives [OF one(1) none two none refl] one(1) two show ?thesis by auto
qed

end
