(* ===== verification/Access.thy ===== *)
theory Access
  imports Settings
begin

text \<open>
  The bearer tokens of the HTTP interface (\<open>src/webui.rs\<close>) and the guards of the two API
  versions (\<open>src/api.rs\<close>): a request is authorized if it carries a token of the scope it
  needs. Headers are a list of names in lower case with their bytes; a value that is not
  visible ASCII has no text.
\<close>

section \<open>Headers\<close>

type_synonym headers = "(string \<times> string) list"

definition visible_ascii :: "char \<Rightarrow> bool" where
  "visible_ascii c = (32 \<le> char_code c \<and> char_code c < 127 \<or> char_code c = 9)"

text \<open>\<open>headers.get(name).and_then(|v| v.to_str().ok())\<close>\<close>

definition header_string :: "headers \<Rightarrow> string \<Rightarrow> string option" where
  "header_string hs name =
     (case map_of hs name of
        None \<Rightarrow> None
      | Some v \<Rightarrow> if list_all visible_ascii v then Some v else None)"

section \<open>Tokens\<close>

definition constant_time_equal :: "u8 list \<Rightarrow> u8 list \<Rightarrow> bool" where
  "constant_time_equal a b =
     (if length a \<noteq> length b then False
      else fold (\<lambda>(x, y) difference. difference OR (x XOR y)) (zip a b) 0 = 0)"

datatype scope = ReadScope | PrintScope | AdminScope

definition candidates :: "config \<Rightarrow> scope \<Rightarrow> string option list" where
  "candidates c access =
     (case access of
        ReadScope \<Rightarrow> [cf_read_token c, cf_print_token c, cf_admin_token c]
      | PrintScope \<Rightarrow> [cf_print_token c, cf_admin_token c, None]
      | AdminScope \<Rightarrow> [cf_admin_token c, None, None])"

definition authorized :: "config \<Rightarrow> headers \<Rightarrow> scope \<Rightarrow> bool" where
  "authorized c hs access =
     (case Option.bind (header_string hs ''authorization'') (strip_prefix ''Bearer '') of
        None \<Rightarrow> False
      | Some supplied \<Rightarrow>
          list_ex (\<lambda>t. case t of None \<Rightarrow> False
             | Some expected \<Rightarrow>
                 24 \<le> length expected \<and> constant_time_equal (bytes_of expected) (bytes_of supplied))
            (candidates c access))"

section \<open>Answers\<close>

text \<open>An error of the API: the HTTP status, a code and a message.\<close>

record api_error =
  ae_status :: nat
  ae_code :: string
  ae_message :: string

definition api_error_new :: "nat \<Rightarrow> string \<Rightarrow> string \<Rightarrow> api_error" where
  "api_error_new status code message = \<lparr>ae_status = status, ae_code = code, ae_message = message\<rparr>"

definition v2_authorize :: "config \<Rightarrow> headers \<Rightarrow> scope \<Rightarrow> api_error + unit" where
  "v2_authorize c hs access =
     (if authorized c hs access then Inr ()
      else Inl (api_error_new 401 ''unauthorized'' ''A valid ZebraTamer bearer token is required''))"

definition authorize :: "config \<Rightarrow> headers \<Rightarrow> api_error + unit" where
  "authorize c hs =
     (if authorized c hs AdminScope then Inr ()
      else Inl (api_error_new 401 ''unauthorized'' ''Enter the ZebraTamer admin token''))"

text \<open>The middleware of the legacy routes runs \<open>next\<close> only for the admin token.\<close>

definition legacy_authorization :: "config \<Rightarrow> headers \<Rightarrow> ('w \<Rightarrow> (api_error + 'a) \<times> 'w) \<Rightarrow> 'w \<Rightarrow>
    (api_error + 'a) \<times> 'w" where
  "legacy_authorization c hs nxt w =
     (if authorized c hs AdminScope then nxt w
      else (Inl (api_error_new 401 ''unauthorized''
             ''A ZebraTamer admin token is required for the legacy v1 API''), w))"

section \<open>Who is let in\<close>

lemma or_zero: "(a OR b = 0) = (a = 0 \<and> b = 0)" for a b :: "'l::len word"
  by (simp add: or_eq_0_iff)

lemma fold_difference:
  "length a = length b \<Longrightarrow>
     fold (\<lambda>(x, y) d. d OR (x XOR y)) (zip a b) d = 0 \<longleftrightarrow> d = 0 \<and> a = b" for d :: u8
proof (induction a b arbitrary: d rule: list_induct2)
  case Nil
  show ?case by simp
next
  case (Cons x xs y ys)
  have "x XOR y = 0 \<longleftrightarrow> x = y" by (metis xor_self_eq xor.assoc xor.right_neutral)
  then show ?case using Cons.IH by (auto simp: or_zero)
qed

lemma constant_time_equal_iff: "constant_time_equal a b \<longleftrightarrow> a = b"
  by (auto simp: constant_time_equal_def fold_difference)

lemma bytes_of_inject: "bytes_of a = bytes_of b \<longleftrightarrow> a = b"
  by (metis string_of_bytes_of)

text \<open>The tokens that open a scope.\<close>

definition granting :: "config \<Rightarrow> scope \<Rightarrow> string set" where
  "granting c access =
     {t. Some t \<in> (case access of
        ReadScope \<Rightarrow> {cf_read_token c, cf_print_token c, cf_admin_token c}
      | PrintScope \<Rightarrow> {cf_print_token c, cf_admin_token c}
      | AdminScope \<Rightarrow> {cf_admin_token c})}"

lemma candidates_granting: "Some t \<in> set (candidates c access) \<longleftrightarrow> t \<in> granting c access"
  by (cases access) (auto simp: candidates_def granting_def)

lemma bearer_iff:
  "(case Option.bind h (strip_prefix p) of
      None \<Rightarrow> False
    | Some supplied \<Rightarrow>
        list_ex (\<lambda>t. case t of None \<Rightarrow> False
           | Some expected \<Rightarrow>
               24 \<le> length expected \<and> constant_time_equal (bytes_of expected) (bytes_of supplied)) ts) \<longleftrightarrow>
   (\<exists>t. Some t \<in> set ts \<and> 24 \<le> length t \<and> h = Some (p @ t))"
proof (cases "Option.bind h (strip_prefix p)")
  case None
  then have "h \<noteq> Some (p @ t)" for t using strip_prefix_Some [of p "p @ t" t] by auto
  with None show ?thesis by simp
next
  case (Some supplied)
  then have "h = Some (p @ supplied)"
    by (auto simp: strip_prefix_Some split: bind_splits)
  with Some show ?thesis
    by (auto simp: list_ex_iff constant_time_equal_iff bytes_of_inject split: option.splits)
qed

text \<open>C25: a request is let in exactly if its authorization header is the word Bearer, a space and a
  token of at least 24 characters configured for the scope or a wider one; no prefix, no
  shorter token and no token of a narrower scope is accepted.\<close>

theorem authorized_exact:
  "authorized c hs access \<longleftrightarrow>
     (\<exists>t \<in> granting c access. 24 \<le> length t \<and> header_string hs ''authorization'' = Some (''Bearer '' @ t))"
proof -
  have "authorized c hs access \<longleftrightarrow>
      (\<exists>t. Some t \<in> set (candidates c access) \<and> 24 \<le> length t \<and>
        header_string hs ''authorization'' = Some (''Bearer '' @ t))"
    unfolding authorized_def by (rule bearer_iff)
  then show ?thesis by (auto simp: candidates_granting)
qed

end
