(* ===== verification/Startup.thy ===== *)
theory Startup
  imports Worker_Drain Protocol Access
begin

text \<open>
  The start of the service: \<open>main\<close> of \<open>src/main.rs\<close> with \<open>Store::open_exclusive\<close>. The
  printers are taken from the data directory, the boot is accounted for, the jobs are
  recovered, every printer's queue is stored, and a thread is started per enabled
  printer. Whatever fails on the way, the jobs only move along their life cycle, and a
  service that starts has threads with sound queues.
\<close>

section \<open>The service\<close>

text \<open>The crates and the numeric parts of the platform the program runs on.\<close>

record platform =
  pf_numeric :: numeric
  pf_digest :: "time \<times> media_definition \<Rightarrow> string"
  pf_codecs :: codecs

record service =
  sv_config :: config
  sv_printers :: "printer_config list"
  sv_workers :: "string \<Rightarrow> (worker_context \<times> worker) option"

text \<open>What \<open>worker::spawn\<close> is given for a printer.\<close>

definition context_for :: "platform \<Rightarrow> config \<Rightarrow> printer_config \<Rightarrow> worker_context" where
  "context_for pf c p = \<lparr>wc_numeric = pf_numeric pf, wc_digest = pf_digest pf, wc_config = p,
     wc_options = \<lparr>wo_storage = cf_storage_mode c,
       wo_reconnect_debounce_secs = cf_reconnect_debounce_secs c,
       wo_reconnect_loss_labels = cf_printer_reconnect_loss_labels c,
       wo_hardware_counters = cf_hardware_counters c\<rparr>\<rparr>"

text \<open>\<open>locked\<close>: another process holds the lock of the data directory.\<close>

definition open_store :: "world \<Rightarrow> (string + unit) \<times> world" where
  "open_store w =
     bindE (create_dir_all w) (\<lambda>_ w. bindE (create_dir_all w) (\<lambda>_ w.
     bindE (create_dir_all w) (\<lambda>_ w. create_dir_all w)))"

definition open_exclusive :: "bool \<Rightarrow> world \<Rightarrow> (string + unit) \<times> world" where
  "open_exclusive locked w =
     bindE (open_store w) (\<lambda>_ w.
     bindE (sys w) (\<lambda>_ w.
       case sys w of
         (Inl _, w) \<Rightarrow> (Inl ''data directory is already owned by another ZebraTamer process'', w)
       | (Inr _, w) \<Rightarrow>
           (if locked then Inl ''data directory is already owned by another ZebraTamer process''
            else Inr (), w)))"

definition stored_printers :: "config \<Rightarrow> world \<Rightarrow> (string + printer_config list) \<times> world" where
  "stored_printers c w =
     bindE (load_printer_configs w) (\<lambda>r w.
       case r of
         Some ps \<Rightarrow> (Inr ps, w)
       | None \<Rightarrow> bindE (save_printer_configs (cf_printers c) w) (\<lambda>_ w. (Inr (cf_printers c), w)))"

text \<open>\<open>queues.entry(job.printer_id).or_default().push(job.id)\<close> over the recovered jobs.\<close>

definition queue_table :: "job list \<Rightarrow> string \<Rightarrow> uuid list" where
  "queue_table js = fold (\<lambda>j m. m(job_printer_id j := m (job_printer_id j) @ [job_id j])) js (\<lambda>_. [])"

fun save_queues :: "(string \<Rightarrow> uuid list) \<Rightarrow> printer_config list \<Rightarrow> world \<Rightarrow> (string + unit) \<times> world" where
  "save_queues qs [] w = (Inr (), w)"
| "save_queues qs (p # ps) w = bindE (save_queue (pc_id p) (qs (pc_id p)) w) (\<lambda>_ w. save_queues qs ps w)"

fun spawn_all :: "(printer_config \<Rightarrow> worker_context) \<Rightarrow> printer_config list \<Rightarrow>
    (string \<Rightarrow> (worker_context \<times> worker) option) \<Rightarrow> world \<Rightarrow>
    (string \<Rightarrow> (worker_context \<times> worker) option) \<times> world" where
  "spawn_all mk [] ws w = (ws, w)"
| "spawn_all mk (p # ps) ws w =
     (case start_worker (mk p) w of
        (wk, w) \<Rightarrow> spawn_all mk ps (ws(pc_id p \<mapsto> (mk p, wk))) w)"

definition start_service :: "platform \<Rightarrow> string option \<Rightarrow> bool \<Rightarrow> config \<Rightarrow> world \<Rightarrow>
    (string + service) \<times> world" where
  "start_service pf boot locked c w =
     bindE (ensure_agent_id c w) (\<lambda>c w.
     bindE (open_exclusive locked w) (\<lambda>_ w.
     bindE (stored_printers c w) (\<lambda>ps w.
     bindE (config_validate (c\<lparr>cf_printers := ps\<rparr>), w) (\<lambda>_ w.
     bindE (apply_boot_accounting c boot w) (\<lambda>_ w.
     bindE (recover_jobs w) (\<lambda>recovered w.
     bindE (save_queues (queue_table recovered) ps w) (\<lambda>_ w.
       case spawn_all (context_for pf c) (filter pc_enabled ps) Map.empty w of
         (ws, w) \<Rightarrow> (Inr \<lparr>sv_config = c, sv_printers = ps, sv_workers = ws\<rparr>, w))))))))"

section \<open>Operations that only move jobs forward\<close>

definition grows :: "world \<Rightarrow> world \<Rightarrow> bool" where
  "grows w w' = (evolves w w' \<and> only_files UNIV w w')"

interpretation grows: respected grows
  by unfold_locales (auto simp: grows_def evolves.refl only_files.refl
      intro: evolves.trans only_files.trans)

lemma grows_files: "only_files P w w' \<Longrightarrow> no_job_file P \<Longrightarrow> grows w w'"
  by (auto simp: grows_def intro: evolves_only_files only_files_mono)

lemma grows_keyed: "grows w w' \<Longrightarrow> jobs_keyed w \<Longrightarrow> jobs_keyed w'"
  by (simp add: grows_def evolves_def)

lemma grows_wf: "grows w w' \<Longrightarrow> wf_files w \<Longrightarrow> wf_files w'"
  by (simp add: grows_def only_files_def)

lemma grows_simps [simp]: "grows w (advance w)" "grows w w"
  by (simp_all add: grows_def evolves_advance evolves.refl only_files.refl)

lemma only_files_recover_step: "only_files UNIV w (snd (recover_step j q w))"
proof -
  have sv: "only_files UNIV v (snd (bindE (save_job i v) (\<lambda>_ w. (Inr (q, False), w))))" for i v
    by (rule only_files.bindE_respects) (simp_all add: any_files [OF only_files_save_job] only_files.refl)
  have rm: "only_files UNIV v (snd (remove_file p v))" for p v
    by (rule any_files [OF only_files_remove_any])
  show ?thesis
    using sv rm by (auto simp: recover_step_def now_def Let_def only_files.refl
        intro: only_files.trans [OF only_files_advance sv]
          only_files.trans [OF only_files_advance only_files.trans [OF rm sv]])
qed

lemma only_files_scan:
  assumes "\<And>j a w. only_files P w (snd (step j a w))"
  shows "only_files P w (snd (scan_jobs step ps a w))"
proof (induction ps arbitrary: a w)
  case Nil
  show ?case by (simp add: only_files.refl)
next
  case (Cons p ps)
  have rd: "only_files P w v" if "read_json as_job p (advance w) = (r, v)" for r v
    using only_files_mono [OF read_json_world [OF that]] by simp
  have step: "only_files P v (snd (bindE (step j a v) (\<lambda>r w.
      if snd r then (Inr (fst r), w) else scan_jobs step ps (fst r) w)))" for j v
    by (rule only_files.bindE_respects) (simp_all add: assms Cons.IH only_files.refl)
  show ?case
    unfolding scan_jobs.simps
    by (rule only_files.bindE_respects)
       (auto split: prod.splits sum.splits intro: only_files.trans [OF rd step]
          only_files.trans [OF rd Cons.IH] only_files.trans [OF only_files_advance Cons.IH])
qed

lemma grows_recover: "grows w (snd (recover_jobs w))"
proof -
  have "only_files UNIV w (snd (for_jobs recover_step [] w))"
    unfolding for_jobs_def
    by (rule only_files.bindE_respects) (simp_all add: only_files_scan only_files_recover_step)
  then have "only_files UNIV w (snd (recover_jobs w))"
    unfolding recover_jobs_def by (rule only_files.bindE_respects) (simp add: only_files.refl)
  then show ?thesis by (simp add: grows_def recover_jobs_evolves)
qed

lemma grows_atomic: "(\<forall>jid. p \<noteq> JobFile jid) \<Longrightarrow> grows w (snd (atomic_json p d w))"
  by (rule grows_files [OF atomic_json_only_files]) simp

lemma grows_save_queue: "grows w (snd (save_queue pid q w))"
  by (rule grows_files [OF queues.save_only]) simp_all

lemma grows_calls: "grows w (snd (create_dir_all w))" "grows w (snd (sync_call w))"
  "grows w (snd (read_json sel p w))" "grows w (snd (load_printer_configs w))"
  "grows w (snd (create_new AgentIdFile w))" "grows w (snd (write_text AgentIdFile s w))"
  "grows w (snd (read_to_string AgentIdFile w))"
proof -
  show "grows w (snd (create_new AgentIdFile w))"
    by (rule grows_files [OF only_files_create_new [of _ "{AgentIdFile}"]]) simp_all
  have "only_files {AgentIdFile} w (snd (write_text AgentIdFile s w))"
    by (auto simp: write_text_def only_files_def split: option.splits)
  then show "grows w (snd (write_text AgentIdFile s w))" by (rule grows_files) simp
  have "only_files {} w (snd (read_to_string AgentIdFile w))"
    by (auto simp: read_to_string_def bindE_def mapE_def sys_def only_files_def split: option.splits)
  then show "grows w (snd (read_to_string AgentIdFile w))" by (rule grows_files) simp
qed (rule grows_files [where P = "{}"]; simp)+

lemma agent_id_calls:
  "only_files {AgentIdFile} w (snd (create_new AgentIdFile w))"
  "only_files {AgentIdFile} w (snd (write_text AgentIdFile s w))"
  "only_files {AgentIdFile} w (snd (read_to_string AgentIdFile w))"
proof -
  show "only_files {AgentIdFile} w (snd (create_new AgentIdFile w))"
    by (rule only_files_create_new) simp
  show "only_files {AgentIdFile} w (snd (write_text AgentIdFile s w))"
    by (auto simp: write_text_def only_files_def split: option.splits)
  show "only_files {AgentIdFile} w (snd (read_to_string AgentIdFile w))"
    by (auto simp: read_to_string_def bindE_def mapE_def sys_def only_files_def split: option.splits)
qed

lemma only_files_ensure: "only_files {AgentIdFile} w (snd (ensure_agent_id c w))"
proof -
  let ?R = "only_files {AgentIdFile}"
  have after: "?R v (snd (bindE (mapE show_read_error (read_to_string AgentIdFile v)) (\<lambda>t w. (adopt_id c t, w))))" for v
    by (rule only_files.bindE_respects) (simp_all add: agent_id_calls only_files.refl)
  have create: "?R v (snd (create_identity c v))" for v
  proof -
    obtain r v1 where cr: "create_new AgentIdFile (advance v) = (r, v1)" by fastforce
    have v1: "?R v v1"
      using only_files.trans [OF only_files_advance agent_id_calls(1), of v] cr by simp
    have wr: "?R v1 (snd (bindE (write_text AgentIdFile i v1) (\<lambda>_ w. bindE (sync_call w) (\<lambda>_ w. (Inr d, w)))))"
      for i and d :: config
      by (intro only_files.bindE_respects) (simp_all add: agent_id_calls only_files.refl)
    show ?thesis
      using cr only_files.trans [OF v1 wr] only_files.trans [OF v1 after] v1
      by (cases r) (auto simp: create_identity_def new_uuid_def Let_def)
  qed
  have body: "?R v (snd (case read_to_string AgentIdFile v of
            (Inr t, w) \<Rightarrow> (adopt_id c t, w)
          | (Inl NotFound, w) \<Rightarrow> create_identity c w
          | (Inl (OtherError e), w) \<Rightarrow> (Inl e, w)))" for v
  proof -
    obtain r v1 where rd: "read_to_string AgentIdFile v = (r, v1)" by fastforce
    have v1: "?R v v1" using agent_id_calls(3) [of v] rd by simp
    with rd only_files.trans [OF v1 create] show ?thesis by (auto split: sum.split read_error.split)
  qed
  show ?thesis
  proof (cases "cf_agent_id c")
    case (Some i)
    then show ?thesis by (simp add: ensure_agent_id_def only_files.refl)
  next
    case None
    have "?R w (snd (bindE (create_dir_all w) (\<lambda>_ w. case read_to_string AgentIdFile w of
            (Inr t, w) \<Rightarrow> (adopt_id c t, w)
          | (Inl NotFound, w) \<Rightarrow> create_identity c w
          | (Inl (OtherError e), w) \<Rightarrow> (Inl e, w))))"
      by (rule only_files.bindE_respects) (simp_all add: body)
    with None show ?thesis by (simp add: ensure_agent_id_def)
  qed
qed

lemma only_files_open: "only_files {} w (snd (open_exclusive locked w))"
proof -
  have "only_files {} w (snd (open_store w))"
    unfolding open_store_def by (intro only_files.bindE_respects) simp_all
  moreover have step: "only_files {} v (snd (case sys v of (Inl _, w) \<Rightarrow> (Inl e, w)
      | (Inr _, w) \<Rightarrow> (if locked then Inl e else Inr (), w)))" for v and e :: string
    by (auto simp: sys_def split: option.splits)
  have "only_files {} v (snd (bindE (sys v) (\<lambda>_ w. case sys w of (Inl _, w) \<Rightarrow> (Inl e, w)
      | (Inr _, w) \<Rightarrow> (if locked then Inl e else Inr (), w))))" for v and e :: string
    by (intro only_files.bindE_respects step) simp
  ultimately show ?thesis
    unfolding open_exclusive_def by (rule only_files.bindE_respects)
qed

lemma grows_ensure: "grows w (snd (ensure_agent_id c w))"
  by (rule grows_files [OF only_files_ensure]) simp

lemma grows_open: "grows w (snd (open_exclusive locked w))"
  by (rule grows_files [OF only_files_open]) simp

text \<open>The lock: a second process on the same data directory does not start, and touches no
  file but the identity.\<close>

lemma locked_start:
  assumes "start_service pf boot True c w = (r, w')"
  shows "(\<exists>e. r = Inl e) \<and> only_files {AgentIdFile} w w'"
proof -
  obtain i v where id: "ensure_agent_id c w = (i, v)" by fastforce
  have v: "only_files {AgentIdFile} w v" using only_files_ensure [of w c] id by simp
  show ?thesis
  proof (cases i)
    case (Inl e)
    with assms id v show ?thesis by (auto simp: start_service_def)
  next
    case (Inr d)
    obtain q u where op: "open_exclusive True v = (q, u)" by fastforce
    have "\<exists>e. q = Inl e"
      using op by (auto simp: open_exclusive_def bindE_def sys_def split: prod.splits sum.splits option.splits)
    moreover have "only_files {AgentIdFile} v u"
      using only_files_mono [OF only_files_open [of v True]] op by auto
    ultimately show ?thesis using assms id op Inr v by (auto simp: start_service_def intro: only_files.trans)
  qed
qed

lemma grows_printers: "grows w (snd (stored_printers c w))"
proof -
  have "grows v (snd (bindE (save_printer_configs ps v) (\<lambda>_ w. (Inr ps, w))))" for ps and v
    unfolding save_printer_configs_def by (rule grows.bindE_respects) (simp_all add: grows_atomic)
  then show ?thesis
    unfolding stored_printers_def
    by (intro grows.bindE_respects) (simp_all add: grows_calls split: option.split)
qed

lemma grows_boot: "grows w (snd (apply_boot_accounting c boot w))"
proof -
  obtain r w1 where rd: "read_json as_boot_id BootIdFile w = (r, w1)" by fastforce
  have w1: "only_files UNIV w w1" by (rule any_files [OF read_json_world [OF rd]])
  have loss: "only_files UNIV v (snd (boot_losses n ps v))" for n ps v by (rule any_files [OF boot_losses_frame])
  have "only_files UNIV v (snd (atomic_json BootIdFile d v))" for d v by (rule any_files [OF atomic_json_only_files])
  then have "only_files UNIV w1 (snd (apply_boot_accounting c boot w)) "
    using rd loss
    by (auto simp: apply_boot_accounting_def Let_def only_files.refl intro!: only_files.bindE_respects)
  with w1 show ?thesis by (auto simp: grows_def apply_boot_accounting_evolves intro: only_files.trans)
qed

lemma grows_save_queues: "grows w (snd (save_queues qs ps w))"
proof (induction ps arbitrary: w)
  case Nil
  show ?case by simp
next
  case (Cons p ps)
  then show ?case by (auto intro!: grows.bindE_respects simp: grows_save_queue)
qed

section \<open>The queues of the threads that start\<close>

lemma queue_table_fold:
  "fold (\<lambda>j m. m(job_printer_id j := m (job_printer_id j) @ [job_id j])) js m pid =
     m pid @ map job_id (filter (\<lambda>j. job_printer_id j = pid) js)"
  by (induction js arbitrary: m) auto

lemma queue_table: "queue_table js pid = map job_id (filter (\<lambda>j. job_printer_id j = pid) js)"
  by (simp add: queue_table_def queue_table_fold)

text \<open>What a scan for recovery returns: the jobs it found waiting are stored and distinct.\<close>

definition recovered_list :: "path set \<Rightarrow> job list \<Rightarrow> world \<Rightarrow> bool" where
  "recovered_list P js w =
     (distinct (map job_id js) \<and>
      (\<forall>j \<in> set js. JobFile (job_id j) \<in> P \<and> is_queued j \<and> jobs_of w (job_id j) = Some j))"

lemma recover_step_local:
  assumes "recover_step j q w = (r, w')"
  shows "\<forall>i. i \<noteq> job_id j \<longrightarrow> jobs_of w' i = jobs_of w i" "is_queued j \<Longrightarrow> w' = w"
proof -
  have sv: "i \<noteq> job_id k \<Longrightarrow> jobs_of v' i = jobs_of v i"
    if "bindE (save_job k v) (\<lambda>_ w. (Inr (q, False), w)) = (r, v')" for i k v v'
    using that jobs_of_save [of k v i] by (cases "save_job k v") (auto simp: bindE_def split: sum.splits)
  have rm: "jobs_of (snd (remove_file (SpoolFile u) v)) = jobs_of v" for u v
    by (rule only_files_jobs [OF only_files_remove_any]) simp
  show "\<forall>i. i \<noteq> job_id j \<longrightarrow> jobs_of w' i = jobs_of w i"
    using assms by (auto simp: recover_step_def now_def Let_def rm dest!: sv split: if_splits)
  show "is_queued j \<Longrightarrow> w' = w"
    using assms by (auto simp: recover_step_def is_queued_def)
qed

lemma scan_recovered:
  assumes "scan_jobs recover_step ps q w = (Inr q', w')" and "distinct ps" and "jobs_keyed w"
  shows "\<exists>js. q' = q @ js \<and> recovered_list (set ps) js w' \<and>
     (\<forall>i. JobFile i \<notin> set ps \<longrightarrow> jobs_of w' i = jobs_of w i)"
  using assms
proof (induction ps arbitrary: q w)
  case Nil
  then show ?case by (simp add: recovered_list_def)
next
  case (Cons p ps)
  let ?w = "advance w"
  have keyed: "jobs_keyed ?w" using Cons.prems(3) by (simp add: keyed_same [of ?w w])
  have more: "\<exists>js. q' = q @ js \<and> recovered_list (set (p # ps)) js w' \<and>
      (\<forall>i. JobFile i \<notin> set (p # ps) \<longrightarrow> jobs_of w' i = jobs_of w i)"
    if "scan_jobs recover_step ps q v = (Inr q', w')" "jobs_keyed v" "jobs_of v = jobs_of w" for v
  proof -
    note v = that
    obtain js where "q' = q @ js" "recovered_list (set ps) js w'"
        "\<forall>i. JobFile i \<notin> set ps \<longrightarrow> jobs_of w' i = jobs_of v i"
      using Cons.IH [OF v(1)] Cons.prems(2) v(2) by auto
    with v(3) show ?thesis by (auto simp: recovered_list_def)
  qed
  show ?case
  proof (cases "has_json_extension p")
    case False
    with Cons.prems(1) have "scan_jobs recover_step ps q ?w = (Inr q', w')"
      by (auto simp: bindE_Inr_iff)
    then show ?thesis by (rule more) (simp_all add: keyed)
  next
    case True
    obtain rd w2 where rd: "read_json as_job p ?w = (rd, w2)" by fastforce
    have w2: "jobs_of w2 = jobs_of w" using only_files_none_jobs [OF read_json_world [OF rd]] by simp
    have keyed2: "jobs_keyed w2" using keyed w2 by (simp add: keyed_same [of w2 ?w])
    show ?thesis
    proof (cases rd)
      case (Inl e)
      with Cons.prems(1) True rd have "scan_jobs recover_step ps q w2 = (Inr q', w')"
        by (auto simp: bindE_Inr_iff)
      then show ?thesis by (rule more) (simp_all add: keyed2 w2)
    next
      case (Inr j)
      with read_job_stored [of p ?w j w2] rd True keyed
      have p: "p = JobFile (job_id j)" and j: "jobs_of w2 (job_id j) = Some j" by auto
      obtain q1 b w3 where st: "recover_step j q w2 = (Inr (q1, b), w3)"
          and rest: "(if b then (Inr q1, w3) else scan_jobs recover_step ps q1 w3) = (Inr q', w')"
      proof -
        have "bindE (recover_step j q w2) (\<lambda>r w. if snd r then (Inr (fst r), w)
            else scan_jobs recover_step ps (fst r) w) = (Inr q', w')"
          using Cons.prems(1) True rd Inr by (auto simp: bindE_Inr_iff)
        then obtain r w3 where "recover_step j q w2 = (Inr r, w3)"
            "(if snd r then (Inr (fst r), w3) else scan_jobs recover_step ps (fst r) w3) = (Inr q', w')"
          by (auto simp only: bindE_Inr_iff)
        then show thesis using that [of "fst r" "snd r" w3] by simp
      qed
      note loc = recover_step_local [OF st]
      have q1: "q1 = q @ (if is_queued j then [j] else [])" by (rule recover_step_result [OF st])
      have b: "\<not> b" using st by (auto simp: recover_step_def bindE_Inr_iff Let_def split: if_splits prod.splits)
      have keyed3: "jobs_keyed w3"
        using recover_step_evolves [of w2 j q] j st keyed2 by (simp add: evolves_def)
      have nin: "JobFile (job_id j) \<notin> set ps" using Cons.prems(2) p by auto
      obtain js where js: "q' = q1 @ js" "recovered_list (set ps) js w'"
          "\<forall>i. JobFile i \<notin> set ps \<longrightarrow> jobs_of w' i = jobs_of w3 i"
        using Cons.IH [of q1 w3] rest b Cons.prems(2) keyed3 by auto
      have kept: "\<forall>i. JobFile i \<notin> set (p # ps) \<longrightarrow> jobs_of w' i = jobs_of w i"
        using js(3) loc(1) w2 p by auto
      show ?thesis
      proof (cases "is_queued j")
        case False
        with js q1 kept show ?thesis by (auto simp: recovered_list_def)
      next
        case queued: True
        have "jobs_of w' (job_id j) = Some j" using js(3) nin loc(2) [OF queued] j by simp
        moreover have "job_id j \<notin> job_id ` set js" using js(2) nin by (auto simp: recovered_list_def)
        ultimately have "recovered_list (set (p # ps)) (j # js) w'"
          using js(2) queued p by (auto simp: recovered_list_def)
        then show ?thesis using js(1) q1 queued kept by auto
      qed
    qed
  qed
qed

lemma recover_jobs_list:
  assumes "recover_jobs w = (Inr js, w')" and "wf_files w" and "jobs_keyed w"
  shows "recovered_list UNIV js w'"
proof -
  obtain q w1 ps where rd: "read_jobs_dir w = (Inr ps, w1)" and run: "scan_jobs recover_step ps [] w1 = (Inr q, w')"
      and js: "js = sort_key by_creation q"
    using assms(1) by (auto simp: recover_jobs_def for_jobs_def bindE_Inr_iff)
  have ps: "ps = jobs_entries w" "w1 = advance w"
    using rd by (auto simp: read_jobs_dir_def bindE_Inr_iff jobs_entries_def)
  have "recovered_list (set ps) q w'"
    using scan_recovered [OF run] assms(2,3) by (auto simp: ps distinct_jobs_entries keyed_same [of "advance w" w])
  moreover have "mset (map job_id js) = mset (map job_id q)" by (simp add: js)
  then have "distinct (map job_id js) = distinct (map job_id q)" by (rule mset_eq_imp_distinct_iff)
  ultimately show ?thesis by (simp add: recovered_list_def js)
qed

lemma save_queues_stored:
  assumes "save_queues qs ps w = (Inr u, w')"
  shows "\<forall>p \<in> set ps. lookup (QueueFile (pc_id p)) w' = Some (Doc (DQueue (qs (pc_id p))))"
  using assms
proof (induction ps arbitrary: w w' u rule: rev_induct)
  case Nil
  then show ?case by simp
next
  case (snoc p ps)
  have split: "save_queues qs (as @ bs) v = bindE (save_queues qs as v) (\<lambda>_ w. save_queues qs bs w)" for as bs v
    by (induction as arbitrary: v) (auto simp: bindE_def split: prod.splits sum.splits)
  obtain w1 where one: "save_queues qs ps w = (Inr (), w1)"
      and last: "save_queue (pc_id p) (qs (pc_id p)) w1 = (Inr (), w')"
    using snoc.prems by (auto simp: split bindE_Inr_iff)
  have "lookup (QueueFile (pc_id p)) w' = Some (Doc (DQueue (qs (pc_id p))))" by (rule stored_queue [OF last])
  moreover have "lookup (QueueFile i) w' = lookup (QueueFile i) w1" if "i \<noteq> pc_id p" for i
    using only_files_lookup [OF save_queue_files [OF last], of "QueueFile i"] that
    by (auto simp: with_tmps_def)
  ultimately show ?case using snoc.IH [OF one] by auto metis+
qed

lemma start_worker_queue:
  assumes "start_worker x w = (wk, w')"
  shows "only_files {} w w' \<and>
     (wk_queue wk = [] \<or> lookup (QueueFile (wc_pid x)) w = Some (Doc (DQueue (wk_queue wk))))"
proof -
  obtain s w1 where s: "initial_snapshot (wc_config x) w = (s, w1)" by fastforce
  obtain q w2 where q: "load_queue (wc_pid x) w1 = (q, w2)" by fastforce
  obtain p w3 where p: "load_queue_paused (wc_pid x) w2 = (p, w3)" by fastforce
  have wk: "wk_queue wk = result_or [] q" "w' = w3"
    using assms s q p by (auto simp: start_worker_def set_snapshot_paused_def)
  have f1: "only_files {} w w1"
    using s by (auto simp: initial_snapshot_def now_def observe_value_def Let_def only_files_def split: option.splits)
  have f2: "only_files {} w1 w2" using only_files_loads(3) [of "{}" w1 "wc_pid x"] q by simp
  have f3: "only_files {} w2 w3" using only_files_loads(4) [of "{}" w2 "wc_pid x"] p by simp
  have "only_files {} w w3" by (rule only_files.trans [OF f1 only_files.trans [OF f2 f3]])
  moreover have "result_or [] q = [] \<or> lookup (QueueFile (wc_pid x)) w1 = Some (Doc (DQueue (result_or [] q)))"
    using q by (cases "lookup (QueueFile (wc_pid x)) w1")
      (auto simp: load_queue_def path_exists_def result_or_def as_queue_def sys_def
        split: sum.splits option.splits doc.splits dest!: read_json_Inr)
  ultimately show ?thesis using wk only_files_lookup [OF f1] by simp
qed

definition service_ok :: "service \<Rightarrow> world \<Rightarrow> bool" where
  "service_ok sv w =
     (jobs_keyed w \<and> wf_files w \<and>
      (\<forall>pid x wk. sv_workers sv pid = Some (x, wk) \<longrightarrow> wc_pid x = pid \<and> sound_queue pid wk w))"

text \<open>The threads found in a table have queues that are empty or the stored ones.\<close>

definition stored_or_empty :: "(string \<Rightarrow> (worker_context \<times> worker) option) \<Rightarrow> world \<Rightarrow> bool" where
  "stored_or_empty ws w =
     (\<forall>pid x wk. ws pid = Some (x, wk) \<longrightarrow> wc_pid x = pid \<and>
        (wk_queue wk = [] \<or> lookup (QueueFile pid) w = Some (Doc (DQueue (wk_queue wk)))))"

lemma spawn_all_queues:
  assumes "spawn_all mk ps ws w = (ws', w')" and "\<And>p. wc_pid (mk p) = pc_id p" and "stored_or_empty ws w"
  shows "only_files {} w w' \<and> stored_or_empty ws' w' \<and>
     dom ws' = dom ws \<union> pc_id ` set ps"
  using assms(1,3)
proof (induction ps arbitrary: ws w)
  case Nil
  then show ?case by (simp add: only_files.refl)
next
  case (Cons p ps)
  obtain wk w1 where st: "start_worker (mk p) w = (wk, w1)" by fastforce
  note one = start_worker_queue [OF st]
  have same: "lookup q w1 = lookup q w" for q using one only_files_lookup by blast
  have "stored_or_empty (ws(pc_id p \<mapsto> (mk p, wk))) w1"
    using Cons.prems(2) one by (auto simp: stored_or_empty_def same assms(2))
  moreover have "spawn_all mk ps (ws(pc_id p \<mapsto> (mk p, wk))) w1 = (ws', w')"
    using Cons.prems(1) st by simp
  ultimately have rest: "only_files {} w1 w' \<and> stored_or_empty ws' w' \<and>
      dom ws' = dom (ws(pc_id p \<mapsto> (mk p, wk))) \<union> pc_id ` set ps"
    by (rule Cons.IH [rotated])
  have "only_files {} w w'" using one rest by (blast intro: only_files.trans)
  moreover have "dom ws' = dom ws \<union> pc_id ` set (p # ps)" using rest by (simp only: dom_fun_upd) auto
  ultimately show ?case using rest by blast
qed

lemma wc_pid_context [simp]: "wc_pid (context_for pf c p) = pc_id p"
  by (simp add: context_for_def)

text \<open>A table of recovered jobs makes sound queues.\<close>

lemma recovered_queue_sound:
  assumes "recovered_list UNIV js v" and "jobs_of w = jobs_of v" and "jobs_keyed w"
    and "wk_queue wk = [] \<or> wk_queue wk = queue_table js pid"
  shows "sound_queue pid wk w"
proof -
  have "distinct (map job_id (filter (\<lambda>j. job_printer_id j = pid) js))"
    using assms(1) by (simp add: recovered_list_def distinct_map_filter)
  moreover have "waits pid w (job_id j)" if "j \<in> set js" "job_printer_id j = pid" for j
    using assms(1,2) that by (auto simp: recovered_list_def waits_def is_queued_def)
  ultimately show ?thesis using assms(3,4) by (auto simp: sound_queue_def queue_table)
qed

lemma start_service_grows: "grows w (snd (start_service pf boot locked c w))"
proof -
  have spawn: "grows v v'" if "spawn_all (context_for pf d) ps Map.empty v = (ws, v')" for d ps ws v v'
    using spawn_all_queues [OF that] by (auto simp: stored_or_empty_def intro: grows_files)
  show ?thesis
    unfolding start_service_def
    by (intro grows.bindE_respects grows_ensure grows_open grows_printers grows_boot grows_recover
        grows_save_queues) (auto split: prod.split dest: spawn)
qed

lemma start_service_ok:
  assumes "start_service pf boot locked c w = (Inr sv, w')" and "wf_files w" and "jobs_keyed w"
  shows "service_ok sv w'"
proof -
  obtain d w1 ps w2 w3 w4 js w5 w6 ws where
    ids: "ensure_agent_id c w = (Inr d, w1)" and lock: "open_exclusive locked w1 = (Inr (), w2)"
    and ps: "stored_printers d w2 = (Inr ps, w3)" and boot: "apply_boot_accounting d boot w3 = (Inr (), w4)"
    and rec: "recover_jobs w4 = (Inr js, w5)" and sq: "save_queues (queue_table js) ps w5 = (Inr (), w6)"
    and sp: "spawn_all (context_for pf d) (filter pc_enabled ps) Map.empty w6 = (ws, w')"
    and sv: "sv = \<lparr>sv_config = d, sv_printers = ps, sv_workers = ws\<rparr>"
  proof -
    obtain d w1 ps w2 w3 w4 js w5 w6 where steps: "ensure_agent_id c w = (Inr d, w1)"
        "open_exclusive locked w1 = (Inr (), w2)" "stored_printers d w2 = (Inr ps, w3)"
        "apply_boot_accounting d boot w3 = (Inr (), w4)" "recover_jobs w4 = (Inr js, w5)"
        "save_queues (queue_table js) ps w5 = (Inr (), w6)"
      and fin: "(case spawn_all (context_for pf d) (filter pc_enabled ps) Map.empty w6 of
        (ws, w) \<Rightarrow> (Inr \<lparr>sv_config = d, sv_printers = ps, sv_workers = ws\<rparr>, w)) = (Inr sv :: string + service, w')"
      using assms(1) unfolding start_service_def bindE_Inr_iff prod.inject
      by (elim exE conjE) (rule that, (assumption | (simp; fail))+)
    obtain ws v where sp: "spawn_all (context_for pf d) (filter pc_enabled ps) Map.empty w6 = (ws, v)"
      by fastforce
    from that [OF steps] sp fin show thesis by auto
  qed
  have g4: "grows w w4"
    using grows_ensure [of w c] grows_open [of w1 locked] grows_printers [of w2 d] grows_boot [of w3 d boot]
      ids lock ps boot by (auto intro: grows.trans)
  have w4: "wf_files w4" "jobs_keyed w4"
    by (rule grows_wf [OF g4 assms(2)], rule grows_keyed [OF g4 assms(3)])
  have js: "recovered_list UNIV js w5" by (rule recover_jobs_list [OF rec w4])
  have g5: "grows w4 w5" using grows_recover [of w4] rec by simp
  have g6: "grows w5 w6" using grows_save_queues [of w5 "queue_table js" ps] sq by simp
  have j6: "jobs_of w6 = jobs_of w5"
  proof -
    have "only_files {p. \<exists>i. p \<in> with_tmps (QueueFile i)} v (snd (save_queues qs qs' v))" for qs qs' v
      by (induction qs' arbitrary: v)
         (auto simp: only_files.refl intro!: only_files.bindE_respects only_files_mono [OF queues.save_only])
    then have "only_files {p. \<exists>i. p \<in> with_tmps (QueueFile i)} w5 w6" using sq by (metis snd_conv)
    then show ?thesis by (rule only_files_jobs) (auto simp: no_job_file_def with_tmps_def)
  qed
  note spawned = spawn_all_queues [OF sp wc_pid_context]
  have "stored_or_empty Map.empty w6" by (simp add: stored_or_empty_def)
  with spawned have f: "only_files {} w6 w'" "stored_or_empty ws w'"
      "dom ws = pc_id ` set (filter pc_enabled ps)" by auto
  have j: "jobs_of w' = jobs_of w5" using only_files_none_jobs [OF f(1)] j6 by simp
  have g': "grows w w'" using g4 g5 g6 grows_files [OF f(1)] by (auto intro: grows.trans)
  have keyed: "jobs_keyed w'" by (rule grows_keyed [OF g' assms(3)])
  have "wc_pid x = pid \<and> sound_queue pid wk w'" if wk: "ws pid = Some (x, wk)" for pid x wk
  proof -
    have "pid \<in> pc_id ` set ps" using f(3) wk by auto
    then have "lookup (QueueFile pid) w' = Some (Doc (DQueue (queue_table js pid)))"
      using save_queues_stored [OF sq] only_files_lookup [OF f(1), of "QueueFile pid"] by auto
    moreover have "wc_pid x = pid \<and>
        (wk_queue wk = [] \<or> lookup (QueueFile pid) w' = Some (Doc (DQueue (wk_queue wk))))"
      using f(2) wk unfolding stored_or_empty_def by blast
    ultimately have "wc_pid x = pid" "wk_queue wk = [] \<or> wk_queue wk = queue_table js pid" by auto
    with recovered_queue_sound [OF js j keyed] show ?thesis by simp
  qed
  then show ?thesis using keyed grows_wf [OF g' assms(2)] by (simp add: service_ok_def sv)
qed

end
