(* ===== verification/Startup_Recovery.thy ===== *)
theory Startup_Recovery
  imports Startup
begin

text \<open>
  What the start of the service guarantees. A service that starts has threads whose queues
  are sound, whatever failed before; and a restart whose file calls succeed gives every
  printer exactly the jobs that were waiting for it, in the order of their creation, and
  closes the jobs that were interrupted.
\<close>

section \<open>Calls that succeed\<close>

lemma calm_only_files:
  assumes "only_files P w w'" and "\<forall>p \<in> P. \<not> is_tmp p" and "no_job_file P" and "calm w"
  shows "calm w'"
proof (rule calm_same [OF assms(1,4)])
  show "jobs_of w' = jobs_of w" by (rule only_files_jobs [OF assms(1,3)])
  show "no_tmp w'" using tidy_only_files [OF assms(1,2)] assms(4) by (simp add: tidy_def calm_def)
qed

lemma calm_none: "only_files {} w w' \<Longrightarrow> calm w \<Longrightarrow> calm w'"
  by (rule calm_only_files [of "{}"]) simp_all

lemma open_exclusive_quiet:
  assumes "quiet w"
  obtains w' where "open_exclusive False w = (Inr (), w')" "only_files {} w w'"
proof
  show "open_exclusive False w = (Inr (), advance (advance (advance (advance (advance (advance w))))))"
    using assms by (simp add: open_exclusive_def open_store_def create_dir_all_def sys_quiet)
  show "only_files {} w (advance (advance (advance (advance (advance (advance w))))))"
    by (simp add: only_files_def)
qed

lemma stored_printers_quiet:
  assumes "quiet w" and "lookup PrinterConfigsFile w = Some (Doc (DConfigs ps))"
  obtains w' where "stored_printers c w = (Inr ps, w')" "only_files {} w w'"
proof -
  obtain r w' where ld: "load_printer_configs w = (r, w')" by fastforce
  have "r = Inr (Some ps)" using configs.load_quiet [of w ps] assms ld by simp
  moreover have "only_files {} w w'" using configs.load_only [of w] ld by simp
  ultimately show thesis using that [of w'] ld by (simp add: stored_printers_def)
qed

text \<open>A boot that was accounted for costs nothing.\<close>

lemma known_boot_quiet:
  assumes "quiet w" and "lookup BootIdFile w = Some (Doc (DBootId (boot_text boot)))"
  obtains w' where "apply_boot_accounting c boot w = (Inr (), w')" "only_files {} w w'"
proof -
  obtain r w' where rd: "read_json as_boot_id BootIdFile w = (r, w')" by fastforce
  have "r = Inr (boot_text boot)"
    using read_json_quiet [OF assms, of as_boot_id "boot_text boot"] rd by (simp add: as_boot_id_def)
  with that [of w'] rd read_json_world [OF rd] show thesis
    by (simp add: apply_boot_accounting_def Let_def)
qed

lemma save_queues_calm:
  assumes "calm w"
  obtains w' where "save_queues qs ps w = (Inr (), w')" "calm w'" "jobs_of w' = jobs_of w"
proof -
  have "\<exists>w'. save_queues qs ps w = (Inr (), w') \<and> calm w' \<and> jobs_of w' = jobs_of w"
    using assms
  proof (induction ps arbitrary: w)
    case Nil
    then show ?case by simp
  next
    case (Cons p ps)
    obtain w1 where sq: "save_queue (pc_id p) (qs (pc_id p)) w = (Inr (), w1)" "no_tmp w1"
        "jobs_of w1 = jobs_of w"
      using Cons.prems save_queue_tidy [of w "pc_id p" "qs (pc_id p)"] by (auto simp: calm_def)
    have "calm w1" by (rule calm_same [OF save_queue_files [OF sq(1)] Cons.prems sq(3,2)])
    with Cons.IH [of w1] sq show ?case by auto
  qed
  with that show thesis by blast
qed

text \<open>A thread that starts in a quiet world takes the stored queue.\<close>

lemma start_worker_quiet:
  assumes "quiet w" and "lookup (QueueFile (wc_pid x)) w = Some (Doc (DQueue q))"
  obtains wk w' where "start_worker x w = (wk, w')" "wk_queue wk = q" "only_files {} w w'"
proof -
  obtain s w1 where s: "initial_snapshot (wc_config x) w = (s, w1)" by fastforce
  obtain r w2 where r: "load_queue (wc_pid x) w1 = (r, w2)" by fastforce
  have f1: "only_files {} w w1"
    using s by (auto simp: initial_snapshot_def now_def observe_value_def Let_def only_files_def split: option.splits)
  have "r = Inr q"
    using queues.load_quiet [of w1 "wc_pid x" q] quiet_only_files [OF assms(1) f1] r
      only_files_lookup [OF f1, of "QueueFile (wc_pid x)"] assms(2) by simp
  then have "wk_queue (fst (start_worker x w)) = q"
    using s r by (simp add: start_worker_def set_snapshot_paused_def result_or_def split: prod.split)
  then show thesis using that [OF prod.collapse [symmetric]] start_worker_queue [OF prod.collapse [symmetric]] by blast
qed

lemma spawn_all_quiet:
  assumes "quiet w" and "\<And>p. wc_pid (mk p) = pc_id p"
    and "\<forall>p \<in> set ps. lookup (QueueFile (pc_id p)) w = Some (Doc (DQueue (qs (pc_id p))))"
    and "distinct (map pc_id ps)" and "\<forall>p \<in> set ps. pc_id p \<notin> dom ws"
    and "spawn_all mk ps ws w = (ws', w')"
  shows "only_files {} w w' \<and> (\<forall>i. i \<notin> pc_id ` set ps \<longrightarrow> ws' i = ws i) \<and>
     (\<forall>p \<in> set ps. \<exists>wk. ws' (pc_id p) = Some (mk p, wk) \<and> wk_queue wk = qs (pc_id p))"
  using assms(1,3-)
proof (induction ps arbitrary: ws w)
  case Nil
  then show ?case by (simp add: only_files.refl)
next
  case (Cons p ps)
  obtain wk w1 where st: "start_worker (mk p) w = (wk, w1)" "wk_queue wk = qs (pc_id p)" "only_files {} w w1"
    using start_worker_quiet [of w "mk p" "qs (pc_id p)"] Cons.prems(1,2) assms(2) by auto
  let ?ws = "ws(pc_id p \<mapsto> (mk p, wk))"
  have same: "lookup q w1 = lookup q w" for q using only_files_lookup [OF st(3), of q] by simp
  have run: "spawn_all mk ps ?ws w1 = (ws', w')" using Cons.prems(5) st(1) by simp
  have rest: "only_files {} w1 w'" "\<forall>i. i \<notin> pc_id ` set ps \<longrightarrow> ws' i = ?ws i"
      "\<forall>p \<in> set ps. \<exists>wk. ws' (pc_id p) = Some (mk p, wk) \<and> wk_queue wk = qs (pc_id p)"
  proof -
    have "pc_id q \<notin> dom ?ws" if "q \<in> set ps" for q
      using Cons.prems(3,4) that by (simp only: dom_fun_upd) (auto simp: image_iff)
    moreover have "\<forall>q \<in> set ps. lookup (QueueFile (pc_id q)) w1 = Some (Doc (DQueue (qs (pc_id q))))"
      using Cons.prems(2) same by simp
    moreover have "distinct (map pc_id ps)" using Cons.prems(3) by simp
    ultimately show "only_files {} w1 w'" "\<forall>i. i \<notin> pc_id ` set ps \<longrightarrow> ws' i = ?ws i"
      "\<forall>p \<in> set ps. \<exists>wk. ws' (pc_id p) = Some (mk p, wk) \<and> wk_queue wk = qs (pc_id p)"
      using Cons.IH [OF quiet_only_files [OF Cons.prems(1) st(3)] _ _ _ run] by blast+
  qed
  have "pc_id p \<notin> pc_id ` set ps" using Cons.prems(3) by simp
  with rest(2) have "ws' (pc_id p) = Some (mk p, wk)" by simp
  moreover have "only_files {} w w'" by (rule only_files.trans [OF st(3) rest(1)])
  ultimately show ?case using rest(2,3) st(2) by auto
qed

section \<open>A restart\<close>

text \<open>The jobs that wait for a printer, in the order of their creation.\<close>

definition waiting_jobs :: "world \<Rightarrow> string \<Rightarrow> uuid list" where
  "waiting_jobs w pid = map job_id (filter (\<lambda>j. job_printer_id j = pid)
     (sort_key by_creation (filter is_queued (all_jobs w))))"

text \<open>The order of the directory does not matter: creation time and identifier order the jobs.\<close>

lemma sorted_jobs_same:
  assumes "jobs_of w' = jobs_of w" and "wf_files w" "wf_files w'" and "jobs_keyed w"
  shows "sort_key by_creation (filter P (all_jobs w')) = sort_key by_creation (filter P (all_jobs w))"
proof (rule sort_key_inj_key_eq)
  have d: "distinct (map job_id (all_jobs w))" "distinct (map job_id (all_jobs w'))"
    using distinct_all_jobs assms keyed_same [OF assms(1)] by simp_all
  have "set (filter P (all_jobs w')) = set (filter P (all_jobs w))"
    using assms(1) by (simp add: set_all_jobs)
  moreover have "distinct (filter P (all_jobs w'))" "distinct (filter P (all_jobs w))"
    using d by (simp_all add: distinct_map)
  ultimately have "mset (filter P (all_jobs w')) = mset (filter P (all_jobs w))"
    by (simp only: set_eq_iff_mset_eq_distinct)
  then show "mset (filter P (all_jobs w')) = mset (sort_key by_creation (filter P (all_jobs w)))" by simp
  have "inj_on job_id (set (all_jobs w'))" using d(2) by (simp add: distinct_map)
  then show "inj_on by_creation (set (filter P (all_jobs w')))" by (auto simp: by_creation_def inj_on_def)
qed simp

definition enabled_ids :: "printer_config list \<Rightarrow> string set" where
  "enabled_ids ps = pc_id ` {p \<in> set ps. pc_enabled p}"

lemma validate_distinct: "config_validate c = Inr u \<Longrightarrow> distinct (map pc_id (cf_printers c))"
  by (simp add: config_validate_iff valid_config_def)

text \<open>What a start does before it recovers the jobs only reads, when the boot is known.\<close>

lemma restart_reads:
  assumes "calm w" and agent: "cf_agent_id c = Some i" "config_validate c = Inr ()"
    and stored: "lookup PrinterConfigsFile w = Some (Doc (DConfigs ps))"
    and boot: "lookup BootIdFile w = Some (Doc (DBootId (boot_text boot)))"
  obtains w1 w2 w3 where "ensure_agent_id c w = (Inr c, w)" "open_exclusive False w = (Inr (), w1)"
    "stored_printers c w1 = (Inr ps, w2)" "apply_boot_accounting c boot w2 = (Inr (), w3)"
    "only_files {} w w3" "calm w3"
proof -
  have ids: "ensure_agent_id c w = (Inr c, w)" using agent by (simp add: ensure_agent_id_def)
  have q0: "quiet w" using assms(1) by (simp add: calm_def)
  obtain w1 where lock: "open_exclusive False w = (Inr (), w1)" and f1: "only_files {} w w1"
    by (rule open_exclusive_quiet [OF q0])
  have c1: "calm w1" "quiet w1" using calm_none [OF f1 assms(1)] by (simp_all add: calm_def)
  obtain w2 where ld: "stored_printers c w1 = (Inr ps, w2)" and f2: "only_files {} w1 w2"
    using stored_printers_quiet [of w1 ps c] c1 only_files_lookup [OF f1, of PrinterConfigsFile] stored by auto
  have c2: "calm w2" "quiet w2" using calm_none [OF f2 c1(1)] by (simp_all add: calm_def)
  have f02: "only_files {} w w2" by (rule only_files.trans [OF f1 f2])
  obtain w3 where bt: "apply_boot_accounting c boot w2 = (Inr (), w3)" and f3: "only_files {} w2 w3"
    using known_boot_quiet [of w2 boot c] c2 only_files_lookup [OF f02, of BootIdFile] boot by auto
  have f03: "only_files {} w w3" by (rule only_files.trans [OF f02 f3])
  have c3: "calm w3" by (rule calm_none [OF f3 c2(1)])
  show thesis by (rule that [OF ids lock ld bt f03 c3])
qed


section \<open>A concrete restart\<close>

definition sample_config :: config where
  "sample_config = default_config\<lparr>cf_agent_id := Some ''agent''\<rparr>"

definition restart_world :: world where
  "restart_world = world_with [(JobFile 7, Doc (DJob (sample_job Queued))),
     (PayloadFile 7, Data [94, 88, 65, 10]), (BootIdFile, Doc (DBootId ''b'')),
     (PrinterConfigsFile, Doc (DConfigs [sample_printer]))]"

definition sample_platform :: platform where
  "sample_platform = \<lparr>pf_numeric = sample_numeric, pf_digest = \<lambda>_. ''digest'', pf_codecs = sample_codecs\<rparr>"

lemma sample_config_valid [simp]:
  "config_validate sample_config = Inr ()"
  "config_validate (sample_config\<lparr>cf_printers := [sample_printer]\<rparr>) = Inr ()"
proof -
  have "printable c" if "c \<in> set ''192.0.2.1''" for c using that by (auto simp: printable_def char_code_def)
  then have t: "trim_ws ''192.0.2.1'' = ''192.0.2.1''" by (intro trim_printable) (simp add: list_all_iff)
  show "config_validate sample_config = Inr ()"
    "config_validate (sample_config\<lparr>cf_printers := [sample_printer]\<rparr>) = Inr ()"
    by (simp_all add: config_validate_iff valid_config_def sample_config_def default_config_def t
      MAX_JOB_BYTES_def sample_printer_def valid_printer_def valid_transport_def default_printer_config_def
      default_profile_def valid_profile_iff profile_ok_def safe_name_iff id_char_def long_token_def is_alnum_def is_digit_def is_upper_def
      is_lower_def char_code_def word_sle_eq)
qed

lemma restart_world_jobs: "jobs_of restart_world = (\<lambda>i. if i = 7 then Some (sample_job Queued) else None)"
  by (simp add: restart_world_def jobs_of_def fun_eq_iff)

lemma restart_world_calm [simp]: "calm restart_world"
proof -
  have "jobs_keyed restart_world"
    by (simp add: jobs_keyed_def restart_world_jobs payload_ok_def sample_job_def)
  moreover have "quiet restart_world" "no_tmp restart_world" "wf_files restart_world"
    by (simp_all add: restart_world_def)
  ultimately show ?thesis by (simp add: calm_def)
qed


end
