(* ===== verification/Submission.thy ===== *)
theory Submission
  imports Startup_Recovery
begin

text \<open>
  The submission of jobs over HTTP (\<open>create_job\<close> and \<open>v2_create_job\<close> of \<open>src/api.rs\<close>): the
  upload of a payload, its conversion, the idempotency key, the limit of active jobs, and
  the hand-over to the thread of the printer. The hand-over itself is a parameter of the
  two handlers; \<open>System\<close> puts the thread in its place.
\<close>

section \<open>Errors of the two API versions\<close>

definition api_not_found :: "string \<Rightarrow> api_error" where "api_not_found m = api_error_new 404 ''not_found'' m"
definition api_bad_request :: "string \<Rightarrow> api_error" where "api_bad_request m = api_error_new 400 ''bad_request'' m"
definition api_unavailable :: "string \<Rightarrow> api_error" where "api_unavailable m = api_error_new 503 ''unavailable'' m"
definition api_conflict :: "string \<Rightarrow> api_error" where "api_conflict m = api_error_new 409 ''conflict'' m"
definition api_internal :: "string \<Rightarrow> api_error" where "api_internal e = api_error_new 500 ''internal'' e"
definition api_io :: "string \<Rightarrow> api_error" where "api_io e = api_internal e"

definition v2_bad_request :: "string \<Rightarrow> api_error" where "v2_bad_request m = api_error_new 400 ''invalid_request'' m"
definition v2_not_found :: "string \<Rightarrow> api_error" where "v2_not_found m = api_error_new 404 ''not_found'' m"
definition v2_internal :: "string \<Rightarrow> api_error" where "v2_internal e = api_error_new 500 ''internal_error'' e"

definition queue_full :: api_error where
  "queue_full = api_error_new 429 ''queue_full'' ''printer queue has reached its configured active-job limit''"

lemma status_simps [simp]:
  "ae_status (api_not_found m) = 404" "ae_status (api_bad_request m) = 400"
  "ae_status (api_unavailable m) = 503" "ae_status (api_conflict m) = 409"
  "ae_status (api_internal m) = 500" "ae_status (api_io m) = 500"
  "ae_status (v2_bad_request m) = 400" "ae_status (v2_not_found m) = 404"
  "ae_status (v2_internal m) = 500" "ae_status queue_full = 429"
  "ae_status (api_error_new n c m) = n"
  by (simp_all add: api_not_found_def api_bad_request_def api_unavailable_def api_conflict_def
      api_internal_def api_io_def v2_bad_request_def v2_not_found_def v2_internal_def queue_full_def
      api_error_new_def)

section \<open>Payload files\<close>

text \<open>\<open>File::create\<close>, \<open>write_all\<close>, \<open>fs::write\<close>, \<open>fs::read\<close> and opening a file for writing. A
  failing write may leave any proper beginning of its bytes.\<close>

definition create_file :: "path \<Rightarrow> world \<Rightarrow> (string + unit) \<times> world" where
  "create_file p w = bindE (sys w) (\<lambda>_ w. (Inr (), put p (Data []) w))"

definition file_bytes :: "path \<Rightarrow> world \<Rightarrow> u8 list" where
  "file_bytes p w = (case lookup p w of Some (Data bs) \<Rightarrow> bs | _ \<Rightarrow> [])"

definition write_all :: "path \<Rightarrow> u8 list \<Rightarrow> world \<Rightarrow> (string + unit) \<times> world" where
  "write_all p bs w =
     (case env_fs (w_env w) (w_tick w) of
        None \<Rightarrow> (Inr (), put p (Data (file_bytes p w @ bs)) (advance w))
      | Some (e, torn) \<Rightarrow>
          (Inl e, if torn then put p (Data (file_bytes p w @ take (env_dt (w_env w) (w_tick w) mod length bs) bs)) (advance w)
                  else advance w))"

definition fs_write :: "path \<Rightarrow> u8 list \<Rightarrow> world \<Rightarrow> (string + unit) \<times> world" where
  "fs_write p bs w = bindE (create_file p w) (\<lambda>_ w. write_all p bs w)"

definition fs_read :: "path \<Rightarrow> world \<Rightarrow> (string + u8 list) \<times> world" where
  "fs_read p w = bindE (open_file p w) (\<lambda>bs w. bindE (sys w) (\<lambda>_ w. (Inr bs, w)))"

definition open_existing :: "path \<Rightarrow> world \<Rightarrow> (string + unit) \<times> world" where
  "open_existing p w =
     bindE (sys w) (\<lambda>_ w. if lookup p w = None then (Inl ''not found'', w) else (Inr (), w))"

section \<open>Counting labels\<close>

text \<open>\<open>parse_pq\<close> reads 8 KiB at a time, looks for the first \<open>^PQ\<close> in what it holds and keeps
  the last 32 bytes. The digits are cut where the bytes read so far end.\<close>

definition first_pq :: "u8 list \<Rightarrow> u8 list option" where
  "first_pq kept =
     map_option (\<lambda>at. takeWhile is_digit_byte (drop (at + 3) kept))
       (find (\<lambda>at. take 3 (drop at kept) = bytes_of ''^PQ'') [0..<length kept - 2])"

function pq_loop :: "u8 list \<Rightarrow> u8 list \<Rightarrow> world \<Rightarrow> u64 option \<times> world" where
  "pq_loop kept rest w =
     (case sys w of
        (Inl _, w) \<Rightarrow> (None, w)
      | (Inr _, w) \<Rightarrow>
          if rest = [] then (None, w)
          else (let kept = kept @ take 8192 rest
                in case first_pq kept of
                     Some (d # ds) \<Rightarrow> (parse_word (string_of_bytes (d # ds)), w)
                   | _ \<Rightarrow> pq_loop (drop (length kept - 32) kept) (drop 8192 rest) w))"
  by pat_completeness auto
termination
  by (relation "measure (\<lambda>(kept, rest, w). length rest)") auto

declare pq_loop.simps [simp del]

definition parse_pq :: "path \<Rightarrow> world \<Rightarrow> u64 option \<times> world" where
  "parse_pq p w = (case open_file p w of (Inl _, w) \<Rightarrow> (None, w) | (Inr bs, w) \<Rightarrow> pq_loop [] bs w)"

definition label_count :: "driver_descriptor \<Rightarrow> path \<Rightarrow> u64 option \<Rightarrow> u64 option \<Rightarrow> world \<Rightarrow>
    (u64 option \<times> string option) \<times> world" where
  "label_count d p prepared header w =
     (if prepared \<noteq> None then ((prepared, Some ''raster_payload''), w)
      else if header \<noteq> None then ((header, Some ''header''), w)
      else if dd_id d = ''zpl''
      then (case parse_pq p w of (n, w) \<Rightarrow> ((n, Some ''zpl_pq_best_effort''), w))
      else ((None, None), w))"

section \<open>Version 1: the upload\<close>

definition mark_failed :: "job \<Rightarrow> string \<Rightarrow> world \<Rightarrow> world" where
  "mark_failed j e w =
     (let (t, w) = now w
      in snd (save_job (j\<lparr>job_state := Failed, job_updated_at := t, job_error := Some e\<rparr>) w))"

definition fail_receiving :: "job \<Rightarrow> string \<Rightarrow> world \<Rightarrow> api_error \<times> world" where
  "fail_receiving j e w = (api_io e, mark_failed j e w)"

text \<open>An operation whose error fails the upload.\<close>

definition or_fail :: "job \<Rightarrow> (string + 'a) \<times> world \<Rightarrow> (api_error + 'a) \<times> world" where
  "or_fail j m = (case m of
     (Inl e, w) \<Rightarrow> (case fail_receiving j e w of (err, w) \<Rightarrow> (Inl err, w))
   | (Inr x, w) \<Rightarrow> (Inr x, w))"

text \<open>The body of the request is the list of its chunks; an error ends it.\<close>

type_synonym body = "(string + u8 list) list"

fun receive_chunks :: "u64 \<Rightarrow> job \<Rightarrow> body \<Rightarrow> u8 list \<Rightarrow> u64 \<Rightarrow> world \<Rightarrow>
    (api_error + u8 list \<times> u64) \<times> world" where
  "receive_chunks mx j [] sha n w = (Inr (sha, n), w)"
| "receive_chunks mx j (Inl e # cs) sha n w = or_fail j (Inl e, w)"
| "receive_chunks mx j (Inr chunk # cs) sha n w =
     (if sat_add n (of_nat (length chunk)) > mx
      then (Inl (api_error_new 413 ''job_too_large'' (''job exceeds '' @ show_word mx @ '' bytes'')),
            remove_unregistered_job (job_id j) w)
      else bindE (or_fail j (write_all (SpoolFile (job_id j)) chunk w)) (\<lambda>_ w.
             receive_chunks mx j cs (sha @ chunk) (n + of_nat (length chunk)) w))"

definition convert_payload :: "codecs \<Rightarrow> device_profile \<Rightarrow> string \<Rightarrow> job \<Rightarrow> world \<Rightarrow>
    (api_error + u64 option \<times> job) \<times> world" where
  "convert_payload cd profile content_type j w =
     (let part = SpoolFile (job_id j) in
      if content_type = ''application/zpl'' then (Inr (None, j), w)
      else
        bindE (or_fail j (fs_read part w)) (\<lambda>source w.
        bindE (or_fail j (prepare_zebra_payload cd content_type source profile, w)) (\<lambda>prepared w.
        bindE (or_fail j (fs_write part (pp_bytes prepared) w)) (\<lambda>_ w.
        bindE (or_fail j (open_existing part w)) (\<lambda>_ w.
        bindE (or_fail j (sync_call w)) (\<lambda>_ w.
          (Inr (pp_label_count prepared, j\<lparr>job_bytes := of_nat (length (pp_bytes prepared))\<rparr>), w)))))))"

text \<open>The checks before the job exists.\<close>

definition find_worker :: "service \<Rightarrow> string \<Rightarrow> api_error + worker_context" where
  "find_worker sv pid = or_error (api_not_found ''printer_not_found'') (map_option fst (sv_workers sv pid))"

fun join_with :: "string \<Rightarrow> string list \<Rightarrow> string" where
  "join_with sep [] = []"
| "join_with sep [s] = s"
| "join_with sep (s # ss) = s @ sep @ join_with sep ss"

definition upload_checks :: "worker_context \<Rightarrow> headers \<Rightarrow> api_error + driver_descriptor \<times> string option" where
  "upload_checks x hs =
     (let content = (case header_string hs ''content-type'' of None \<Rightarrow> [] | Some v \<Rightarrow> v);
          key = header_string hs ''x-idempotency-key''
      in bindR (or_error (api_unavailable ''configured_driver_is_unknown'') (descriptor (pc_driver (wc_config x)))) (\<lambda>d.
         if \<not> dd_available d then Inl (api_unavailable ''configured_driver_is_not_available'')
         else if \<not> accepts d content
         then Inl (api_bad_request (''content type must match driver '' @ dd_id d @ ''; accepted: '' @
                join_with '', '' (dd_accepted_mime_types d)))
         else if (case key of None \<Rightarrow> False | Some v \<Rightarrow> v = [] \<or> 255 < length v)
         then Inl (api_bad_request ''x-idempotency-key must contain between 1 and 255 characters'')
         else Inr (d, key)))"

definition count_header :: "headers \<Rightarrow> u64 option" where
  "count_header hs = Option.bind (header_string hs ''x-zpl-label-count'') parse_word"

definition new_job :: "string \<Rightarrow> headers \<Rightarrow> world \<Rightarrow> job \<times> world" where
  "new_job pid hs w =
     (let (u, w) = new_uuid w; (created, w) = now w; (updated, w) = now w
      in (\<lparr>job_id = u, job_printer_id = pid, job_state = Receiving, job_created_at = created,
           job_updated_at = updated, job_label_count = count_header hs,
           job_label_count_source = map_option (\<lambda>_. ''header'') (count_header hs),
           job_origin = header_string hs ''x-zpl-origin'',
           job_description = header_string hs ''x-zpl-description'', job_idempotency_key = None,
           job_sha256 = None, job_bytes = 0, job_bytes_transferred = 0, job_delivery_attempts = 0,
           job_payload_path = None, job_error = None\<rparr>, w))"

text \<open>From the first save of the job to the renamed payload.\<close>

definition receive_payload :: "codecs \<Rightarrow> u64 \<Rightarrow> device_profile \<Rightarrow> string \<Rightarrow> job \<Rightarrow> body \<Rightarrow> world \<Rightarrow>
    (api_error + (u8 list \<times> u64) \<times> u64 option \<times> job) \<times> world" where
  "receive_payload cd mx profile content_type j body w =
     (let part = SpoolFile (job_id j); final_path = PayloadFile (job_id j) in
      bindE (mapE api_internal (save_job j w)) (\<lambda>_ w.
      bindE (or_fail j (create_file part w)) (\<lambda>_ w.
      bindE (receive_chunks mx j body (bytes_of content_type @ [0]) 0 w) (\<lambda>received w.
      bindE (or_fail j (sync_call w)) (\<lambda>_ w.
      bindE (convert_payload cd profile content_type j w) (\<lambda>(prepared, j) w.
      bindE (or_fail j (rename_file part final_path w)) (\<lambda>_ w.
      bindE (or_fail j (sync_call w)) (\<lambda>_ w.
        (Inr (received, prepared, j), w)))))))))"

definition queued_job :: "job \<Rightarrow> time \<Rightarrow> u64 option \<times> string option \<Rightarrow> string \<Rightarrow> u64 \<Rightarrow> string option \<Rightarrow> job" where
  "queued_job j t labels digest n key =
     j\<lparr>job_state := Queued, job_updated_at := t, job_label_count := fst labels,
       job_label_count_source := snd labels, job_idempotency_key := key, job_sha256 := Some digest,
       job_bytes := (if job_bytes j = 0 then n else job_bytes j),
       job_payload_path := Some (PayloadFile (job_id j))\<rparr>"

definition publish_upload :: "job \<Rightarrow> u64 \<Rightarrow> world \<Rightarrow> (api_error + bool \<times> job) \<times> world" where
  "publish_upload j n w =
     bindE (mapE api_internal (save_job j w)) (\<lambda>_ w.
     bindE (mapE api_internal (register_job (job_id j) w)) (\<lambda>_ w.
     let (e, w) = next_event ''job_queued'' (Some (job_printer_id j)) (Some (job_id j))
           (JObject [(''bytes'', JNat n)]) w
     in bindE (mapE api_internal (append_event e w)) (\<lambda>_ w. (Inr (True, j), w))))"

text \<open>Under the idempotency lock. The flag tells whether the job is new and goes to the
  thread.\<close>

definition register_upload :: "config \<Rightarrow> job \<Rightarrow> string option \<Rightarrow> u64 \<Rightarrow> world \<Rightarrow> (api_error + bool \<times> job) \<times> world" where
  "register_upload c j key n w =
     (let pid = job_printer_id j; jid = job_id j in
      bindE (case key of
               None \<Rightarrow> (Inr None, w)
             | Some k \<Rightarrow> mapE api_internal (find_job_by_idempotency_key k jid w)) (\<lambda>existing w.
        case existing of
          Some e \<Rightarrow>
            (if job_printer_id e = pid \<and> job_sha256 e = job_sha256 j then Inr (False, e)
             else Inl (api_conflict ''idempotency_key_reused_for_different_job''),
             remove_unregistered_job jid w)
        | None \<Rightarrow>
            bindE (mapE api_internal (count_active_jobs pid w)) (\<lambda>active w.
            if active > unat (cf_max_active_jobs_per_printer c)
            then (Inl queue_full, remove_unregistered_job jid w)
            else
              publish_upload j n w)))"

definition admit_upload :: "platform \<Rightarrow> service \<Rightarrow> string \<Rightarrow> headers \<Rightarrow> body \<Rightarrow> world \<Rightarrow>
    (api_error + bool \<times> job) \<times> world" where
  "admit_upload pf sv pid hs body w =
     (let content_type = mime_of (case header_string hs ''content-type'' of None \<Rightarrow> [] | Some v \<Rightarrow> v) in
      bindE (find_worker sv pid, w) (\<lambda>x w.
      bindE (upload_checks x hs, w) (\<lambda>(d, key) w.
      let (j, w) = new_job pid hs w in
      bindE (receive_payload (pf_codecs pf) (cf_max_job_bytes (sv_config sv)) (pc_device_profile (wc_config x))
               content_type j body w) (\<lambda>((sha, n), prepared, j) w.
      let (labels, w) = label_count d (PayloadFile (job_id j)) prepared (count_header hs) w;
          (t, w) = now w;
          j = queued_job j t labels (encode_hex (cd_sha256 (pf_codecs pf) sha)) n key
      in register_upload (sv_config sv) j key n w))))"

text \<open>\<open>enq\<close> is \<open>WorkerHandle::enqueue\<close>: it answers once the thread has taken the job.\<close>

definition create_job :: "(string \<Rightarrow> uuid \<Rightarrow> world \<Rightarrow> (string + unit) \<times> world) \<Rightarrow> platform \<Rightarrow> service \<Rightarrow> string \<Rightarrow>
    headers \<Rightarrow> body \<Rightarrow> world \<Rightarrow> (api_error + job) \<times> world" where
  "create_job enq pf sv pid hs body w =
     bindE (admit_upload pf sv pid hs body w) (\<lambda>(fresh, j) w.
       if \<not> fresh then (Inr j, w)
       else case enq pid (job_id j) w of
         (Inr _, w) \<Rightarrow> (Inr j, w)
       | (Inl e, w) \<Rightarrow>
           bindE (mapE api_internal (save_job (j\<lparr>job_state := Failed, job_error := Some e\<rparr>) w)) (\<lambda>_ w.
             (Inl (api_unavailable e), w)))"

section \<open>Version 2: artifacts\<close>

definition persist_v2_payload :: "path \<Rightarrow> path \<Rightarrow> u8 list \<Rightarrow> world \<Rightarrow> (string + unit) \<times> world" where
  "persist_v2_payload part final_path bs w =
     bindE (create_file part w) (\<lambda>_ w.
     bindE (write_all part bs w) (\<lambda>_ w.
     bindE (sync_call w) (\<lambda>_ w.
     bindE (rename_file part final_path w) (\<lambda>_ w.
       sync_call w))))"

definition revision_changed :: "platform \<Rightarrow> string \<Rightarrow> string option \<Rightarrow> world \<Rightarrow> (api_error + bool) \<times> world" where
  "revision_changed pf pid expected w =
     (case expected of
        None \<Rightarrow> (Inr False, w)
      | Some r \<Rightarrow>
          bindE (mapE v2_internal (load_media pid w)) (\<lambda>m w.
            (Inr (map_option (media_revision (pf_digest pf)) m \<noteq> Some r), w)))"

definition new_v2_job :: "string \<Rightarrow> submit_job \<Rightarrow> prepared_job \<Rightarrow> world \<Rightarrow> job \<times> world" where
  "new_v2_job pid r p w =
     (let (u, w) = new_uuid w; (created, w) = now w; (updated, w) = now w
      in (\<lparr>job_id = u, job_printer_id = pid, job_state = Receiving, job_created_at = created,
           job_updated_at = updated, job_label_count = Some (pj_label_count p),
           job_label_count_source = Some ''v2_artifacts_and_copies'',
           job_origin = Some ''print-service-v2'', job_description = sj_description r,
           job_idempotency_key = Some (sj_idempotency_key r), job_sha256 = Some (pj_request_hash p),
           job_bytes = of_nat (length (pj_bytes p)), job_bytes_transferred = 0,
           job_delivery_attempts = 0, job_payload_path = None, job_error = None\<rparr>, w))"

text \<open>The job is stored, its payload written, and it is queued, or held when the media has
  changed. The flag tells whether it goes to the thread.\<close>

definition publish_v2_job :: "bool \<Rightarrow> job \<Rightarrow> world \<Rightarrow> (api_error + bool \<times> job) \<times> world" where
  "publish_v2_job held j w =
     bindE (mapE v2_internal (save_job j w)) (\<lambda>_ w.
     bindE (mapE v2_internal (register_job (job_id j) w)) (\<lambda>_ w.
     let (e, w) = next_event (if held then ''job_held'' else ''job_queued'')
           (Some (job_printer_id j)) (Some (job_id j))
           (JObject [(''protocol'', JString ''v2''), (''bytes'', JNat (job_bytes j)),
             (''reason'', if held then JString ''media_revision_changed'' else JNull)]) w
     in bindE (mapE v2_internal (append_event e w)) (\<lambda>_ w.
        if held
        then (let j = j\<lparr>job_error := Some ''media_revision_changed''\<rparr>
              in bindE (mapE v2_internal (save_job j w)) (\<lambda>_ w. (Inr (False, j), w)))
        else (Inr (True, j), w))))"

definition stored_v2_job :: "bool \<Rightarrow> job \<Rightarrow> time \<Rightarrow> job" where
  "stored_v2_job held j t =
     j\<lparr>job_state := (if held then Held else Queued), job_updated_at := t,
       job_payload_path := Some (PayloadFile (job_id j))\<rparr>"

definition store_v2_job :: "bool \<Rightarrow> job \<Rightarrow> u8 list \<Rightarrow> world \<Rightarrow> (api_error + bool \<times> job) \<times> world" where
  "store_v2_job held j bs w =
     bindE (mapE v2_internal (save_job j w)) (\<lambda>_ w.
       case persist_v2_payload (SpoolFile (job_id j)) (PayloadFile (job_id j)) bs w of
         (Inl e, w) \<Rightarrow> (Inl (v2_internal e), mark_failed j e w)
       | (Inr _, w) \<Rightarrow> (let (t, w) = now w in publish_v2_job held (stored_v2_job held j t) w))"

definition v2_find_worker :: "service \<Rightarrow> string \<Rightarrow> api_error + worker_context" where
  "v2_find_worker sv pid = or_error (v2_not_found ''printer_not_found'') (map_option fst (sv_workers sv pid))"

definition admit_v2 :: "platform \<Rightarrow> service \<Rightarrow> string \<Rightarrow> headers \<Rightarrow> submit_job \<Rightarrow> world \<Rightarrow>
    (api_error + bool \<times> job) \<times> world" where
  "admit_v2 pf sv pid hs r w =
     bindE (v2_authorize (sv_config sv) hs PrintScope, w) (\<lambda>_ w.
     bindE (v2_find_worker sv pid, w) (\<lambda>x w.
     bindE (revision_changed pf pid (sj_media_revision r) w) (\<lambda>held w.
     bindE (map_sum v2_bad_request id
              (prepare_job (pf_codecs pf) pid r (pc_device_profile (wc_config x))), w) (\<lambda>p w.
     bindE (mapE v2_internal (find_job_by_idempotency_key_any (sj_idempotency_key r) w)) (\<lambda>existing w.
       case existing of
         Some e \<Rightarrow>
           (if job_printer_id e = pid \<and> job_sha256 e = Some (pj_request_hash p) then Inr (False, e)
            else Inl (api_error_new 409 ''idempotency_conflict''
                   ''The idempotency key already identifies a different job''), w)
       | None \<Rightarrow>
           bindE (mapE v2_internal (count_active_jobs pid w)) (\<lambda>active w.
           if active \<ge> unat (cf_max_active_jobs_per_printer (sv_config sv)) then (Inl queue_full, w)
           else (let (j, w) = new_v2_job pid r p w in store_v2_job held j (pj_bytes p) w)))))))"

text \<open>The JSON object the service shows for a job.\<close>

record v2_job =
  vj_id :: uuid
  vj_printer_id :: string
  vj_state :: string
  vj_created_at :: time
  vj_updated_at :: time
  vj_label_count :: "u64 option"
  vj_idempotency_key :: "string option"
  vj_request_sha256 :: "string option"
  vj_device_payload_bytes :: u64
  vj_bytes_transferred :: u64
  vj_delivery_attempts :: u32
  vj_error :: "string option"

fun v2_state :: "jstate \<Rightarrow> string" where
  "v2_state Receiving = ''receiving''"
| "v2_state Queued = ''queued''"
| "v2_state Writing = ''transmitting''"
| "v2_state Verifying = ''transmitting''"
| "v2_state TransportAccepted = ''transport_accepted''"
| "v2_state CompletedObserved = ''completed_observed''"
| "v2_state Held = ''held''"
| "v2_state Cancelled = ''cancelled''"
| "v2_state Failed = ''failed''"
| "v2_state OutcomeUnknown = ''outcome_unknown''"

definition v2_job_value :: "job \<Rightarrow> v2_job" where
  "v2_job_value j = \<lparr>vj_id = job_id j, vj_printer_id = job_printer_id j, vj_state = v2_state (job_state j),
     vj_created_at = job_created_at j, vj_updated_at = job_updated_at j,
     vj_label_count = job_label_count j, vj_idempotency_key = job_idempotency_key j,
     vj_request_sha256 = job_sha256 j, vj_device_payload_bytes = job_bytes j,
     vj_bytes_transferred = job_bytes_transferred j, vj_delivery_attempts = job_delivery_attempts j,
     vj_error = job_error j\<rparr>"

definition v2_create_job :: "(string \<Rightarrow> uuid \<Rightarrow> world \<Rightarrow> (string + unit) \<times> world) \<Rightarrow> platform \<Rightarrow> service \<Rightarrow> string \<Rightarrow>
    headers \<Rightarrow> submit_job \<Rightarrow> world \<Rightarrow> (api_error + v2_job) \<times> world" where
  "v2_create_job enq pf sv pid hs r w =
     bindE (admit_v2 pf sv pid hs r w) (\<lambda>(fresh, j) w.
       if \<not> fresh then (Inr (v2_job_value j), w)
       else case enq pid (job_id j) w of
         (Inr _, w) \<Rightarrow> (Inr (v2_job_value j), w)
       | (Inl e, w) \<Rightarrow>
           (let (t, w) = now w
            in bindE (mapE v2_internal (save_job (j\<lparr>job_state := Failed, job_updated_at := t,
                 job_error := Some e\<rparr>) w)) (\<lambda>_ w.
                 (Inl (api_error_new 503 ''queue_unavailable'' e), w))))"

end
