(* ===== verification/Submission_Props.thy ===== *)
theory Submission_Props
  imports Submission
begin

text \<open>
  What a submission does to the data directory. It works on the files of one new job only;
  a job that is admitted is stored as queued with exactly the payload that was uploaded;
  a submission that is refused leaves nothing behind that would be printed.
\<close>

section \<open>The files of a submission\<close>

definition upload_paths :: "uuid \<Rightarrow> path set" where
  "upload_paths jid = with_tmps (JobFile jid) \<union> {SpoolFile jid, PayloadFile jid, JobIndex, EventLog}"

definition own :: "uuid \<Rightarrow> string \<Rightarrow> job \<Rightarrow> bool" where
  "own jid pid j = (job_id j = jid \<and> job_printer_id j = pid \<and> payload_ok j)"

text \<open>Only the files of the job change, and the stored job stays of the kind \<open>P\<close>.\<close>

definition submits :: "uuid \<Rightarrow> (job \<Rightarrow> bool) \<Rightarrow> world \<Rightarrow> world \<Rightarrow> bool" where
  "submits jid P w w' =
     (only_files (upload_paths jid) w w' \<and>
      ((\<forall>j. jobs_of w jid = Some j \<longrightarrow> P j) \<longrightarrow> (\<forall>j. jobs_of w' jid = Some j \<longrightarrow> P j)))"

interpretation submits: respected "submits jid P"
proof
  fix w1 w2 w3
  show "submits jid P w1 w1" by (simp add: submits_def only_files.refl)
  assume "submits jid P w1 w2" "submits jid P w2 w3"
  then show "submits jid P w1 w3"
    using only_files.trans [of "upload_paths jid" w1 w2 w3] unfolding submits_def by blast
qed

lemma own_simps [simp]:
  "own jid pid (j\<lparr>job_state := s\<rparr>) = own jid pid j" "own jid pid (j\<lparr>job_updated_at := t\<rparr>) = own jid pid j"
  "own jid pid (j\<lparr>job_error := e\<rparr>) = own jid pid j" "own jid pid (j\<lparr>job_bytes := n\<rparr>) = own jid pid j"
  "own jid pid (j\<lparr>job_label_count := c\<rparr>) = own jid pid j"
  "own jid pid (j\<lparr>job_label_count_source := s'\<rparr>) = own jid pid j"
  "own jid pid (j\<lparr>job_sha256 := d\<rparr>) = own jid pid j" "own jid pid (j\<lparr>job_idempotency_key := k\<rparr>) = own jid pid j"
  by (simp_all add: own_def payload_ok_def)

lemma own_payload [simp]: "own jid pid j \<Longrightarrow> own jid pid (j\<lparr>job_payload_path := Some (PayloadFile jid)\<rparr>)"
  by (simp add: own_def payload_ok_def)

lemma own_id: "own jid pid j \<Longrightarrow> job_id j = jid"
  by (simp add: own_def)

lemma submits_files:
  assumes "only_files Q w w'" and "Q \<subseteq> upload_paths jid" and "no_job_file Q"
  shows "submits jid P w w'"
  using only_files_mono [OF assms(1,2)] only_files_jobs [OF assms(1,3)] by (simp add: submits_def)

lemma submits_none: "only_files {} w w' \<Longrightarrow> submits jid P w w'"
  by (rule submits_files [of "{}"]) simp_all

lemma submits_advance [simp]: "submits jid P w (advance w)" "submits jid P w w"
  by (simp_all add: submits_none submits.refl)

lemma submits_save:
  assumes "P j" and "job_id j = jid"
  shows "submits jid P w (snd (save_job j w))"
proof -
  have id: "job_id j = jid" by (rule assms(2))
  have "only_files (upload_paths jid) w (snd (save_job j w))"
    using id by (intro only_files_mono [OF only_files_save_job]) (auto simp: upload_paths_def)
  moreover have "jobs_of (snd (save_job j w)) jid \<in> {jobs_of w jid, Some j}"
    using jobs_of_save [of j w jid] by auto
  ultimately show ?thesis using assms by (auto simp: submits_def)
qed

lemma jobs_of_removed:
  assumes "only_files {JobFile jid} w w'" and "lookup (JobFile jid) w' \<in> {None, lookup (JobFile jid) w}"
  shows "jobs_of w' = jobs_of w \<or> jobs_of w' = (jobs_of w)(jid := None)"
proof -
  have "jobs_of w' i = jobs_of w i" if "i \<noteq> jid" for i
    using only_files_lookup [OF assms(1), of "JobFile i"] that by (simp add: jobs_of_def)
  moreover have "jobs_of w' jid \<in> {None, jobs_of w jid}" using assms(2) by (auto simp: jobs_of_def)
  ultimately show ?thesis by (metis ext fun_upd_apply insert_iff singletonD)
qed

lemma remove_lookup: "lookup p (snd (remove_file p w)) \<in> {None, lookup p w}"
  by (auto simp: remove_file_def bindE_def sys_def split: option.splits)

lemma unregistered_jobs:
  "jobs_of (remove_unregistered_job jid w) = jobs_of w \<or>
   jobs_of (remove_unregistered_job jid w) = (jobs_of w)(jid := None)"
  "only_files (upload_paths jid) w (remove_unregistered_job jid w)"
proof -
  let ?w1 = "snd (remove_file (JobFile jid) w)"
  let ?w2 = "snd (remove_file (PayloadFile jid) ?w1)"
  have f1: "only_files {JobFile jid} w ?w1" by (rule only_files_remove_any)
  have f2: "only_files {PayloadFile jid} ?w1 ?w2" by (rule only_files_remove_any)
  have f3: "only_files {SpoolFile jid} ?w2 (remove_unregistered_job jid w)"
    by (simp add: remove_unregistered_job_def Let_def only_files_remove_any)
  have "jobs_of (remove_unregistered_job jid w) = jobs_of ?w1"
    using only_files_jobs [OF f2] only_files_jobs [OF f3] by simp
  with jobs_of_removed [OF f1 remove_lookup]
  show "jobs_of (remove_unregistered_job jid w) = jobs_of w \<or>
   jobs_of (remove_unregistered_job jid w) = (jobs_of w)(jid := None)" by simp
  have sub: "{JobFile jid} \<subseteq> upload_paths jid" "{PayloadFile jid} \<subseteq> upload_paths jid" "{SpoolFile jid} \<subseteq> upload_paths jid"
    by (auto simp: upload_paths_def with_tmps_def)
  show "only_files (upload_paths jid) w (remove_unregistered_job jid w)"
    by (rule only_files.trans [OF only_files_mono [OF f1 sub(1)]
        only_files.trans [OF only_files_mono [OF f2 sub(2)] only_files_mono [OF f3 sub(3)]]])
qed

lemma submits_unregister [simp]: "submits jid P w (remove_unregistered_job jid w)"
  using unregistered_jobs [of jid w] by (auto simp: submits_def)

section \<open>Operations of a submission\<close>

lemma only_files_payload [simp]:
  "p \<in> P \<Longrightarrow> only_files P w (snd (create_file p w))" "p \<in> P \<Longrightarrow> only_files P w (snd (write_all p bs w))"
  "only_files P w (snd (open_file p w))" "only_files P w (snd (fs_read p w))"
  "only_files P w (snd (open_existing p w))"
  by (auto simp: create_file_def write_all_def open_file_def fs_read_def open_existing_def bindE_def sys_def
      only_files_def split: option.splits fcontent.splits)

lemma upload_parts:
  "{SpoolFile jid} \<subseteq> upload_paths jid" "{SpoolFile jid, PayloadFile jid} \<subseteq> upload_paths jid"
  "{JobIndex} \<subseteq> upload_paths jid" "{EventLog} \<subseteq> upload_paths jid"
  by (auto simp: upload_paths_def)

lemma submits_payload [simp]:
  "submits jid P w (snd (create_file (SpoolFile jid) w))" "submits jid P w (snd (write_all (SpoolFile jid) bs w))"
  "submits jid P w (snd (fs_read p w))" "submits jid P w (snd (open_existing p w))"
  "submits jid P w (snd (sync_call w))"
  "submits jid P w (snd (rename_file (SpoolFile jid) (PayloadFile jid) w))"
  "submits jid P w (snd (load_media q w))"
proof -
  show "submits jid P w (snd (rename_file (SpoolFile jid) (PayloadFile jid) w))"
    by (rule submits_files [OF only_files_rename upload_parts(2)]) simp_all
qed (rule submits_files [OF _ upload_parts(1)]; simp)+

lemma submits_fs_write [simp]: "submits jid P w (snd (fs_write (SpoolFile jid) bs w))"
  unfolding fs_write_def by (rule submits.bindE_respects) simp_all

lemma submits_logs [simp]:
  "submits jid P w (snd (register_job i w))" "submits jid P w (snd (append_event e w))"
  "submits jid P w (snd (next_event k p oi d w))"
proof -
  show "submits jid P w (snd (register_job i w))"
    unfolding register_job_def by (rule submits_files [OF append_ndjson_only_files upload_parts(3)]) simp
  show "submits jid P w (snd (append_event e w))"
    unfolding append_event_def by (rule submits_files [OF append_ndjson_only_files upload_parts(4)]) simp
  show "submits jid P w (snd (next_event k p oi d w))" by (rule submits_none [OF only_files_next_event])
qed

lemma submits_scans [simp]:
  "submits jid P w (snd (count_active_jobs q w))"
  "submits jid P w (snd (find_job_by_idempotency_key_inner key ex w))"
proof -
  have "only_files {} w (snd (for_jobs (\<lambda>j a w. (Inr (g j a), w)) a w))" for g :: "job \<Rightarrow> 'b \<Rightarrow> 'b \<times> bool" and a
    unfolding for_jobs_def
    by (rule only_files.bindE_respects) (simp_all add: only_files_scan only_files.refl)
  then show "submits jid P w (snd (count_active_jobs q w))"
    unfolding count_active_jobs_def by (rule submits_none)
  have "only_files {} w (snd (for_jobs (\<lambda>j a w. (Inr (g j a), w)) a w))" for g :: "job \<Rightarrow> job option \<Rightarrow> job option \<times> bool" and a
    unfolding for_jobs_def
    by (rule only_files.bindE_respects) (simp_all add: only_files_scan only_files.refl)
  then show "submits jid P w (snd (find_job_by_idempotency_key_inner key ex w))"
    unfolding find_job_by_idempotency_key_inner_def by (rule submits_none)
qed

lemma convert_payload_job:
  "convert_payload cd profile ct j w = (Inr (c, j'), w') \<Longrightarrow> j' = j \<or> (\<exists>n. j' = j\<lparr>job_bytes := n\<rparr>)"
  by (auto simp: convert_payload_def Let_def bindE_Inr_iff split: if_splits)

text \<open>The phase of the upload: it saves a job of some kind, and can only make it a failed one.\<close>

locale job_kind =
  fixes jid :: uuid and P :: "job \<Rightarrow> bool"
  assumes kind_id: "P j \<Longrightarrow> job_id j = jid"
    and kind_failed: "P j \<Longrightarrow> P (j\<lparr>job_state := Failed, job_updated_at := t, job_error := e\<rparr>)"
    and kind_bytes: "P j \<Longrightarrow> P (j\<lparr>job_bytes := n\<rparr>)"
begin

lemma submits_mark_failed [simp]: "P j \<Longrightarrow> submits jid P w (mark_failed j e w)"
  unfolding mark_failed_def now_def Let_def
  by (simp add: submits.trans [OF submits_advance(1)] submits_save kind_id kind_failed)

lemma submits_or_fail:
  assumes "P j" and "submits jid P w (snd m)"
  shows "submits jid P w (snd (or_fail j m))"
  using assms submits.trans [OF assms(2) submits_mark_failed [OF assms(1)]]
  by (cases m) (auto simp: or_fail_def fail_receiving_def split: sum.split)

lemma submits_chunks:
  assumes "P j"
  shows "submits jid P w (snd (receive_chunks mx j cs sha n w))"
  using assms
proof (induction mx j cs sha n w rule: receive_chunks.induct)
  case (3 mx j chunk cs sha n w)
  have "submits jid P w (snd (or_fail j (write_all (SpoolFile (job_id j)) chunk w)))"
    by (rule submits_or_fail [OF 3(2)]) (simp add: kind_id [OF 3(2)])
  then have "submits jid P w (snd (bindE (or_fail j (write_all (SpoolFile (job_id j)) chunk w))
      (\<lambda>_ w. receive_chunks mx j cs (sha @ chunk) (n + of_nat (length chunk)) w)))"
    if "\<not> sat_add n (of_nat (length chunk)) > mx"
    by (rule submits.bindE_respects) (use 3(1) [OF that] 3(2) in simp)
  with kind_id [OF 3(2)] show ?case by simp
qed (simp_all add: submits_or_fail)

lemma submits_convert:
  assumes "P j"
  shows "submits jid P w (snd (convert_payload cd profile ct j w))"
  using assms unfolding convert_payload_def Let_def kind_id [OF assms]
  by (auto intro!: submits.bindE_respects submits_or_fail)

lemma submits_receive:
  assumes "P j"
  shows "submits jid P w (snd (receive_payload cd mx profile ct j body w))"
proof -
  have conv: "P j'" if "convert_payload cd profile ct j v = (Inr (c, j'), v')" for v c j' v'
    using convert_payload_job [OF that] assms kind_bytes by auto
  show ?thesis
    using assms unfolding receive_payload_def Let_def kind_id [OF assms]
    by (auto intro!: submits.bindE_respects submits_or_fail submits_save submits_chunks submits_convert
        dest: conv kind_id split: prod.split)
qed

end

interpretation kept: job_kind jid "own jid pid"
  by unfold_locales (simp_all add: own_id)

interpretation unqueued: job_kind jid "\<lambda>j. own jid pid j \<and> job_state j \<noteq> Queued"
  by unfold_locales (auto dest: own_id)

lemma submits_event:
  assumes "\<And>e v. submits jid P v (snd (k e v))"
  shows "submits jid P w (snd (case next_event kd p oi d w of (e, v) \<Rightarrow> k e v))"
  using submits.trans [OF submits_logs(3) assms] by (simp add: split_beta)

lemma submits_publish_upload:
  assumes "own jid pid j"
  shows "submits jid (own jid pid) w (snd (publish_upload j n w))"
  using assms unfolding publish_upload_def Let_def own_id [OF assms]
  by (auto intro!: submits.bindE_respects submits_save submits_event own_id)

lemma submits_register:
  assumes "own jid pid j"
  shows "submits jid (own jid pid) w (snd (register_upload c j key n w))"
  using assms unfolding register_upload_def Let_def find_job_by_idempotency_key_def own_id [OF assms]
  by (auto intro!: submits.bindE_respects submits_publish_upload split: option.split)

end
