(* ===== verification/Admission.thy ===== *)
theory Admission
  imports Submission_Props
begin

text \<open>
  The result of a submission: which job exists afterwards, in which state and with which
  payload. An upload that is admitted is stored as it was sent, or as the driver converts
  it; one that is refused leaves no job that would be printed; a repeated key is answered
  with the job it already names.
\<close>

section \<open>New jobs\<close>

abbreviation drawn :: "world \<Rightarrow> uuid" where
  "drawn w \<equiv> env_uuid (w_env w) (w_tick w)"

lemmas draw_defs = new_uuid_def now_def Let_def own_def payload_ok_def

lemma new_job_own:
  assumes "new_job pid hs w = (j, w')"
  shows "own (drawn w) pid j" "job_state j = Receiving" "only_files {} w w'"
proof -
  have "own (drawn w) pid (fst (new_job pid hs w))" "job_state (fst (new_job pid hs w)) = Receiving"
    "snd (new_job pid hs w) = advance (advance (advance w))"
    by (simp_all add: new_job_def draw_defs)
  then show "own (drawn w) pid j" "job_state j = Receiving" "only_files {} w w'"
    using assms by (simp_all add: only_files_def)
qed

lemma new_v2_job_own:
  assumes "new_v2_job pid r p w = (j, w')"
  shows "own (drawn w) pid j" "job_state j = Receiving" "only_files {} w w'"
    "job_idempotency_key j = Some (sj_idempotency_key r)" "job_sha256 j = Some (pj_request_hash p)"
    "job_label_count j = Some (pj_label_count p)"
proof -
  let ?j = "fst (new_v2_job pid r p w)"
  have "own (drawn w) pid ?j" "job_state ?j = Receiving" "job_idempotency_key ?j = Some (sj_idempotency_key r)"
    "job_sha256 ?j = Some (pj_request_hash p)" "job_label_count ?j = Some (pj_label_count p)"
    "snd (new_v2_job pid r p w) = advance (advance (advance w))"
    by (simp_all add: new_v2_job_def draw_defs)
  then show "own (drawn w) pid j" "job_state j = Receiving" "only_files {} w w'"
    "job_idempotency_key j = Some (sj_idempotency_key r)" "job_sha256 j = Some (pj_request_hash p)"
    "job_label_count j = Some (pj_label_count p)"
    using assms by (simp_all add: only_files_def)
qed

lemma queued_job_simps [simp]:
  "own jid pid j \<Longrightarrow> own jid pid (queued_job j t ls d n key)"
  "job_id (queued_job j t ls d n key) = job_id j" "job_state (queued_job j t ls d n key) = Queued"
  "job_printer_id (queued_job j t ls d n key) = job_printer_id j"
  "job_sha256 (queued_job j t ls d n key) = Some d" "job_label_count (queued_job j t ls d n key) = fst ls"
  "job_idempotency_key (queued_job j t ls d n key) = key"
  "job_payload_path (queued_job j t ls d n key) = Some (PayloadFile (job_id j))"
  by (simp_all add: queued_job_def own_def payload_ok_def)

lemma only_files_pq: "only_files {} w (snd (pq_loop k rest w))"
proof (induction rest arbitrary: k w rule: length_induct)
  case (1 rest)
  obtain r where s: "sys w = (r, advance w)" by (metis prod.collapse snd_sys)
  have next_round: "only_files {} w (snd (pq_loop k' (drop 8192 rest) (advance w)))" if "rest \<noteq> []" for k'
    using 1 [rule_format, of "drop 8192 rest" "advance w" k'] that by simp
  then show ?case
    by (subst pq_loop.simps, subst s) (cases r; auto simp: Let_def split: option.split list.split)
qed

lemma only_files_label_count: "only_files {} w (snd (label_count d p c h w))"
proof -
  have "only_files {} w (snd (parse_pq p w))"
    using only_files.trans [OF only_files_payload(3) only_files_pq]
    by (auto simp: parse_pq_def split: prod.split sum.split) (metis only_files_payload(3) snd_conv)+
  then show ?thesis by (auto simp: label_count_def only_files.refl split: prod.split)
qed

section \<open>The files of an admission\<close>

lemma stored_v2_simps [simp]:
  "own jid pid j \<Longrightarrow> own jid pid (stored_v2_job held j t)"
  "job_id (stored_v2_job held j t) = job_id j" "job_printer_id (stored_v2_job held j t) = job_printer_id j"
  "job_state (stored_v2_job held j t) = (if held then Held else Queued)"
  "job_sha256 (stored_v2_job held j t) = job_sha256 j"
  "job_label_count (stored_v2_job held j t) = job_label_count j"
  "job_idempotency_key (stored_v2_job held j t) = job_idempotency_key j"
  by (simp_all add: stored_v2_job_def own_def payload_ok_def)

lemma submits_persist: "submits jid P w (snd (persist_v2_payload (SpoolFile jid) (PayloadFile jid) bs w))"
  unfolding persist_v2_payload_def by (auto intro!: submits.bindE_respects)

text \<open>The jobs that version 2 saves, one after the other.\<close>

locale v2_kind = job_kind +
  assumes kind_stored: "P j \<Longrightarrow> P (stored_v2_job held j t)"
    and kind_error: "P j \<Longrightarrow> P (j\<lparr>job_error := e\<rparr>)"
begin

lemma submits_publish:
  assumes "P j"
  shows "submits jid P w (snd (publish_v2_job held j w))"
  using assms unfolding publish_v2_job_def Let_def
  by (auto intro!: submits.bindE_respects submits_save submits_event kind_id kind_error)

lemma submits_store_v2:
  assumes "P j"
  shows "submits jid P w (snd (store_v2_job held j bs w))"
  unfolding store_v2_job_def kind_id [OF assms]
proof (rule submits.bindE_respects)
  show "submits jid P w (snd (mapE v2_internal (save_job j w)))"
    using submits_save [of P j jid w] assms kind_id [OF assms] by simp
  fix u :: unit and v
  obtain r v1 where r: "persist_v2_payload (SpoolFile jid) (PayloadFile jid) bs v = (r, v1)" by fastforce
  have v1: "submits jid P v v1"
    using submits_persist [of jid P v bs] r by simp
  have "submits jid P v1 (mark_failed j e v1)" for e by (rule submits_mark_failed [OF assms])
  moreover have "submits jid P v1 (snd (publish_v2_job held (stored_v2_job held j t) (advance v1)))" for t
    using submits.trans [OF submits_advance(1) submits_publish [OF kind_stored]] assms by simp
  ultimately show "submits jid P v (snd (case persist_v2_payload (SpoolFile jid) (PayloadFile jid) bs v of
      (Inl e, w) \<Rightarrow> (Inl (v2_internal e), mark_failed j e w)
    | (Inr _, w) \<Rightarrow> (let (t, w) = now w in publish_v2_job held (stored_v2_job held j t) w)))"
    using submits.trans [OF v1] r by (cases r) (simp_all add: now_def)
qed

end

interpretation kept_v2: v2_kind jid "own jid pid"
  by unfold_locales simp_all

interpretation keyed_v2: v2_kind jid "\<lambda>j. own jid pid j \<and> job_idempotency_key j = Some k"
  by unfold_locales (auto dest: own_id)

interpretation keyless: job_kind jid "\<lambda>j. own jid pid j \<and> job_idempotency_key j = None"
  by unfold_locales (auto dest: own_id)

lemma admit_upload_submits: "submits (drawn w) (own (drawn w) pid) w (snd (admit_upload pf sv pid hs body w))"
proof -
  let ?R = "submits (drawn w) (own (drawn w) pid)"
  have reg: "?R v (snd (case label_count d p c h v of (labels, v1) \<Rightarrow>
      case now v1 of (t, v2) \<Rightarrow> register_upload cf (queued_job j t labels dg n key) key n v2))"
    if "own (drawn w) pid j" for v d p c h cf j dg n key
    using submits.trans [OF submits_none [OF only_files_label_count]
        submits.trans [OF submits_advance(1) submits_register]] that
    by (simp add: split_beta now_def)
  have "?R w (snd (case new_job pid hs w of (j, v) \<Rightarrow>
      bindE (receive_payload cd mx profile ct j body v) (\<lambda>((sha, n), prepared, j) v. k sha n prepared j v)))"
    if k: "\<And>sha n prepared j v. own (drawn w) pid j \<Longrightarrow> ?R v (snd (k sha n prepared j v))"
    for cd mx profile ct and k :: "u8 list \<Rightarrow> u64 \<Rightarrow> u64 option \<Rightarrow> job \<Rightarrow> world \<Rightarrow> (api_error + bool \<times> job) \<times> world"
  proof -
    obtain j v where nj: "new_job pid hs w = (j, v)" by fastforce
    note own = new_job_own [OF nj]
    have "?R v (snd (bindE (receive_payload cd mx profile ct j body v)
        (\<lambda>((sha, n), prepared, j) v. k sha n prepared j v)))"
    proof (rule submits.bindE_respects)
      show "?R v (snd (receive_payload cd mx profile ct j body v))" by (rule kept.submits_receive [OF own(1)])
      fix x v' assume "receive_payload cd mx profile ct j body v = (Inr x, v')"
      then have "own (drawn w) pid (snd (snd x))"
        using own(1) convert_payload_job
        by (fastforce simp: receive_payload_def Let_def bindE_Inr_iff split: prod.splits)
      then show "?R v' (snd ((\<lambda>((sha, n), prepared, j) v. k sha n prepared j v) x v'))"
        by (auto split: prod.split intro: k)
    qed
    with nj submits.trans [OF submits_none [OF own(3)]] show ?thesis by simp
  qed
  with reg show ?thesis
    unfolding admit_upload_def Let_def
    by (auto intro!: submits.bindE_respects split: prod.split)
qed

section \<open>Reading before the identifier is drawn\<close>

text \<open>Version 2 reads before it draws the identifier of the job.\<close>

definition reads :: "world \<Rightarrow> world \<Rightarrow> bool" where
  "reads w w' = (only_files {} w w' \<and> w_tick w \<le> w_tick w')"

interpretation reads: respected reads
proof
  fix w1 w2 w3
  show "reads w1 w1" by (simp add: reads_def only_files.refl)
  assume "reads w1 w2" "reads w2 w3"
  then show "reads w1 w3" using only_files.trans [of "{}" w1 w2 w3] by (simp add: reads_def)
qed

lemma tick_advance [simp]: "w_tick (advance w) = Suc (w_tick w)"
  by (simp add: advance_def)

lemma reads_advance [simp]: "reads w (advance w)" "reads w w"
  by (simp_all add: reads_def only_files.refl)

lemma reads_sys [simp]: "reads w (snd (sys w))"
  by simp

lemma reads_json [simp]: "reads w (snd (read_json sel p w))"
proof -
  have doc: "reads v (snd (read_doc p v))" for v
    unfolding read_doc_def
    by (auto intro!: reads.bindE_respects simp del: snd_sys split: option.split fcontent.split)
  show ?thesis
    unfolding read_json_def by (rule reads.bindE_respects [OF doc]) (simp split: option.split)
qed

lemma reads_load_media [simp]: "reads w (snd (load_media pid w))"
proof -
  obtain b where e: "path_exists (MediaFile pid) w = (b, advance w)"
  proof -
    have "snd (path_exists (MediaFile pid) w) = advance w"
      by (auto simp: path_exists_def sys_def split: option.split)
    then show thesis using that by (metis prod.collapse)
  qed
  have "reads v (snd (bindE (read_json as_media (MediaFile pid) v) (\<lambda>m w. (Inr (Some m), w))))" for v
    by (rule reads.bindE_respects) simp_all
  then show ?thesis
    using e reads.trans [OF reads_advance(1)] by (cases b) (simp_all add: load_media_def)
qed

lemma reads_scan: "reads w (snd (scan_jobs (\<lambda>j a w. (Inr (g j a), w)) ps a w))"
proof (induction ps arbitrary: a w)
  case Nil
  show ?case by simp
next
  case (Cons p ps)
  obtain r v where rd: "read_json as_job p (advance w) = (r, v)" by fastforce
  have "reads (advance w) v" using reads_json [of "advance w" as_job p] rd by simp
  with Cons.IH rd have "reads (advance w) (snd (if \<not> has_json_extension p then scan_jobs (\<lambda>j a w. (Inr (g j a), w)) ps a (advance w)
      else case read_json as_job p (advance w) of
         (Inl _, w) \<Rightarrow> scan_jobs (\<lambda>j a w. (Inr (g j a), w)) ps a w
       | (Inr j, w) \<Rightarrow> bindE (Inr (g j a), w) (\<lambda>r w.
             if snd r then (Inr (fst r), w) else scan_jobs (\<lambda>j a w. (Inr (g j a), w)) ps (fst r) w)))"
    by (cases r) (auto intro: reads.trans)
  then show ?case
    unfolding scan_jobs.simps by (intro reads.bindE_respects) simp_all
qed

lemma reads_scans [simp]:
  "reads w (snd (count_active_jobs q w))" "reads w (snd (find_job_by_idempotency_key_inner key ex w))"
  unfolding count_active_jobs_def find_job_by_idempotency_key_inner_def for_jobs_def read_jobs_dir_def
  by (auto intro!: reads.bindE_respects reads_scan simp del: snd_sys)

text \<open>Some identifier that the generator gives from now on is the one worked on.\<close>

definition draws :: "string \<Rightarrow> world \<Rightarrow> world \<Rightarrow> bool" where
  "draws pid w w' = (\<exists>k \<ge> w_tick w. let jid = env_uuid (w_env w) k in submits jid (own jid pid) w w')"

lemma draws_reads: "reads w w' \<Longrightarrow> draws pid w w'"
  by (auto simp: draws_def reads_def Let_def intro: submits_none)

lemma draws_after:
  assumes "reads w v" and "draws pid v w'"
  shows "draws pid w w'"
proof -
  have env: "w_env v = w_env w" using assms(1) by (simp add: reads_def only_files_def)
  obtain k where "k \<ge> w_tick v" "submits (env_uuid (w_env w) k) (own (env_uuid (w_env w) k) pid) v w'"
    using assms(2) env by (auto simp: draws_def Let_def)
  moreover from this have "k \<ge> w_tick w" using assms(1) by (simp add: reads_def)
  moreover have "submits (env_uuid (w_env w) k) (own (env_uuid (w_env w) k) pid) w v"
    using assms(1) by (intro submits_none) (simp add: reads_def)
  ultimately show ?thesis by (auto simp: draws_def Let_def intro: submits.trans)
qed

lemma draws_bindE:
  assumes "reads w (snd m)" and "\<And>x v. m = (Inr x, v) \<Longrightarrow> draws pid v (snd (k x v))"
  shows "draws pid w (snd (bindE m k))"
proof (cases m)
  case (Pair r v)
  then show ?thesis
    using assms draws_after [OF assms(1)] draws_reads [OF assms(1)] by (cases r) (auto simp: bindE_def)
qed

lemma draws_new_v2:
  "draws pid w (snd (case new_v2_job pid r p w of (j, w) \<Rightarrow> store_v2_job held j bs w))"
proof -
  obtain j v where nj: "new_v2_job pid r p w = (j, v)" by fastforce
  note own = new_v2_job_own [OF nj]
  have "submits (drawn w) (own (drawn w) pid) w (snd (store_v2_job held j bs v))"
    by (rule submits.trans [OF submits_none [OF own(3)] kept_v2.submits_store_v2 [OF own(1)]])
  then have "\<exists>k \<ge> w_tick w. submits (env_uuid (w_env w) k) (own (env_uuid (w_env w) k) pid) w
      (snd (store_v2_job held j bs v))" by (intro exI conjI) auto
  then show ?thesis by (simp add: draws_def nj Let_def)
qed

lemma admit_v2_draws: "draws pid w (snd (admit_v2 pf sv pid hs r w))"
proof -
  have rev: "reads v (snd (revision_changed pf pid e v))" for e v
    by (auto simp: revision_changed_def intro!: reads.bindE_respects split: option.split)
  show ?thesis
    unfolding admit_v2_def find_job_by_idempotency_key_any_def Let_def
    by (auto intro!: draws_bindE draws_new_v2 rev simp: draws_reads split: option.split)
qed

section \<open>Submissions move jobs forward\<close>

text \<open>Random identifiers: one that is drawn from now on is not the identifier of a stored job.\<close>

definition fresh_ids :: "world \<Rightarrow> bool" where
  "fresh_ids w = (\<forall>k \<ge> w_tick w. jobs_of w (env_uuid (w_env w) k) = None)"

lemma submits_other: "submits jid P w w' \<Longrightarrow> i \<noteq> jid \<Longrightarrow> jobs_of w' i = jobs_of w i"
proof -
  assume "submits jid P w w'" "i \<noteq> jid"
  then have "lookup (JobFile i) w' = lookup (JobFile i) w"
    by (intro only_files_lookup [of "upload_paths jid"]) (auto simp: submits_def upload_paths_def with_tmps_def)
  then show ?thesis by (simp add: jobs_of_def)
qed

lemma submits_evolves:
  assumes "submits jid (own jid pid) w w'" and "jobs_of w jid = None"
  shows "evolves w w'"
  unfolding evolves_def
proof (intro impI conjI allI)
  assume keyed: "jobs_keyed w"
  have "own jid pid j" if "jobs_of w' jid = Some j" for j
    using assms that by (simp add: submits_def)
  with keyed submits_other [OF assms(1)] show "jobs_keyed w'"
    unfolding jobs_keyed_def own_def by metis
  show "job_moves (jobs_of w i) (jobs_of w' i)" for i
    using submits_other [OF assms(1), of i] assms(2) by (cases "i = jid") (simp_all add: job_moves_def)
qed

end
