(* ===== verification/Admission_Results.thy ===== *)
theory Admission_Results
  imports Admission
begin

text \<open>
  What an answer of the two submission handlers means for the stored jobs and payloads, with
  the properties of submissions and concrete requests on which they are evaluated.
\<close>

section \<open>The uploaded bytes\<close>

text \<open>The bytes of a body that did not break off.\<close>

fun body_bytes :: "body \<Rightarrow> u8 list option" where
  "body_bytes [] = Some []"
| "body_bytes (Inl e # cs) = None"
| "body_bytes (Inr c # cs) = map_option ((@) c) (body_bytes cs)"

lemma or_fail_Inr [simp]: "or_fail j m = (Inr x, w) \<longleftrightarrow> m = (Inr x, w)"
  by (cases m) (auto simp: or_fail_def fail_receiving_def split: sum.splits)

lemma create_file_Inr: "create_file p w = (Inr u, w') \<Longrightarrow> lookup p w' = Some (Data [])"
  by (auto simp: create_file_def bindE_Inr_iff)

lemma write_all_Inr:
  "write_all p bs w = (Inr u, w') \<Longrightarrow> lookup p w = Some (Data old) \<Longrightarrow> lookup p w' = Some (Data (old @ bs))"
  by (auto simp: write_all_def file_bytes_def split: option.splits)

lemma fs_write_Inr: "fs_write p bs w = (Inr u, w') \<Longrightarrow> lookup p w' = Some (Data bs)"
  by (auto simp: fs_write_def bindE_Inr_iff dest: create_file_Inr write_all_Inr)

lemma fs_read_Inr: "fs_read p w = (Inr bs, w') \<Longrightarrow> lookup p w = Some (Data bs) \<and> lookup p w' = lookup p w"
  by (auto simp: fs_read_def open_file_def bindE_Inr_iff split: option.splits fcontent.splits)

lemma receive_chunks_Inr:
  assumes "receive_chunks mx j cs sha n w = (Inr (sha', n'), w')"
    and "lookup (SpoolFile (job_id j)) w = Some (Data old)"
  shows "\<exists>bs. body_bytes cs = Some bs \<and> sha' = sha @ bs \<and> n' = n + of_nat (length bs) \<and>
     lookup (SpoolFile (job_id j)) w' = Some (Data (old @ bs))"
  using assms
proof (induction mx j cs sha n w arbitrary: old rule: receive_chunks.induct)
  case (3 mx j chunk cs sha n w)
  then obtain v where fits: "\<not> sat_add n (of_nat (length chunk)) > mx"
      and wr: "write_all (SpoolFile (job_id j)) chunk w = (Inr (), v)"
      and rest: "receive_chunks mx j cs (sha @ chunk) (n + of_nat (length chunk)) v = (Inr (sha', n'), w')"
    by (auto simp: bindE_Inr_iff split: if_splits)
  from 3(1) [OF fits rest write_all_Inr [OF wr 3(3)]] show ?case by auto
qed (auto simp: or_fail_def fail_receiving_def)

lemma receive_chunks_bound:
  assumes "receive_chunks mx j cs sha n w = (Inr (sha', n'), w')" and "n \<le> mx" and "mx < - 1"
    and "\<And>c. Inr c \<in> set cs \<Longrightarrow> length c < 2 ^ 64" and "body_bytes cs = Some bs"
  shows "unat n + length bs \<le> unat mx"
  using assms
proof (induction mx j cs sha n w arbitrary: bs rule: receive_chunks.induct)
  case (1 mx j sha n w)
  then show ?case by (simp add: word_le_nat_alt)
next
  case (3 mx j chunk cs sha n w)
  then obtain v where fits: "\<not> sat_add n (of_nat (length chunk)) > mx"
      and rest: "receive_chunks mx j cs (sha @ chunk) (n + of_nat (length chunk)) v = (Inr (sha', n'), w')"
    by (auto simp: bindE_Inr_iff split: if_splits)
  obtain bs' where bs: "body_bytes cs = Some bs'" "bs = chunk @ bs'" using 3(6) by auto
  have len: "unat (of_nat (length chunk) :: u64) = length chunk"
    using 3(5) [of chunk] by (simp add: unat_of_nat)
  have "unat (sat_add n (of_nat (length chunk))) \<le> unat mx" using fits by (simp only: not_less word_le_nat_alt)
  moreover have "unat mx < 2 ^ 64 - 1" using 3(4) by (simp add: word_less_nat_alt unsigned_minus_1_eq_mask mask_eq_exp_minus_1)
  ultimately have s: "unat n + length chunk \<le> unat mx" by (simp add: unat_sat_add len)
  have sum: "unat (n + of_nat (length chunk)) = unat n + length chunk"
    using s \<open>unat mx < 2 ^ 64 - 1\<close> by (simp add: unat_word_ariths len)
  have "unat (n + of_nat (length chunk)) + length bs' \<le> unat mx"
    by (rule 3(1) [OF fits rest]) (use 3(4,5) s sum bs in \<open>auto simp: word_le_nat_alt\<close>)
  with sum bs show ?case by simp
qed (simp_all add: or_fail_def fail_receiving_def)

lemma convert_payload_Inr:
  assumes "convert_payload cd profile ct j w = (Inr (c, j'), w')"
    and "lookup (SpoolFile (job_id j)) w = Some (Data bs)"
  shows "\<exists>p. prepare_zebra_payload cd ct bs profile = Inr p \<and> c = pp_label_count p \<and>
     lookup (SpoolFile (job_id j)) w' = Some (Data (pp_bytes p))"
proof (cases "ct = ''application/zpl''")
  case True
  have "mime_of ''application/zpl'' = ZPL_MIME" using mime_zpl by (simp add: ZPL_MIME_def)
  with True assms show ?thesis by (simp add: convert_payload_def prepare_zebra_payload_def)
next
  case False
  let ?p = "SpoolFile (job_id j)"
  obtain source v1 pr v2 v3 v4 where rd: "fs_read ?p w = (Inr source, v1)"
      and pr: "prepare_zebra_payload cd ct source profile = Inr pr" "c = pp_label_count pr"
      and wr: "fs_write ?p (pp_bytes pr) v1 = (Inr (), v2)" and op: "open_existing ?p v2 = (Inr (), v3)"
      and sy: "sync_call v3 = (Inr (), w')"
    using False assms(1) by (auto simp: convert_payload_def Let_def bindE_Inr_iff)
  have "source = bs" using fs_read_Inr [OF rd] assms(2) by simp
  moreover have "lookup ?p w' = lookup ?p v2"
    using only_files_lookup [of "{}" v2 v3 ?p] only_files_lookup [of "{}" v3 w' ?p] op sy
      only_files_payload(5) [of "{}" v2 ?p] by (simp add: sync_call_def)
  ultimately show ?thesis using pr fs_write_Inr [OF wr] by auto
qed

lemma receive_payload_Inr:
  assumes "receive_payload cd mx profile ct j body w = (Inr ((sha, n), prepared, j'), w')"
  shows "\<exists>bs p. body_bytes body = Some bs \<and> prepare_zebra_payload cd ct bs profile = Inr p \<and>
     prepared = pp_label_count p \<and> sha = bytes_of ct @ [0] @ bs \<and> n = of_nat (length bs) \<and>
     lookup (PayloadFile (job_id j)) w' = Some (Data (pp_bytes p)) \<and> (j' = j \<or> (\<exists>m. j' = j\<lparr>job_bytes := m\<rparr>)) \<and>
     ((\<forall>c. Inr c \<in> set body \<longrightarrow> length c < 2 ^ 64) \<and> mx < - 1 \<longrightarrow> length bs \<le> unat mx)"
proof -
  let ?p = "SpoolFile (job_id j)" and ?q = "PayloadFile (job_id j)"
  obtain v1 v2 v3 v4 v5 v6 where cf: "create_file ?p v1 = (Inr (), v2)"
      and rc: "receive_chunks mx j body (bytes_of ct @ [0]) 0 v2 = (Inr (sha, n), v3)"
      and sy: "sync_call v3 = (Inr (), v4)" and cv: "convert_payload cd profile ct j v4 = (Inr (prepared, j'), v5)"
      and rn: "rename_file ?p ?q v5 = (Inr (), v6)" and sy2: "sync_call v6 = (Inr (), w')"
  proof -
    have "\<exists>v1 v2 v3 v4 v5 v6. create_file ?p v1 = (Inr (), v2) \<and>
      receive_chunks mx j body (bytes_of ct @ [0]) 0 v2 = (Inr (sha, n), v3) \<and> sync_call v3 = (Inr (), v4) \<and>
      convert_payload cd profile ct j v4 = (Inr (prepared, j'), v5) \<and>
      rename_file ?p ?q v5 = (Inr (), v6) \<and> sync_call v6 = (Inr (), w')"
      using assms by (fastforce simp: receive_payload_def Let_def bindE_Inr_iff split: prod.splits)
    then show thesis using that by blast
  qed
  obtain bs where bs: "body_bytes body = Some bs" "sha = bytes_of ct @ [0] @ bs" "n = of_nat (length bs)"
      "lookup ?p v3 = Some (Data bs)"
    using receive_chunks_Inr [OF rc create_file_Inr [OF cf]] by auto
  have bound: "length bs \<le> unat mx" if "\<forall>c. Inr c \<in> set body \<longrightarrow> length c < 2 ^ 64" "mx < - 1"
    using receive_chunks_bound [OF rc _ that(2) _ bs(1)] that(1) by simp
  have "lookup ?p v4 = Some (Data bs)" using bs(4) sy by (simp add: sync_call_def)
  from convert_payload_Inr [OF cv this] obtain p where p: "prepare_zebra_payload cd ct bs profile = Inr p"
      "prepared = pp_label_count p" "lookup ?p v5 = Some (Data (pp_bytes p))" by blast
  have "lookup ?q v6 = Some (Data (pp_bytes p))"
    using rn p(3) by (auto simp: rename_file_def bindE_Inr_iff split: option.splits)
  then have "lookup ?q w' = Some (Data (pp_bytes p))" using sy2 by (simp add: sync_call_def)
  with bs p convert_payload_job [OF cv] bound show ?thesis by blast
qed

section \<open>The idempotency key\<close>

lemma scan_find_stored:
  assumes "scan_jobs (\<lambda>j r w. (Inr (find_step key ex j r), w)) ps None w = (Inr (Some e), w')" and "jobs_keyed w"
  shows "jobs_of w (job_id e) = Some e \<and> answers_key key ex e"
  using assms
proof (induction ps arbitrary: w)
  case Nil
  then show ?case by simp
next
  case (Cons p ps)
  let ?scan = "scan_jobs (\<lambda>j r w. (Inr (find_step key ex j r), w)) ps"
  have keyed: "jobs_keyed (advance w)" using Cons.prems(2) by (simp add: keyed_same [of "advance w" w])
  obtain r v where rd: "read_json as_job p (advance w) = (r, v)" by fastforce
  have v: "jobs_of v = jobs_of w" using only_files_none_jobs [OF read_json_world [OF rd]] by simp
  have run: "(if \<not> has_json_extension p then ?scan None (advance w)
      else case (r, v) of (Inl _, w) \<Rightarrow> ?scan None w
       | (Inr j, w) \<Rightarrow> bindE (Inr (find_step key ex j None), w) (\<lambda>r w.
             if snd r then (Inr (fst r), w) else ?scan (fst r) w)) = (Inr (Some e), w')"
    using Cons.prems(1) rd by (auto simp: bindE_Inr_iff)
  have more: "jobs_of w (job_id e) = Some e \<and> answers_key key ex e" if "?scan None u = (Inr (Some e), w')" "jobs_of u = jobs_of w" for u
    using Cons.IH [OF that(1)] that(2) Cons.prems(2) keyed_same [OF that(2)] by simp
  show ?case
  proof (cases "has_json_extension p")
    case False
    with run more [of "advance w"] show ?thesis by simp
  next
    case True
    show ?thesis
    proof (cases r)
      case (Inl x)
      with run True more [of v] v show ?thesis by simp
    next
      case (Inr j)
      with read_job_stored [of p "advance w" j v] rd True keyed have j: "jobs_of v (job_id j) = Some j" by simp
      show ?thesis
      proof (cases "answers_key key ex j")
        case answers: True
        with run True Inr have "e = j" by (simp add: find_step_def)
        with j v answers show ?thesis by simp
      next
        case False
        with run True Inr more [of v] v show ?thesis by (simp add: find_step_def)
      qed
    qed
  qed
qed

lemma find_key_stored:
  assumes "find_job_by_idempotency_key_inner key ex w = (Inr (Some e), w')" and "jobs_keyed w"
  shows "jobs_of w (job_id e) = Some e \<and> answers_key key ex e"
proof -
  obtain ps where "scan_jobs (\<lambda>j r w. (Inr (find_step key ex j r), w)) ps None (advance w) = (Inr (Some e), w')"
    using assms(1) by (auto simp: find_job_by_idempotency_key_inner_def for_jobs_def read_jobs_dir_def bindE_Inr_iff)
  from scan_find_stored [OF this] assms(2) show ?thesis by (simp add: keyed_same [of "advance w" w])
qed

lemma only_files_find [simp]: "only_files P w (snd (find_job_by_idempotency_key_inner key ex w))"
  using reads_scans(2) [of w key ex] by (auto simp: reads_def intro: only_files_mono)

lemma only_files_count [simp]: "only_files P w (snd (count_active_jobs q w))"
  using reads_scans(1) [of w q] by (auto simp: reads_def intro: only_files_mono)

lemma key_world:
  "find_job_by_idempotency_key_inner key ex w = (r, w') \<Longrightarrow> only_files {} w w'"
  "count_active_jobs q w = (r', w') \<Longrightarrow> only_files {} w w'"
  by (metis only_files_find snd_conv, metis only_files_count snd_conv)

section \<open>Registering an upload\<close>

lemma logged_jobs:
  "register_job i w = (r, w') \<Longrightarrow> jobs_of w' = jobs_of w \<and> lookup (PayloadFile k) w' = lookup (PayloadFile k) w"
  "append_event e w = (r, w') \<Longrightarrow> jobs_of w' = jobs_of w \<and> lookup (PayloadFile k) w' = lookup (PayloadFile k) w"
  "next_event kd p oi d w = (e, w') \<Longrightarrow> jobs_of w' = jobs_of w \<and> lookup (PayloadFile k) w' = lookup (PayloadFile k) w"
proof -
  have *: "jobs_of w' = jobs_of w \<and> lookup (PayloadFile k) w' = lookup (PayloadFile k) w"
    if "only_files {JobIndex, EventLog} w w'"
    using only_files_jobs [OF that] only_files_lookup [OF that, of "PayloadFile k"] by simp
  show "register_job i w = (r, w') \<Longrightarrow> jobs_of w' = jobs_of w \<and> lookup (PayloadFile k) w' = lookup (PayloadFile k) w"
    using only_files_mono [OF append_ndjson_only_files, of JobIndex "{JobIndex, EventLog}" w "DUuid i"]
    by (intro *) (simp add: register_job_def)
  show "append_event e w = (r, w') \<Longrightarrow> jobs_of w' = jobs_of w \<and> lookup (PayloadFile k) w' = lookup (PayloadFile k) w"
    using only_files_mono [OF append_ndjson_only_files, of EventLog "{JobIndex, EventLog}" w "DEvent e"]
    by (intro *) (simp add: append_event_def)
  show "next_event kd p oi d w = (e, w') \<Longrightarrow> jobs_of w' = jobs_of w \<and> lookup (PayloadFile k) w' = lookup (PayloadFile k) w"
    using only_files_next_event [of "{JobIndex, EventLog}" w kd p oi d] by (intro *) simp
qed

lemma save_job_Inr:
  "save_job j w = (Inr u, w') \<Longrightarrow> jobs_of w' (job_id j) = Some j \<and> lookup (PayloadFile k) w' = lookup (PayloadFile k) w"
  using jobs_of_save_ok [of j w u w'] only_files_lookup [OF only_files_save_job [of j w], of "PayloadFile k"]
  by (auto simp: with_tmps_def)

lemma bindE_mapE_Inl:
  "bindE (mapE f m) k = (Inl e, w') \<longleftrightarrow>
     (\<exists>x. m = (Inl x, w') \<and> e = f x) \<or> (\<exists>x w. m = (Inr x, w) \<and> k x w = (Inl e, w'))"
  by (cases m) (auto simp: bindE_def mapE_def split: sum.splits)

lemma publish_upload_Inr:
  assumes "publish_upload j n w = (Inr (b, j'), w')"
  shows "b \<and> j' = j \<and> jobs_of w' (job_id j) = Some j \<and> lookup (PayloadFile k) w' = lookup (PayloadFile k) w"
proof -
  obtain v3 v4 e v5 where sv: "save_job j w = (Inr (), v3)" and rg: "register_job (job_id j) v3 = (Inr (), v4)"
      and ev: "next_event ''job_queued'' (Some (job_printer_id j)) (Some (job_id j)) (JObject [(''bytes'', JNat n)]) v4 = (e, v5)"
      and ap: "append_event e v5 = (Inr (), w')" and j': "b" "j' = j"
    using assms by (auto simp: publish_upload_def bindE_Inr_iff split_beta) (metis prod.collapse)+
  have "jobs_of v3 (job_id j) = Some j" "lookup (PayloadFile k) v3 = lookup (PayloadFile k) w"
    using save_job_Inr [OF sv] by auto
  with j' logged_jobs(1) [OF rg] logged_jobs(3) [OF ev] logged_jobs(2) [OF ap] show ?thesis by simp
qed

lemma publish_upload_Inl: "publish_upload j n w = (Inl e, w') \<Longrightarrow> ae_status e = 500"
  by (auto simp: publish_upload_def bindE_mapE_Inl split_beta)

lemma publish_upload_jobs:
  assumes "publish_upload j n w = (r, w')"
  shows "jobs_of w' = jobs_of w \<or> jobs_of w' = (jobs_of w)(job_id j \<mapsto> j)"
proof -
  obtain s v where sv: "save_job j w = (s, v)" by fastforce
  have log: "only_files {JobIndex, EventLog} u (snd (register_job i u))"
      "only_files {JobIndex, EventLog} u (snd (append_event e u))" for u i e
    by (auto simp: register_job_def append_event_def intro: only_files_mono [OF append_ndjson_only_files])
  have ev: "only_files {JobIndex, EventLog} u (snd (case next_event kd p oi d u of (e, w) \<Rightarrow>
      bindE (mapE api_internal (append_event e w)) (\<lambda>_ w. (Inr (True, j), w))))" for u kd p oi d
  proof -
    obtain e u1 where e: "next_event kd p oi d u = (e, u1)" by fastforce
    have "only_files {JobIndex, EventLog} u1 (snd (bindE (mapE api_internal (append_event e u1)) (\<lambda>_ w. (Inr (True, j), w))))"
      by (rule only_files.bindE_respects) (simp_all add: log(2) only_files.refl)
    moreover have "only_files {JobIndex, EventLog} u u1"
      using only_files_next_event [of "{JobIndex, EventLog}" u kd p oi d] e by simp
    ultimately show ?thesis using e only_files.trans by fastforce
  qed
  have "only_files {JobIndex, EventLog} v w'"
  proof (cases s)
    case (Inl e)
    with assms sv show ?thesis by (simp add: publish_upload_def only_files.refl)
  next
    case (Inr u)
    have "only_files {JobIndex, EventLog} v (snd (bindE (mapE api_internal (register_job (job_id j) v)) (\<lambda>_ w.
        case next_event ''job_queued'' (Some (job_printer_id j)) (Some (job_id j)) (JObject [(''bytes'', JNat n)]) w of
          (e, w) \<Rightarrow> bindE (mapE api_internal (append_event e w)) (\<lambda>_ w. (Inr (True, j), w)))))"
      by (rule only_files.bindE_respects) (simp_all add: log(1) ev)
    with assms sv Inr show ?thesis by (simp add: publish_upload_def)
  qed
  then have "jobs_of w' = jobs_of v" by (rule only_files_jobs) simp
  moreover have "jobs_of v = jobs_of w \<or> jobs_of v = (jobs_of w)(job_id j \<mapsto> j)"
    using jobs_of_save_in [of j w] sv by auto
  ultimately show ?thesis by simp
qed

text \<open>The two decisions under the lock.\<close>

lemma register_upload_cases:
  assumes "register_upload c j key n w = (r, w')"
  obtains (broken) e where "r = Inl e" "ae_status e = 500" "only_files {} w w'"
  | (named) k e v where "key = Some k" "jobs_of v = jobs_of w" "w' = remove_unregistered_job (job_id j) v"
      "find_job_by_idempotency_key k (job_id j) w = (Inr (Some e), v)"
      "r = (if job_printer_id e = job_printer_id j \<and> job_sha256 e = job_sha256 j then Inr (False, e)
            else Inl (api_conflict ''idempotency_key_reused_for_different_job''))"
  | (full) v where "r = Inl queue_full" "jobs_of v = jobs_of w" "w' = remove_unregistered_job (job_id j) v"
  | (published) v0 v a where "only_files {} w v0" "only_files {} w v" "publish_upload j n v = (r, w')"
      "\<forall>k. key = Some k \<longrightarrow> (\<exists>u. find_job_by_idempotency_key k (job_id j) w = (Inr None, u))"
      "count_active_jobs (job_printer_id j) v0 = (Inr a, v)" "a \<le> unat (cf_max_active_jobs_per_printer c)"
proof -
  obtain q v where q: "(case key of None \<Rightarrow> (Inr None, w)
      | Some k \<Rightarrow> mapE api_internal (find_job_by_idempotency_key k (job_id j) w)) = (q, v)" by fastforce
  have v: "only_files {} w v"
  proof (cases key)
    case None
    with q show ?thesis by (simp add: only_files.refl)
  next
    case (Some k)
    obtain r v' where f: "find_job_by_idempotency_key k (job_id j) w = (r, v')" by fastforce
    have "v' = v" using q Some f by (cases r) simp_all
    with f show ?thesis by (auto simp: find_job_by_idempotency_key_def intro: key_world)
  qed
  show thesis
  proof (cases q)
    case (Inl e)
    then have "ae_status e = 500" using q by (auto simp: mapE_def split: option.splits prod.splits sum.splits)
    moreover have "r = Inl e" "w' = v" using assms q Inl by (simp_all add: register_upload_def Let_def)
    ultimately show thesis using broken v by blast
  next
    case (Inr found)
    show thesis
    proof (cases found)
      case (Some e)
      then obtain k where "key = Some k" "find_job_by_idempotency_key k (job_id j) w = (Inr (Some e), v)"
        using q Inr by (cases key) auto
      with assms q Inr Some show thesis
        by (intro named [of k v e]) (auto simp: register_upload_def Let_def only_files_none_jobs [OF v])
    next
      case None
      obtain a u where ct: "count_active_jobs (job_printer_id j) v = (a, u)" by fastforce
      have u: "only_files {} w u" by (rule only_files.trans [OF v key_world(2) [OF ct]])
      show thesis
      proof (cases a)
        case (Inl e)
        with assms q Inr None ct u show thesis
          by (intro broken [of "api_internal e"]) (simp_all add: register_upload_def Let_def)
      next
        case count: (Inr m)
        show thesis
        proof (cases "m > unat (cf_max_active_jobs_per_printer c)")
          case True
          with assms q Inr None ct count show thesis
            by (intro full [of u]) (simp_all add: register_upload_def Let_def only_files_none_jobs [OF u])
        next
          case False
          have "\<forall>k. key = Some k \<longrightarrow> (\<exists>u. find_job_by_idempotency_key k (job_id j) w = (Inr None, u))"
            using q Inr None by (cases key) auto
          with False assms q Inr None ct count u v show thesis
            by (intro published [of v u m]) (simp_all add: register_upload_def Let_def)
        qed
      qed
    qed
  qed
qed

section \<open>An upload\<close>

abbreviation content_of :: "headers \<Rightarrow> string" where
  "content_of hs \<equiv> (case header_string hs ''content-type'' of None \<Rightarrow> [] | Some v \<Rightarrow> v)"

lemma find_worker_Inr: "find_worker sv pid = Inr x \<longleftrightarrow> (\<exists>wk. sv_workers sv pid = Some (x, wk))"
  by (auto simp: find_worker_def)

lemma admit_upload_cases:
  assumes "admit_upload pf sv pid hs body w = (r, w')"
  obtains (checked) e where "r = Inl e" "w' = w"
  | (received) x :: worker_context and j v e where "new_job pid hs w = (j, v)"
      "receive_payload (pf_codecs pf) (cf_max_job_bytes (sv_config sv)) (pc_device_profile (wc_config x))
         (mime_of (content_of hs)) j body v = (Inl e, w')" "r = Inl e"
  | (registered) x :: worker_context and wk d key j0 v sha n prepared j v1 labels v2 t where
      "sv_workers sv pid = Some (x, wk)" "upload_checks x hs = Inr (d, key)" "new_job pid hs w = (j0, v)"
      "receive_payload (pf_codecs pf) (cf_max_job_bytes (sv_config sv)) (pc_device_profile (wc_config x))
         (mime_of (content_of hs)) j0 body v = (Inr ((sha, n), prepared, j), v1)"
      "label_count d (PayloadFile (job_id j)) prepared (count_header hs) v1 = (labels, v2)"
      "register_upload (sv_config sv)
         (queued_job j t labels (encode_hex (cd_sha256 (pf_codecs pf) sha)) n key) key n (advance v2) = (r, w')"
proof (cases "find_worker sv pid")
  case (Inl e)
  with assms show thesis by (intro checked) (auto simp: admit_upload_def Let_def)
next
  case x: (Inr x)
  then obtain wk where wk: "sv_workers sv pid = Some (x, wk)" by (auto simp: find_worker_Inr)
  show thesis
  proof (cases "upload_checks x hs")
    case (Inl e)
    with x assms show thesis by (intro checked) (auto simp: admit_upload_def Let_def)
  next
    case (Inr dk)
    then obtain d key where dk: "upload_checks x hs = Inr (d, key)" by (cases dk) simp
    obtain j0 v where nj: "new_job pid hs w = (j0, v)" by fastforce
    let ?receive = "receive_payload (pf_codecs pf) (cf_max_job_bytes (sv_config sv)) (pc_device_profile (wc_config x))
         (mime_of (content_of hs)) j0 body v"
    obtain rp v1 where rp: "?receive = (rp, v1)" by fastforce
    show thesis
    proof (cases rp)
      case (Inl e)
      with assms x dk nj rp show thesis
        by (intro received [of j0 v x e]) (simp_all add: admit_upload_def Let_def)
    next
      case (Inr q)
      obtain sha n prepared j where q: "q = ((sha, n), prepared, j)" by (metis prod.collapse)
      obtain labels v2 where lc: "label_count d (PayloadFile (job_id j)) prepared (count_header hs) v1 = (labels, v2)"
        by fastforce
      show thesis
        by (rule registered [OF wk dk nj _ lc]) (use assms x dk nj rp Inr q lc in \<open>simp_all add: admit_upload_def Let_def now_def\<close>)
    qed
  qed
qed

text \<open>What an admitted upload leaves behind.\<close>

definition uploaded :: "platform \<Rightarrow> service \<Rightarrow> string \<Rightarrow> headers \<Rightarrow> body \<Rightarrow> job \<Rightarrow> world \<Rightarrow> bool" where
  "uploaded pf sv pid hs body j w =
     (\<exists>x wk d bs p. sv_workers sv pid = Some (x, wk) \<and> descriptor (pc_driver (wc_config x)) = Some d \<and>
        accepts d (content_of hs) \<and> body_bytes body = Some bs \<and>
        prepare_zebra_payload (pf_codecs pf) (mime_of (content_of hs)) bs (pc_device_profile (wc_config x)) = Inr p \<and>
        lookup (PayloadFile (job_id j)) w = Some (Data (pp_bytes p)) \<and>
        job_payload_path j = Some (PayloadFile (job_id j)) \<and>
        job_sha256 j = Some (encode_hex (cd_sha256 (pf_codecs pf) (bytes_of (mime_of (content_of hs)) @ [0] @ bs))) \<and>
        (\<forall>n. pp_label_count p = Some n \<longrightarrow> job_label_count j = Some n) \<and>
        (pp_label_count p = None \<and> count_header hs \<noteq> None \<longrightarrow> job_label_count j = count_header hs) \<and>
        ((\<forall>c. Inr c \<in> set body \<longrightarrow> length c < 2 ^ 64) \<and> cf_max_job_bytes (sv_config sv) < - 1 \<longrightarrow>
           length bs \<le> unat (cf_max_job_bytes (sv_config sv))))"

lemma upload_checks_Inr:
  "upload_checks x hs = Inr (d, key) \<Longrightarrow> descriptor (pc_driver (wc_config x)) = Some d \<and> accepts d (content_of hs) \<and>
     key = header_string hs ''x-idempotency-key''"
  by (auto simp: upload_checks_def Let_def bindR_Inr split: if_splits)

lemma upload_admitted:
  assumes "admit_upload pf sv pid hs body w = (Inr (True, j), w')"
  shows "own (drawn w) pid j \<and> jobs_of w' (job_id j) = Some j \<and> job_state j = Queued \<and>
     job_idempotency_key j = header_string hs ''x-idempotency-key'' \<and> uploaded pf sv pid hs body j w'"
  using assms
proof (cases rule: admit_upload_cases)
  case (registered x wk d key j0 v sha n prepared i v1 labels v2 t)
  let ?q = "queued_job i t labels (encode_hex (cd_sha256 (pf_codecs pf) sha)) n key"
  from registered(6) obtain u where u: "only_files {} (advance v2) u" "publish_upload ?q n u = (Inr (True, j), w')"
    by (cases rule: register_upload_cases) (simp_all split: if_splits)
  note pub = publish_upload_Inr [OF u(2), of "job_id i"]
  obtain bs p where rp: "body_bytes body = Some bs"
      "prepare_zebra_payload (pf_codecs pf) (mime_of (content_of hs)) bs (pc_device_profile (wc_config x)) = Inr p"
      "prepared = pp_label_count p" "sha = bytes_of (mime_of (content_of hs)) @ [0] @ bs"
      "lookup (PayloadFile (job_id j0)) v1 = Some (Data (pp_bytes p))" "i = j0 \<or> (\<exists>m. i = j0\<lparr>job_bytes := m\<rparr>)"
      "(\<forall>c. Inr c \<in> set body \<longrightarrow> length c < 2 ^ 64) \<and> cf_max_job_bytes (sv_config sv) < - 1 \<longrightarrow>
         length bs \<le> unat (cf_max_job_bytes (sv_config sv))"
    using receive_payload_Inr [OF registered(4)] by blast
  have own: "own (drawn w) pid i" using rp(6) new_job_own(1) [OF registered(3)] by auto
  then have i: "job_id i = job_id j0" "job_printer_id i = pid"
    using rp(6) by (auto simp: own_def)
  have v2: "only_files {} v1 v2"
    using only_files_label_count [of v1 d "PayloadFile (job_id i)" prepared "count_header hs"] registered(5) by simp
  have fl: "lookup (PayloadFile (job_id i)) w' = Some (Data (pp_bytes p))"
    using pub rp(5) i(1) only_files_lookup [OF u(1), of "PayloadFile (job_id i)"]
      only_files_lookup [OF v2, of "PayloadFile (job_id i)"] by simp
  have "(\<forall>n. pp_label_count p = Some n \<longrightarrow> fst labels = Some n) \<and>
      (pp_label_count p = None \<and> count_header hs \<noteq> None \<longrightarrow> fst labels = count_header hs)"
    using registered(5) rp(3) by (auto simp: label_count_def)
  then have "uploaded pf sv pid hs body ?q w'"
    unfolding uploaded_def using registered(1) upload_checks_Inr [OF registered(2)] rp fl
    by (intro exI [of _ x] exI [of _ wk] exI [of _ d] exI [of _ bs] exI [of _ p]) simp
  with pub i own own_id [OF own] upload_checks_Inr [OF registered(2)] show ?thesis by simp
qed simp_all

text \<open>C14: an upload that is admitted is stored as a queued job of its printer, and its payload file
  holds exactly the bytes of the request body, or what the driver makes of them; the body
  was complete and within the limit, its type is one the driver takes, the hash of the job is
  that of type and body, and a label count the driver or the client knows is kept.\<close>

theorem upload_stored:
  assumes "admit_upload pf sv pid hs body w = (Inr (True, j), w')"
  shows "jobs_of w' (job_id j) = Some j \<and> job_state j = Queued \<and> job_printer_id j = pid \<and>
     job_idempotency_key j = header_string hs ''x-idempotency-key'' \<and> uploaded pf sv pid hs body j w'"
  using upload_admitted [OF assms] unfolding own_def by blast

section \<open>Refusals\<close>

definition queued_ids :: "world \<Rightarrow> uuid set" where
  "queued_ids w = {i. \<exists>j. jobs_of w i = Some j \<and> job_state j = Queued}"

lemma queued_ids_same: "jobs_of w' = jobs_of w \<Longrightarrow> queued_ids w' = queued_ids w"
  by (simp add: queued_ids_def)

lemma unqueued_ids:
  assumes "submits jid (\<lambda>j. own jid pid j \<and> job_state j \<noteq> Queued) w w'" and "jobs_of w jid = None"
  shows "queued_ids w' \<subseteq> queued_ids w" "jid \<notin> queued_ids w'"
proof -
  have no: "job_state j \<noteq> Queued" if "jobs_of w' jid = Some j" for j
    using assms that by (auto simp: submits_def)
  then show "jid \<notin> queued_ids w'" by (auto simp: queued_ids_def)
  then show "queued_ids w' \<subseteq> queued_ids w"
    using submits_other [OF assms(1)] by (fastforce simp: queued_ids_def)
qed

lemma receive_unqueued:
  assumes "receive_payload cd mx profile ct j body w = (r, w')" and "own jid pid j" and "job_state j = Receiving"
  shows "submits jid (\<lambda>j. own jid pid j \<and> job_state j \<noteq> Queued) w w'"
proof -
  have "own jid pid j \<and> job_state j \<noteq> Queued" using assms(2,3) by simp
  from unqueued.submits_receive [OF this, of w cd mx profile ct body] show ?thesis by (simp add: assms(1))
qed

lemma upload_refused_ids:
  assumes "admit_upload pf sv pid hs body w = (r, w')" and "jobs_of w (drawn w) = None"
    and "\<forall>j. r \<noteq> Inr (True, j)" and "\<forall>e. r = Inl e \<longrightarrow> ae_status e \<noteq> 500"
  shows "queued_ids w' \<subseteq> queued_ids w"
  using assms(1)
proof (cases rule: admit_upload_cases)
  case checked
  then show ?thesis by simp
next
  case (received x j v e)
  note own = new_job_own [OF received(1)]
  have "submits (drawn w) (\<lambda>j. own (drawn w) pid j \<and> job_state j \<noteq> Queued) v w'"
    by (rule receive_unqueued [OF received(2) own(1,2)])
  then have "submits (drawn w) (\<lambda>j. own (drawn w) pid j \<and> job_state j \<noteq> Queued) w w'"
    by (rule submits.trans [OF submits_none [OF own(3)]])
  with assms(2) show ?thesis by (intro unqueued_ids)
next
  case (registered x wk d key j0 v sha n prepared i v1 labels v2 t)
  note own = new_job_own [OF registered(3)]
  let ?P = "\<lambda>j. own (drawn w) pid j \<and> job_state j \<noteq> Queued"
  have "submits (drawn w) ?P v v1" by (rule receive_unqueued [OF registered(4) own(1,2)])
  moreover have v2: "only_files {} v1 v2"
    using only_files_label_count [of v1 d "PayloadFile (job_id i)" prepared "count_header hs"] registered(5) by simp
  ultimately have "submits (drawn w) ?P w (advance v2)"
    by (meson submits.trans submits_none own(3) submits_advance(1))
  note before = unqueued_ids [OF this assms(2)]
  have gone: "queued_ids (remove_unregistered_job i u) \<subseteq> queued_ids u" for i u
    using unregistered_jobs(1) [of i u] by (auto simp: queued_ids_def split: if_splits)
  from registered(6) show ?thesis
  proof (cases rule: register_upload_cases)
    case (broken e)
    with assms(4) show ?thesis by simp
  next
    case (named k e u)
    with gone [of "job_id i" u] queued_ids_same [OF named(2)] before(1) show ?thesis by auto
  next
    case (full u)
    with gone [of "job_id i" u] queued_ids_same [OF full(2)] before(1) show ?thesis by auto
  next
    case (published u0 u a)
    show ?thesis
    proof (cases r)
      case (Inl e)
      with published(3) publish_upload_Inl assms(4) show ?thesis by blast
    next
      case (Inr bj)
      with published(3) have "fst bj" by (metis prod.collapse publish_upload_Inr)
      with Inr assms(3) show ?thesis by (cases bj) auto
    qed
  qed
qed

text \<open>A hand-over that fails closes the job.\<close>

lemma hand_over_refused:
  assumes "save_job j' u = (Inr x, w')" and "job_state j' \<noteq> Queued" and "queued_ids u \<subseteq> insert (job_id j') A"
  shows "queued_ids w' \<subseteq> A"
  using jobs_of_save_ok [OF assms(1)] assms(2,3) by (auto simp: queued_ids_def split: if_splits)

text \<open>C16: an upload that is answered with an error other than an internal one leaves no new queued
  job: nothing of it will be printed, now or after a restart, provided the thread's hand-over
  queues no other job.\<close>

theorem upload_refused_not_queued:
  assumes "create_job enq pf sv pid hs body w = (Inl e, w')" and "ae_status e \<noteq> 500"
    and "jobs_of w (drawn w) = None" and "\<And>jid v. queued_ids (snd (enq pid jid v)) \<subseteq> queued_ids v"
  shows "queued_ids w' \<subseteq> queued_ids w"
proof -
  obtain r v where ad: "admit_upload pf sv pid hs body w = (r, v)" by fastforce
  show ?thesis
  proof (cases "\<exists>j. r = Inr (True, j)")
    case False
    have "r = Inl e \<and> v = w' \<or> (\<exists>j. r = Inr (False, j))"
      using assms(1) ad False by (cases r) (auto simp: create_job_def split: prod.splits sum.splits)
    with False assms(1,2) ad upload_refused_ids [OF ad assms(3)] show ?thesis
      by (auto simp: create_job_def)
  next
    case True
    then obtain j where j: "r = Inr (True, j)" by blast
    have adm: "own (drawn w) pid j" using upload_admitted ad j by blast
    have id: "job_id j = drawn w" by (rule own_id [OF adm])
    have "submits (drawn w) (own (drawn w) pid) w v" using admit_upload_submits [of w pid pf sv hs body] ad by simp
    then have up: "queued_ids v \<subseteq> insert (job_id j) (queued_ids w)"
      using submits_other id by (fastforce simp: queued_ids_def)
    obtain q u where en: "enq pid (job_id j) v = (q, u)" by fastforce
    obtain x where x: "q = Inl x" using assms(1) ad j en by (cases q) (simp_all add: create_job_def)
    let ?j = "j\<lparr>job_state := Failed, job_error := Some x\<rparr>"
    have sv: "save_job ?j u = (Inr (), w')"
      using assms(1,2) ad j en x by (auto simp: create_job_def bindE_mapE_Inl)
    have "queued_ids u \<subseteq> queued_ids v" using assms(4) [of "job_id j" v] en by simp
    with up show ?thesis by (intro hand_over_refused [OF sv]) auto
  qed
qed

section \<open>Version 2\<close>

lemma publish_v2_Inr:
  assumes "publish_v2_job held j w = (Inr (b, j'), w')"
  shows "b = (\<not> held) \<and> j' = (if held then j\<lparr>job_error := Some ''media_revision_changed''\<rparr> else j) \<and>
     jobs_of w' (job_id j) = Some j' \<and> lookup (PayloadFile k) w' = lookup (PayloadFile k) w"
proof -
  let ?kind = "if held then ''job_held'' else ''job_queued''"
  obtain v3 v4 e v5 v6 d where sv: "save_job j w = (Inr (), v3)" and rg: "register_job (job_id j) v3 = (Inr (), v4)"
      and ev: "next_event ?kind (Some (job_printer_id j)) (Some (job_id j)) d v4 = (e, v5)"
      and ap: "append_event e v5 = (Inr (), v6)"
      and fin: "(if held
        then (let j = j\<lparr>job_error := Some ''media_revision_changed''\<rparr>
              in bindE (mapE v2_internal (save_job j v6)) (\<lambda>_ w. (Inr (False, j), w)))
        else (Inr (True, j), v6)) = (Inr (b, j'), w')"
    using assms by (auto simp: publish_v2_job_def bindE_Inr_iff split_beta) (metis prod.collapse)+
  have "jobs_of v3 (job_id j) = Some j" "lookup (PayloadFile k) v3 = lookup (PayloadFile k) w"
    using save_job_Inr [OF sv] by auto
  with logged_jobs(1) [OF rg] logged_jobs(3) [OF ev] logged_jobs(2) [OF ap]
  have v6: "jobs_of v6 (job_id j) = Some j" "lookup (PayloadFile k) v6 = lookup (PayloadFile k) w" by simp_all
  show ?thesis
  proof (cases held)
    case True
    let ?j = "j\<lparr>job_error := Some ''media_revision_changed''\<rparr>"
    have sv: "save_job ?j v6 = (Inr (), w')" using fin True by (auto simp: Let_def bindE_Inr_iff)
    from save_job_Inr [OF sv, of k] fin True v6 show ?thesis by (auto simp: Let_def bindE_Inr_iff)
  next
    case False
    with fin v6 show ?thesis by auto
  qed
qed

lemma publish_v2_Inl: "publish_v2_job held j w = (Inl e, w') \<Longrightarrow> ae_status e = 500"
  by (auto simp: publish_v2_job_def bindE_mapE_Inl split_beta Let_def split: if_splits)

lemma store_v2_cases:
  assumes "store_v2_job held j bs w = (r, w')"
  obtains (broken) e where "r = Inl e" "ae_status e = 500"
  | (published) v1 v2 t where
      "persist_v2_payload (SpoolFile (job_id j)) (PayloadFile (job_id j)) bs v1 = (Inr (), v2)"
      "publish_v2_job held (stored_v2_job held j t) (advance v2) = (r, w')"
proof -
  obtain s v1 where sv: "save_job j w = (s, v1)" by fastforce
  obtain q v2 where ps: "persist_v2_payload (SpoolFile (job_id j)) (PayloadFile (job_id j)) bs v1 = (q, v2)"
    by fastforce
  show thesis
  proof (cases s)
    case (Inl e)
    with assms sv show thesis by (intro broken [of "v2_internal e"]) (simp_all add: store_v2_job_def)
  next
    case stored: (Inr u)
    show thesis
    proof (cases q)
      case (Inl e)
      with assms sv stored ps show thesis by (intro broken [of "v2_internal e"]) (simp_all add: store_v2_job_def)
    next
      case (Inr u')
      with assms sv stored ps show thesis
        by (intro published [of v1 v2 "env_utc (w_env v2) (w_tick v2)"]) (simp_all add: store_v2_job_def now_def)
    qed
  qed
qed

lemma store_v2_Inl: "store_v2_job held j bs w = (Inl e, w') \<Longrightarrow> ae_status e = 500"
  by (erule store_v2_cases) (auto dest: publish_v2_Inl)

lemma persist_v2_Inr:
  assumes "persist_v2_payload (SpoolFile jid) (PayloadFile jid) bs w = (Inr u, w')"
  shows "lookup (PayloadFile jid) w' = Some (Data bs)"
proof -
  obtain v1 v2 v3 where cf: "create_file (SpoolFile jid) w = (Inr (), v1)" and wr: "write_all (SpoolFile jid) bs v1 = (Inr (), v2)"
      and rn: "rename_file (SpoolFile jid) (PayloadFile jid) (advance v2) = (Inr (), v3)" and w': "w' = advance v3"
    using assms by (auto simp: persist_v2_payload_def bindE_Inr_iff sync_call_def)
  have "lookup (SpoolFile jid) v2 = Some (Data bs)" using write_all_Inr [OF wr create_file_Inr [OF cf]] by simp
  with rn w' show ?thesis by (auto simp: rename_file_def bindE_Inr_iff split: option.splits)
qed

lemma store_v2_Inr:
  assumes "store_v2_job held j bs w = (Inr (b, j'), w')"
  shows "\<exists>t. b = (\<not> held) \<and> jobs_of w' (job_id j) = Some j' \<and> lookup (PayloadFile (job_id j)) w' = Some (Data bs) \<and>
     j' = (if held then (stored_v2_job held j t)\<lparr>job_error := Some ''media_revision_changed''\<rparr> else stored_v2_job held j t)"
  using assms
proof (cases rule: store_v2_cases)
  case (published v1 v2 t)
  from publish_v2_Inr [OF published(2), of "job_id j"] persist_v2_Inr [OF published(1)] show ?thesis
    by (intro exI [of _ t]) simp
qed simp

end
