(* ===== verification/Idempotency.thy ===== *)
theory Idempotency
  imports Admission_Results
begin

text \<open>
  Version 2 submissions and the two promises that span submissions: a key names one job,
  however often a request is repeated, and a printer has at most the configured number of
  active jobs when one is admitted.
\<close>

section \<open>A version 2 submission\<close>

lemma v2_find_worker_Inr: "v2_find_worker sv pid = Inr x \<longleftrightarrow> (\<exists>wk. sv_workers sv pid = Some (x, wk))"
  by (auto simp: v2_find_worker_def)

lemma reads_revision: "revision_changed pf pid e w = (r, w') \<Longrightarrow> reads w w'"
proof -
  have "reads w (snd (revision_changed pf pid e w))"
    by (auto simp: revision_changed_def intro!: reads.bindE_respects split: option.split)
  then show "revision_changed pf pid e w = (r, w') \<Longrightarrow> reads w w'" by simp
qed

lemma reads_keys:
  "find_job_by_idempotency_key_inner key ex w = (r, w') \<Longrightarrow> reads w w'"
  "count_active_jobs q w = (r', w') \<Longrightarrow> reads w w'"
  by (metis reads_scans(2) snd_conv, metis reads_scans(1) snd_conv)

lemma admit_v2_cases:
  assumes "admit_v2 pf sv pid hs r w = (res, w')"
  obtains (refused) e where "res = Inl e" "reads w w'"
  | (existing) x :: worker_context and wk p e v where "res = Inr (False, e)" "reads w v"
      "sv_workers sv pid = Some (x, wk)" "prepare_job (pf_codecs pf) pid r (pc_device_profile (wc_config x)) = Inr p"
      "find_job_by_idempotency_key_any (sj_idempotency_key r) v = (Inr (Some e), w')"
      "job_printer_id e = pid" "job_sha256 e = Some (pj_request_hash p)"
  | (stored) x :: worker_context and wk p held v v1 a v2 j v3 where
      "authorized (sv_config sv) hs PrintScope" "sv_workers sv pid = Some (x, wk)"
      "revision_changed pf pid (sj_media_revision r) w = (Inr held, v)"
      "prepare_job (pf_codecs pf) pid r (pc_device_profile (wc_config x)) = Inr p"
      "find_job_by_idempotency_key_any (sj_idempotency_key r) v = (Inr None, v1)"
      "count_active_jobs pid v1 = (Inr a, v2)" "a < unat (cf_max_active_jobs_per_printer (sv_config sv))"
      "new_v2_job pid r p v2 = (j, v3)" "store_v2_job held j (pj_bytes p) v3 = (res, w')"
proof (cases "authorized (sv_config sv) hs PrintScope")
  case False
  with assms show thesis by (intro refused) (auto simp: admit_v2_def v2_authorize_def)
next
  case auth: True
  show thesis
  proof (cases "v2_find_worker sv pid")
    case (Inl e)
    with assms auth show thesis by (intro refused) (auto simp: admit_v2_def v2_authorize_def)
  next
    case x: (Inr x)
    then obtain wk where wk: "sv_workers sv pid = Some (x, wk)" by (auto simp: v2_find_worker_Inr)
    obtain rv v where rv: "revision_changed pf pid (sj_media_revision r) w = (rv, v)" by fastforce
    note v = reads_revision [OF rv]
    let ?prep = "prepare_job (pf_codecs pf) pid r (pc_device_profile (wc_config x))"
    show thesis
    proof (cases "\<exists>held p. rv = Inr held \<and> ?prep = Inr p")
      case False
      show thesis
      proof (cases rv)
        case (Inl e)
        with assms auth x rv v show thesis
          by (intro refused [of e]) (simp_all add: admit_v2_def v2_authorize_def)
      next
        case (Inr held)
        with False obtain e where "?prep = Inl e" by (cases ?prep) auto
        with Inr assms auth x rv v show thesis
          by (intro refused [of "v2_bad_request e"]) (simp_all add: admit_v2_def v2_authorize_def)
      qed
    next
      case True
      then obtain held p where held: "rv = Inr held" and p: "?prep = Inr p" by blast
      obtain f v1 where f: "find_job_by_idempotency_key_any (sj_idempotency_key r) v = (f, v1)" by fastforce
      have v1: "reads v v1" using f by (auto simp: find_job_by_idempotency_key_any_def intro: reads_keys)
      note wv1 = reads.trans [OF v v1]
      note run = assms auth x rv held p f
      show thesis
      proof (cases f)
        case (Inl e)
        with run wv1 show thesis by (intro refused [of "v2_internal e"]) (simp_all add: admit_v2_def v2_authorize_def)
      next
        case found: (Inr fo)
        show thesis
        proof (cases fo)
          case (Some e)
          show thesis
          proof (cases "job_printer_id e = pid \<and> job_sha256 e = Some (pj_request_hash p)")
            case True
            with run found Some v wk show thesis
              by (intro existing [of e v x wk p]) (simp_all add: admit_v2_def v2_authorize_def)
          next
            case False
            with run found Some wv1 show thesis
              by (intro refused) (auto simp: admit_v2_def v2_authorize_def)
          qed
        next
          case None
          obtain ct v2 where ct: "count_active_jobs pid v1 = (ct, v2)" by fastforce
          note wv2 = reads.trans [OF wv1 reads_keys(2) [OF ct]]
          show thesis
          proof (cases "\<exists>a. ct = Inr a \<and> a < unat (cf_max_active_jobs_per_printer (sv_config sv))")
            case False
            show thesis
              proof (cases ct)
                case (Inl e)
                with run found None ct wv2 show thesis
                  by (intro refused [of "v2_internal e"]) (simp_all add: admit_v2_def v2_authorize_def)
              next
                case (Inr a)
                with False have "\<not> a < unat (cf_max_active_jobs_per_printer (sv_config sv))" by simp
                with Inr run found None ct wv2 show thesis
                  by (intro refused [of queue_full]) (simp_all add: admit_v2_def v2_authorize_def)
              qed
          next
            case True
            then obtain a where a: "ct = Inr a" "a < unat (cf_max_active_jobs_per_printer (sv_config sv))" by blast
            obtain j v3 where nj: "new_v2_job pid r p v2 = (j, v3)" by fastforce
            show thesis
              by (rule stored [OF auth wk _ p _ _ a(2) nj])
                 (use run found None ct a nj in \<open>simp_all add: admit_v2_def v2_authorize_def\<close>)
          qed
        qed
      qed
    qed
  qed
qed

lemma reads_simps:
  assumes "reads w w'"
  shows "jobs_of w' = jobs_of w" "lookup p w' = lookup p w" "quiet w \<Longrightarrow> quiet w'"
    "env_uuid (w_env w') = env_uuid (w_env w)" "wf_files w \<Longrightarrow> wf_files w'"
proof -
  have f: "only_files {} w w'" using assms by (simp add: reads_def)
  show "jobs_of w' = jobs_of w" by (rule only_files_none_jobs [OF f])
  show "lookup p w' = lookup p w" using only_files_lookup [OF f, of p] by simp
  show "quiet w \<Longrightarrow> quiet w'" by (rule quiet_only_files [OF _ f])
  show "env_uuid (w_env w') = env_uuid (w_env w)" "wf_files w \<Longrightarrow> wf_files w'"
    using f by (simp_all add: only_files_def)
qed

text \<open>The roll a request names is the one that is loaded.\<close>

definition expected_media :: "platform \<Rightarrow> string \<Rightarrow> submit_job \<Rightarrow> world \<Rightarrow> bool" where
  "expected_media pf pid r w =
     (\<forall>rev. sj_media_revision r = Some rev \<longrightarrow>
        (\<exists>m. fst (load_media pid w) = Inr (Some m) \<and> media_revision (pf_digest pf) m = rev))"

lemma revision_expected:
  "revision_changed pf pid (sj_media_revision r) w = (Inr False, v) \<Longrightarrow> expected_media pf pid r w"
  by (auto simp: revision_changed_def expected_media_def bindE_Inr_iff split: option.splits)

text \<open>C8: a version 2 job that goes to the thread was submitted with a token of the print scope; if
  the request names a revision of the media, that is the revision of the roll that is loaded;
  and the job is stored as queued, with the key of the request, and its payload file holds
  exactly the prepared artifacts.\<close>

theorem v2_job_stored:
  assumes "admit_v2 pf sv pid hs r w = (Inr (True, j), w')"
  shows "jobs_of w' (job_id j) = Some j \<and> job_state j = Queued \<and> job_printer_id j = pid \<and>
     job_idempotency_key j = Some (sj_idempotency_key r) \<and>
     authorized (sv_config sv) hs PrintScope \<and> expected_media pf pid r w \<and>
     (\<exists>x wk p. sv_workers sv pid = Some (x, wk) \<and>
        prepare_job (pf_codecs pf) pid r (pc_device_profile (wc_config x)) = Inr p \<and>
        lookup (PayloadFile (job_id j)) w' = Some (Data (pj_bytes p)) \<and>
        job_sha256 j = Some (pj_request_hash p) \<and> job_label_count j = Some (pj_label_count p))"
  using assms
proof (cases rule: admit_v2_cases)
  case (stored x wk p held v v1 a v2 i v3)
  obtain t where st: "\<not> held" "jobs_of w' (job_id i) = Some j"
      "lookup (PayloadFile (job_id i)) w' = Some (Data (pj_bytes p))" "j = stored_v2_job held i t"
    using store_v2_Inr [OF stored(9)] by auto
  note i = new_v2_job_own [OF stored(8)]
  have j: "job_id j = job_id i" "job_printer_id j = pid" "job_state j = Queued"
      "job_idempotency_key j = Some (sj_idempotency_key r)" "job_sha256 j = Some (pj_request_hash p)"
      "job_label_count j = Some (pj_label_count p)"
    using st(1,4) i by (simp_all add: own_def)
  have "expected_media pf pid r w" using revision_expected stored(3) st(1) by (cases held) auto
  with stored(1,2,4) st j show ?thesis by auto
qed simp_all

lemma v2_admitted:
  assumes "admit_v2 pf sv pid hs r w = (Inr (True, j), w')"
  obtains k where "w_tick w \<le> k" "job_id j = env_uuid (w_env w) k" "submits (job_id j) (own (job_id j) pid) w w'"
  using assms
proof (cases rule: admit_v2_cases)
  case (stored x wk p held v v1 a v2 i v3)
  note i = new_v2_job_own [OF stored(8)]
  have j: "job_id j = job_id i" using store_v2_Inr [OF stored(9)] by auto
  have r: "reads w v2"
    using reads.trans [OF reads_revision [OF stored(3)] reads.trans [OF reads_keys(1) reads_keys(2) [OF stored(6)]]]
      stored(5) by (simp add: find_job_by_idempotency_key_any_def)
  have id: "job_id i = drawn v2" by (rule own_id [OF i(1)])
  have "submits (drawn v2) (own (drawn v2) pid) v3 w'"
    using kept_v2.submits_store_v2 [OF i(1), of v3 held "pj_bytes p"] stored(9) by simp
  moreover have "only_files {} w v2" using r by (simp add: reads_def)
  then have "only_files {} w v3" by (rule only_files.trans [OF _ i(3)])
  ultimately have "submits (drawn v2) (own (drawn v2) pid) w w'"
    using submits.trans [OF submits_none] by blast
  moreover have "w_tick w \<le> w_tick v2" "env_uuid (w_env v2) = env_uuid (w_env w)"
    using r reads_simps(4) [OF r] by (simp_all add: reads_def)
  ultimately show thesis using that [of "w_tick v2"] j id by simp
qed simp_all

text \<open>C12: a version 2 submission that is answered with an error other than an internal one leaves no
  new queued job, provided the hand-over to the thread queues no other job, as is the case
  for the threads of the service (lemma \<open>enqueue_thread_queues_nothing\<close> in \<open>Contracts\<close>).\<close>

theorem v2_refused_not_queued:
  assumes "v2_create_job enq pf sv pid hs r w = (Inl e, w')" and "ae_status e \<noteq> 500"
    and "\<And>jid v. queued_ids (snd (enq pid jid v)) \<subseteq> queued_ids v"
  shows "queued_ids w' \<subseteq> queued_ids w"
proof -
  obtain a v where ad: "admit_v2 pf sv pid hs r w = (a, v)" by fastforce
  show ?thesis
  proof (cases "\<exists>j. a = Inr (True, j)")
    case False
    then have "a = Inl e" "v = w'"
      using assms(1) ad by (cases a; auto simp: v2_create_job_def split: if_splits prod.splits)+
    with ad have ad': "admit_v2 pf sv pid hs r w = (Inl e, w')" by simp
    from ad' show ?thesis
    proof (cases rule: admit_v2_cases)
      case (refused e')
      then show ?thesis using reads_simps(1) queued_ids_same by blast
    next
      case (stored x wk p held u v1 b v2 i v3)
      with store_v2_Inl assms(2) show ?thesis by blast
    qed simp_all
  next
    case True
    then obtain j where j: "a = Inr (True, j)" by blast
    obtain q u where en: "enq pid (job_id j) v = (q, u)" by fastforce
    obtain x where x: "q = Inl x" using assms(1) ad j en by (cases q) (simp_all add: v2_create_job_def)
    let ?j = "j\<lparr>job_state := Failed, job_updated_at := env_utc (w_env u) (w_tick u), job_error := Some x\<rparr>"
    have sv: "save_job ?j (advance u) = (Inr (), w')"
      using assms(1,2) ad j en x by (auto simp: v2_create_job_def bindE_mapE_Inl now_def Let_def)
    have "queued_ids v \<subseteq> insert (job_id j) (queued_ids w)"
    proof -
      obtain k where k: "submits (job_id j) (own (job_id j) pid) w v"
        using v2_admitted ad j by blast
      show ?thesis using submits_other [OF k] by (fastforce simp: queued_ids_def)
    qed
    moreover have "queued_ids u \<subseteq> queued_ids v" using assms(3) [of "job_id j" v] en by simp
    ultimately show ?thesis
      by (intro hand_over_refused [OF sv]) (auto simp: queued_ids_same [of "advance u" u])
  qed
qed

section \<open>A key names one job\<close>

definition holders :: "string \<Rightarrow> world \<Rightarrow> uuid set" where
  "holders key w = {i. \<exists>j. jobs_of w i = Some j \<and> answers_key key None j}"

definition keys_unique :: "world \<Rightarrow> bool" where
  "keys_unique w = (\<forall>key i i'. i \<in> holders key w \<and> i' \<in> holders key w \<longrightarrow> i = i')"

lemma keys_unique_same: "jobs_of w' = jobs_of w \<Longrightarrow> keys_unique w' = keys_unique w"
  by (simp add: keys_unique_def holders_def)

lemma keys_unique_removed: "jobs_of w' = (jobs_of w)(jid := None) \<Longrightarrow> keys_unique w \<Longrightarrow> keys_unique w'"
  by (auto simp: keys_unique_def holders_def split: if_splits)

lemma keys_unique_new:
  assumes "keys_unique w" and other: "\<And>i. i \<noteq> jid \<Longrightarrow> jobs_of w' i = jobs_of w i"
    and new: "\<And>key j. jobs_of w' jid = Some j \<Longrightarrow> answers_key key None j \<Longrightarrow> holders key w \<subseteq> {jid}"
  shows "keys_unique w'"
proof -
  have old: "i \<in> holders key w" if "i \<in> holders key w'" "i \<noteq> jid" for key i
    using that other by (simp add: holders_def)
  have at: "holders key w \<subseteq> {jid}" if "jid \<in> holders key w'" for key
    using that new by (auto simp: holders_def)
  show ?thesis
    unfolding keys_unique_def
  proof (intro allI impI, elim conjE)
    fix key i i' assume "i \<in> holders key w'" "i' \<in> holders key w'"
    with old at assms(1) show "i = i'" unfolding keys_unique_def by (metis singletonD subsetD)
  qed
qed

lemma find_none:
  assumes "find_job_by_idempotency_key_inner key ex w = (Inr None, w')" and "quiet w"
    and "jobs_of w i = Some j"
  shows "\<not> answers_key key ex j"
proof -
  have "find (answers_key key ex) (all_jobs w) = None"
    using find_key_quiet [OF assms(2), of key ex] assms(1) by auto
  moreover have "j \<in> set (all_jobs w)" using assms(3) by (auto simp: set_all_jobs)
  ultimately show ?thesis by (auto simp: find_None_iff)
qed

lemma answers_excluded: "answers_key key (Some i) j \<longleftrightarrow> answers_key key None j \<and> job_id j \<noteq> i"
  by (auto simp: answers_key_def)

lemma answers_own_key: "answers_key key ex j \<Longrightarrow> job_idempotency_key j = Some key"
  by (simp add: answers_key_def)

lemma upload_keys_unique:
  assumes "quiet w" and "jobs_keyed w" and "keys_unique w" and "jobs_of w (drawn w) = None"
  shows "keys_unique (snd (admit_upload pf sv pid hs body w))"
proof -
  let ?P = "\<lambda>j. own (drawn w) pid j \<and> job_idempotency_key j = None"
  have keyless: "keys_unique u \<and> jobs_keyed u \<and> quiet u \<and> (\<forall>j. jobs_of u (drawn w) = Some j \<longrightarrow> ?P j)"
    if sub: "submits (drawn w) ?P w u" for u
  proof -
    have at: "?P j" if "jobs_of u (drawn w) = Some j" for j
      using sub assms(4) that by (auto simp: submits_def)
    have "keys_unique u"
      by (rule keys_unique_new [OF assms(3) submits_other [OF sub]]) (use at answers_own_key in fastforce)+
    moreover have "submits (drawn w) (own (drawn w) pid) w u" using sub assms(4) at by (auto simp: submits_def)
    then have "jobs_keyed u" using submits_evolves assms(2,4) by (auto simp: evolves_def)
    moreover have "quiet u" using sub assms(1) quiet_only_files by (auto simp: submits_def)
    ultimately show ?thesis using at by blast
  qed
  obtain r w' where ad: "admit_upload pf sv pid hs body w = (r, w')" by fastforce
  have receive: "submits (drawn w) ?P v v'"
    if "new_job pid hs w = (j, v)" "receive_payload cd mx profile ct j body v = (q, v')" for j v cd mx profile ct q v'
  proof -
    have "?P j" using that(1) new_job_own(1) [OF that(1)] by (auto simp: new_job_def new_uuid_def now_def Let_def)
    from keyless.submits_receive [OF this, of v cd mx profile ct body] that(2) show ?thesis by simp
  qed
  from ad have "keys_unique w'"
  proof (cases rule: admit_upload_cases)
    case (checked e)
    then show ?thesis using assms(3) by simp
  next
    case (received x j v e)
    from submits.trans [OF submits_none [OF new_job_own(3) [OF received(1)]] receive [OF received(1,2)]] keyless
    show ?thesis by blast
  next
    case (registered x wk d key j0 v sha n prepared i v1 labels v2 t)
    let ?q = "queued_job i t labels (encode_hex (cd_sha256 (pf_codecs pf) sha)) n key"
    have v2: "only_files {} v1 v2"
      using only_files_label_count [of v1 d "PayloadFile (job_id i)" prepared "count_header hs"] registered(5) by simp
    have sub: "submits (drawn w) ?P w (advance v2)"
      using submits.trans [OF submits_none [OF new_job_own(3) [OF registered(3)]]
          submits.trans [OF receive [OF registered(3,4)] submits.trans [OF submits_none [OF v2] submits_advance(1)]]] .
    note before = keyless [OF sub]
    have id: "job_id ?q = drawn w"
      using receive_payload_Inr [OF registered(4)] new_job_own(1) [OF registered(3)] by (auto simp: own_def)
    have gone: "keys_unique (remove_unregistered_job k u)" if "jobs_of u = jobs_of (advance v2)" for k u
      using unregistered_jobs(1) [of k u] keys_unique_same [OF that] before
        keys_unique_same [of "remove_unregistered_job k u" u] keys_unique_removed [of _ u] by auto
    from registered(6) show ?thesis
    proof (cases rule: register_upload_cases)
      case (broken e)
      then show ?thesis using keys_unique_same [OF only_files_none_jobs] before by blast
    next
      case (named k e u)
      then show ?thesis using gone by simp
    next
      case (full u)
      then show ?thesis using gone by simp
    next
      case (published u0 u a)
      have u: "jobs_of u = jobs_of (advance v2)" by (rule only_files_none_jobs [OF published(2)])
      have "keys_unique u" using before keys_unique_same [OF u] by simp
      moreover have "holders k u \<subseteq> {drawn w}" if hk: "key = Some k" for k
      proof
        fix l assume "l \<in> holders k u"
        then obtain j where j: "jobs_of (advance v2) l = Some j" "answers_key k None j"
          unfolding holders_def u by blast
        obtain f where "find_job_by_idempotency_key_inner k (Some (drawn w)) (advance v2) = (Inr None, f)"
          using published(4) hk unfolding id by (auto simp: find_job_by_idempotency_key_def)
        from find_none [OF this _ j(1)] before j(2) have "job_id j = drawn w" by (simp add: answers_excluded)
        moreover have "job_id j = l" using before j(1) by (simp add: jobs_keyed_def)
        ultimately show "l \<in> {drawn w}" by simp
      qed
      ultimately have "keys_unique x" if x: "jobs_of x = (jobs_of u)(drawn w \<mapsto> ?q)" for x
        using keys_unique_new [of u "drawn w" x] x answers_own_key by fastforce
      with publish_upload_jobs [OF published(3)] \<open>keys_unique u\<close> keys_unique_same show ?thesis
        unfolding id by blast
    qed
  qed
  with ad show ?thesis by simp
qed

lemma v2_keys_unique:
  assumes "quiet w" and "jobs_keyed w" and "keys_unique w" and "fresh_ids w"
  shows "keys_unique (snd (admit_v2 pf sv pid hs r w))"
proof -
  obtain res w' where ad: "admit_v2 pf sv pid hs r w = (res, w')" by fastforce
  from ad have "keys_unique w'"
  proof (cases rule: admit_v2_cases)
    case (refused e)
    then show ?thesis using assms(3) keys_unique_same reads_simps(1) by blast
  next
    case (existing x wk p e v)
    have "reads w w'"
      using reads.trans [OF existing(2) reads_keys(1)] existing(5) by (simp add: find_job_by_idempotency_key_any_def)
    then have "jobs_of w' = jobs_of w" by (rule reads_simps(1))
    then show ?thesis using assms(3) keys_unique_same by blast
  next
    case (stored x wk p held v v1 a v2 j v3)
    note j = new_v2_job_own [OF stored(8)]
    note wv = reads_revision [OF stored(3)]
    have fv: "find_job_by_idempotency_key_inner (sj_idempotency_key r) None v = (Inr None, v1)"
      using stored(5) by (simp add: find_job_by_idempotency_key_any_def)
    have wv2: "reads w v2" by (rule reads.trans [OF wv reads.trans [OF reads_keys(1) [OF fv] reads_keys(2) [OF stored(6)]]])
    have jobs: "jobs_of v3 = jobs_of w"
      using only_files_none_jobs [OF j(3)] reads_simps(1) [OF wv2] by simp
    let ?P = "\<lambda>j. own (drawn v2) pid j \<and> job_idempotency_key j = Some (sj_idempotency_key r)"
    have sub: "submits (drawn v2) ?P v3 w'"
      using keyed_v2.submits_store_v2 [of "drawn v2" pid j "sj_idempotency_key r" v3 held "pj_bytes p"] j(1,4) stored(9)
      by simp
    have fresh: "jobs_of w (drawn v2) = None"
      using assms(4) wv2 reads_simps(4) [OF wv2] by (simp add: fresh_ids_def reads_def)
    have "\<not> answers_key (sj_idempotency_key r) None i" if "jobs_of w l = Some i" for l i
      using find_none [OF fv reads_simps(3) [OF wv assms(1)]] that reads_simps(1) [OF wv] by simp
    then have none: "holders (sj_idempotency_key r) w = {}" by (auto simp: holders_def)
    show ?thesis
    proof (rule keys_unique_new [OF assms(3), of "drawn v2"])
      show "jobs_of w' i = jobs_of w i" if "i \<noteq> drawn v2" for i
        using submits_other [OF sub that] jobs by simp
      show "holders key w \<subseteq> {drawn v2}" if "jobs_of w' (drawn v2) = Some i" "answers_key key None i" for key i
      proof -
        have "?P i" using sub jobs fresh that(1) by (auto simp: submits_def)
        with answers_own_key [OF that(2)] none show ?thesis by simp
      qed
    qed
  qed
  with ad show ?thesis by simp
qed

text \<open>C11: while the file calls succeed and new identifiers are fresh, an idempotency key names at
  most one job: no submission of either version, whatever it is answered, makes a second job
  that answers a key. (When a job file cannot be read the scan passes over it.)\<close>

theorem keys_stay_unique:
  assumes "quiet w" and "jobs_keyed w" and "fresh_ids w" and "keys_unique w"
  shows "keys_unique (snd (admit_upload pf sv pid hs body w)) \<and> keys_unique (snd (admit_v2 pf sv pid' hs' r w))"
  using upload_keys_unique [OF assms(1,2,4)] v2_keys_unique [OF assms(1,2,4,3)] assms(3)
  by (simp add: fresh_ids_def)

section \<open>Repeated requests\<close>

text \<open>C10: while the file calls succeed, a version 2 request that is repeated is answered with the job
  it made: if a stored job of the printer answers the key, no other does, its hash is that of
  the request, and the loaded roll can be read in case the request names a revision, the
  answer is that job as it is now, nothing is written and nothing is handed to the thread.\<close>

theorem v2_retry_returns_job:
  assumes "quiet w" and "keys_unique w" and "jobs_of w i = Some j" and "job_printer_id j = pid"
    and key: "job_idempotency_key j = Some (sj_idempotency_key r)" "job_sha256 j = Some (pj_request_hash p)"
    and auth: "authorized (sv_config sv) hs PrintScope" and wk: "sv_workers sv pid = Some (x, k)"
    and prep: "prepare_job (pf_codecs pf) pid r (pc_device_profile (wc_config x)) = Inr p"
    and media: "sj_media_revision r = None \<or> is_ok (fst (load_media pid w))"
  shows "\<exists>w'. v2_create_job enq pf sv pid hs r w = (Inr (v2_job_value j), w') \<and> only_files {} w w'"
proof -
  obtain rv v where rv: "revision_changed pf pid (sj_media_revision r) w = (rv, v)" by fastforce
  note wv = reads_revision [OF rv]
  obtain held where held: "rv = Inr held"
  proof (cases "sj_media_revision r")
    case None
    then have "rv = Inr False" using rv by (simp add: revision_changed_def)
    then show thesis by (rule that)
  next
    case (Some e)
    then obtain m u where "load_media pid w = (Inr m, u)"
      using media by (cases "load_media pid w") (auto simp: is_ok_def split: sum.splits)
    then have "rv = Inr (map_option (media_revision (pf_digest pf)) m \<noteq> Some e)"
      using rv Some by (simp add: revision_changed_def)
    then show thesis by (rule that)
  qed
  have jobs: "jobs_of v = jobs_of w" by (rule reads_simps(1) [OF wv])
  obtain v1 where f: "find_job_by_idempotency_key_inner (sj_idempotency_key r) None v =
      (Inr (find (answers_key (sj_idempotency_key r) None) (all_jobs v)), v1)"
    using find_key_quiet [OF reads_simps(3) [OF wv assms(1)]] by blast
  have ans: "answers_key (sj_idempotency_key r) None j" using key by (simp add: answers_key_def)
  have "find (answers_key (sj_idempotency_key r) None) (all_jobs v) = Some j"
  proof -
    have "j \<in> set (all_jobs v)" using assms(3) jobs by (auto simp: set_all_jobs)
    then obtain j' where j': "find (answers_key (sj_idempotency_key r) None) (all_jobs v) = Some j'"
      using ans by (cases "find (answers_key (sj_idempotency_key r) None) (all_jobs v)") (auto simp: find_None_iff)
    then have "j' \<in> set (all_jobs v)" "answers_key (sj_idempotency_key r) None j'"
      using find_Some_first [OF j'] by simp_all
    then obtain i' where i': "jobs_of w i' = Some j'" using jobs by (auto simp: set_all_jobs)
    have "i' = i"
      using assms(2,3) ans i' \<open>answers_key (sj_idempotency_key r) None j'\<close>
      unfolding keys_unique_def holders_def by blast
    with i' assms(3) j' show ?thesis by simp
  qed
  then have run: "admit_v2 pf sv pid hs r w = (Inr (False, j), v1)"
    using auth wk rv held prep f assms(4) key(2)
    by (simp add: admit_v2_def v2_authorize_def v2_find_worker_def find_job_by_idempotency_key_any_def)
  have "only_files {} w v1" using reads.trans [OF wv reads_keys(1) [OF f]] by (simp add: reads_def)
  with run show ?thesis by (simp add: v2_create_job_def)
qed

end
