(* ===== verification/Acceptance.thy ===== *)
theory Acceptance
  imports Idempotency
begin

text \<open>
  Submissions are accepted: on a data directory whose calls succeed, a well-formed request is
  admitted as long as the printer has fewer active jobs than configured. The theory closes
  with concrete requests, on which the properties of submissions are evaluated.
\<close>

section \<open>Operations that succeed\<close>

definition live :: "world \<Rightarrow> bool" where
  "live w = (quiet w \<and> no_tmp w)"

text \<open>The run \<open>m\<close> succeeds and leaves a data directory whose calls succeed.\<close>

definition succeeds :: "('e + 'a) \<times> world \<Rightarrow> bool" where
  "succeeds m = (\<exists>x w'. m = (Inr x, w') \<and> live w')"

named_theorems live_intro "operations that succeed while calls do"

lemma succeeds_bind [live_intro]:
  "succeeds m \<Longrightarrow> (\<And>x w'. m = (Inr x, w') \<Longrightarrow> live w' \<Longrightarrow> succeeds (f x w')) \<Longrightarrow> succeeds (bindE m f)"
  by (auto simp: succeeds_def)

lemma succeeds_mapE [live_intro]: "succeeds m \<Longrightarrow> succeeds (mapE f m)"
  by (auto simp: succeeds_def)

lemma succeeds_or_fail [live_intro]: "succeeds m \<Longrightarrow> succeeds (or_fail j m)"
  by (auto simp: succeeds_def or_fail_def)

lemma succeeds_Inr [live_intro]: "live w \<Longrightarrow> succeeds (Inr x, w)"
  by (simp add: succeeds_def)

lemma succeedsE: "succeeds m \<Longrightarrow> (\<And>x w'. m = (Inr x, w') \<Longrightarrow> live w' \<Longrightarrow> R) \<Longrightarrow> R"
  by (auto simp: succeeds_def)

lemma live_advance [simp]: "live (advance w) = live w"
  by (simp add: live_def quiet_def no_tmp_def lookup_def)

lemma live_put: "live w \<Longrightarrow> \<not> is_tmp p \<Longrightarrow> live (put p c w)"
  by (auto simp: live_def no_tmp_def)

lemma live_only_files: "only_files P w w' \<Longrightarrow> \<forall>p \<in> P. \<not> is_tmp p \<Longrightarrow> live w \<Longrightarrow> live w'"
  using quiet_only_files [of w P w'] tidy_only_files [of P w w'] by (simp add: live_def tidy_def)

lemma live_reads: "reads w w' \<Longrightarrow> live w \<Longrightarrow> live w'"
  by (rule live_only_files [of "{}"]) (simp_all add: reads_def)

lemma succeeds_sys: "live w \<Longrightarrow> succeeds (sys w)"
  by (simp add: succeeds_def live_def sys_quiet quiet_def no_tmp_def lookup_def)

lemma succeeds_calls [live_intro]:
  "live w \<Longrightarrow> succeeds (sync_call w)" "live w \<Longrightarrow> succeeds (create_dir_all w)"
  using succeeds_sys by (auto simp: sync_call_def create_dir_all_def)

lemma succeeds_atomic [live_intro]:
  assumes "live w" and "\<not> is_tmp p"
  shows "succeeds (atomic_json p d w)"
proof -
  obtain w' where w': "atomic_json p d w = (Inr (), w')" "no_tmp w'"
    using atomic_json_quiet [of w p d] assms by (auto simp: live_def)
  have "only_files (with_tmps p) w w'" using atomic_json_only_files [of p w d] w'(1) by simp
  with w' quiet_only_files assms(1) show ?thesis by (auto simp: succeeds_def live_def)
qed

lemma succeeds_save_job [live_intro]: "live w \<Longrightarrow> succeeds (save_job j w)"
  by (simp add: save_job_def succeeds_atomic)

lemma succeeds_append [live_intro]:
  assumes "live w" and "\<not> is_tmp p"
  shows "succeeds (append_ndjson p d w)"
proof -
  obtain w' where w': "append_ndjson p d w = (Inr (), w')"
    using append_ndjson_quiet [of w p d] assms(1) by (auto simp: live_def)
  have "only_files {p} w w'" using append_ndjson_only_files [of p w d] w' by simp
  with w' assms show ?thesis by (auto simp: succeeds_def intro: live_only_files [of "{p}" w])
qed

lemma succeeds_logs [live_intro]:
  "live w \<Longrightarrow> succeeds (register_job jid w)" "live w \<Longrightarrow> succeeds (append_event e w)"
  by (simp_all add: register_job_def append_event_def succeeds_append)

lemma succeeds_create [live_intro]: "live w \<Longrightarrow> \<not> is_tmp p \<Longrightarrow> succeeds (create_file p w)"
  unfolding create_file_def by (intro live_intro succeeds_sys live_put)

lemma succeeds_write [live_intro]: "live w \<Longrightarrow> \<not> is_tmp p \<Longrightarrow> succeeds (write_all p bs w)"
  by (simp add: write_all_def succeeds_def live_put live_def [of w] quiet_def)

lemma succeeds_rename [live_intro]:
  assumes "live w" and "lookup p w \<noteq> None" and "\<not> is_tmp q"
  shows "succeeds (rename_file p q w)"
proof -
  obtain c where c: "lookup p w = Some c" using assms(2) by blast
  have "rename_file p q w = (Inr (), put q c (del p (advance w)))"
    using assms(1) c by (simp add: rename_file_def live_def sys_quiet)
  moreover have "live (put q c (del p (advance w)))"
    using assms(1,3) by (auto simp: live_def quiet_def no_tmp_def)
  ultimately show ?thesis by (simp add: succeeds_def)
qed

lemma live_next_event:
  assumes "next_event k pid jid d w = (e, w')" and "live w"
  shows "live w'"
  using assms only_files_next_event [of "{}" w k pid jid d] by (auto intro: live_only_files [of "{}" w])

section \<open>Version 2\<close>

lemma succeeds_case:
  assumes "succeeds m" and "\<And>x w'. m = (Inr x, w') \<Longrightarrow> live w' \<Longrightarrow> succeeds (g x w')"
  shows "succeeds (case m of (Inl e, w) \<Rightarrow> f e w | (Inr x, w) \<Rightarrow> g x w)"
  using assms by (auto simp: succeeds_def)

lemma persist_v2_succeeds:
  assumes "live w"
  shows "succeeds (persist_v2_payload (SpoolFile jid) (PayloadFile jid) bs w)"
proof -
  have "lookup (SpoolFile jid) v2 = Some (Data bs)"
    if "create_file (SpoolFile jid) v = (Inr x, v1)" "write_all (SpoolFile jid) bs v1 = (Inr y, v2)" for v v1 v2 and x y :: unit
    using create_file_Inr [OF that(1)] write_all_Inr [OF that(2)] by simp
  then show ?thesis
    unfolding persist_v2_payload_def sync_call_def
    by (intro live_intro succeeds_sys assms) (auto simp: sys_def split: option.splits)
qed

lemma publish_v2_succeeds:
  assumes "live w"
  shows "succeeds (publish_v2_job False j w)"
proof -
  have ev: "live v'" if "next_event k p oi d v = (e, v')" "live v" for k p oi d v e v'
    using live_next_event that by blast
  show ?thesis
    unfolding publish_v2_job_def Let_def split_beta
    by (intro live_intro assms) (auto intro!: live_intro ev [OF prod.collapse [symmetric]])
qed

lemma store_v2_succeeds: "live w \<Longrightarrow> succeeds (store_v2_job False j bs w)"
  unfolding store_v2_job_def now_def Let_def
  by (intro live_intro succeeds_case persist_v2_succeeds) (simp_all add: publish_v2_succeeds)

section \<open>The active jobs of a printer\<close>

definition open_ids :: "string \<Rightarrow> world \<Rightarrow> uuid set" where
  "open_ids pid w = {i. \<exists>j. jobs_of w i = Some j \<and> is_open_job pid j}"

lemma open_ids_same: "jobs_of w' = jobs_of w \<Longrightarrow> open_ids pid w' = open_ids pid w"
  by (simp add: open_ids_def)

lemma finite_open_ids [simp]: "finite (open_ids pid w)"
proof (rule finite_subset)
  show "open_ids pid w \<subseteq> JobFile -` set (jobs_entries w)"
    using jobs_of_in_entries by (auto simp: open_ids_def)
  show "finite (JobFile -` set (jobs_entries w))" by (simp add: finite_vimageI inj_def)
qed

lemma card_within: "A \<subseteq> insert x B \<Longrightarrow> finite B \<Longrightarrow> card A \<le> Suc (card B)"
  using card_mono [of "insert x B" A] by (auto simp: card_insert_if split: if_splits)

lemma count_open:
  assumes "quiet w" and "wf_files w" and "jobs_keyed w"
  shows "\<exists>w'. count_active_jobs pid w = (Inr (card (open_ids pid w)), w')"
  using count_active_jobs_quiet [OF assms(1), of pid] card_jobs [OF assms(2,3), of "is_open_job pid"]
  by (auto simp: open_ids_def)

lemma no_key_found:
  assumes "quiet w" and "\<And>i j. jobs_of w i = Some j \<Longrightarrow> \<not> answers_key key ex j"
  shows "\<exists>w'. find_job_by_idempotency_key_inner key ex w = (Inr None, w')"
proof -
  have "find (answers_key key ex) (all_jobs w) = None"
    using assms(2) by (auto simp: find_None_iff set_all_jobs)
  with find_key_quiet [OF assms(1), of key ex] show ?thesis by auto
qed

lemma expected_revision:
  assumes "expected_media pf pid r w"
  shows "\<exists>v. revision_changed pf pid (sj_media_revision r) w = (Inr False, v)"
proof (cases "sj_media_revision r")
  case None
  then show ?thesis by (simp add: revision_changed_def)
next
  case (Some rev)
  then obtain m v where "load_media pid w = (Inr (Some m), v)" "media_revision (pf_digest pf) m = rev"
    using assms by (cases "load_media pid w") (auto simp: expected_media_def)
  with Some show ?thesis by (auto simp: revision_changed_def)
qed

lemma v2_admits:
  assumes "calm w" and auth: "authorized (sv_config sv) hs PrintScope" and wk: "sv_workers sv pid = Some (x, k)"
    and prep: "prepare_job (pf_codecs pf) pid r (pc_device_profile (wc_config x)) = Inr p"
    and media: "expected_media pf pid r w" and key: "holders (sj_idempotency_key r) w = {}"
    and room: "card (open_ids pid w) < unat (cf_max_active_jobs_per_printer (sv_config sv))"
  shows "\<exists>j w'. admit_v2 pf sv pid hs r w = (Inr (True, j), w')"
proof -
  have live: "live w" using assms(1) by (simp add: calm_def live_def)
  obtain v where rv: "revision_changed pf pid (sj_media_revision r) w = (Inr False, v)"
    using expected_revision [OF media] by blast
  note wv = reads_revision [OF rv]
  have none: "\<not> answers_key (sj_idempotency_key r) None j" if "jobs_of v i = Some j" for i j
    using key that reads_simps(1) [OF wv] by (auto simp: holders_def)
  have "quiet v" using assms(1) by (intro reads_simps(3) [OF wv]) (simp add: calm_def)
  then obtain v1 where f: "find_job_by_idempotency_key_inner (sj_idempotency_key r) None v = (Inr None, v1)"
    using no_key_found [of v "sj_idempotency_key r" None] none by blast
  note wv1 = reads.trans [OF wv reads_keys(1) [OF f]]
  have v1: "quiet v1" "wf_files v1" "jobs_keyed v1"
    using assms(1) reads_simps(1,3,5) [OF wv1] keyed_same [of v1 w] by (auto simp: calm_def)
  obtain v2 where ct: "count_active_jobs pid v1 = (Inr (card (open_ids pid v1)), v2)"
    using count_open [OF v1] by blast
  note wv2 = reads.trans [OF wv1 reads_keys(2) [OF ct]]
  have "card (open_ids pid v1) < unat (cf_max_active_jobs_per_printer (sv_config sv))"
    using room open_ids_same [OF reads_simps(1) [OF wv1]] by simp
  moreover obtain j v3 where nj: "new_v2_job pid r p v2 = (j, v3)" by fastforce
  moreover have "live v3"
    by (rule live_only_files [OF new_v2_job_own(3) [OF nj] _ live_reads [OF wv2 live]]) simp
  then have "succeeds (store_v2_job False j (pj_bytes p) v3)" by (rule store_v2_succeeds)
  then obtain bj w' where st: "store_v2_job False j (pj_bytes p) v3 = (Inr bj, w')" by (rule succeedsE)
  moreover have "fst bj" using store_v2_Inr [of False j "pj_bytes p" v3 "fst bj" "snd bj" w'] st by simp
  ultimately show ?thesis
    using auth wk rv prep f ct
    by (cases bj) (simp add: admit_v2_def v2_authorize_def v2_find_worker_def find_job_by_idempotency_key_any_def)
qed

text \<open>C9: a version 2 request is admitted when the calls succeed, its token opens the print
  scope, its artifacts can be prepared, the roll it expects is loaded, no job answers its key
  and its printer has fewer active jobs than configured.\<close>

theorem v2_accepted:
  assumes "calm w" and auth: "authorized (sv_config sv) hs PrintScope" and wk: "sv_workers sv pid = Some (x, k)"
    and prep: "prepare_job (pf_codecs pf) pid r (pc_device_profile (wc_config x)) = Inr p"
    and media: "expected_media pf pid r w" and key: "holders (sj_idempotency_key r) w = {}"
    and room: "card (open_ids pid w) < unat (cf_max_active_jobs_per_printer (sv_config sv))"
  shows "\<exists>j w'. admit_v2 pf sv pid hs r w = (Inr (True, j), w')"
  by (rule v2_admits [OF assms])

section \<open>Version 1\<close>

lemma publish_upload_succeeds:
  assumes "live w"
  shows "succeeds (publish_upload j n w)"
proof -
  have ev: "live v'" if "next_event k p oi d v = (e, v')" "live v" for k p oi d v e v'
    using live_next_event that by blast
  show ?thesis
    unfolding publish_upload_def Let_def split_beta
    by (intro live_intro assms) (auto intro: ev [OF prod.collapse [symmetric]])
qed

lemma receive_chunks_succeeds:
  assumes "live w" and "body_bytes cs = Some bs" and "unat n + length bs \<le> unat mx"
  shows "succeeds (receive_chunks mx j cs sha n w)"
  using assms
proof (induction mx j cs sha n w arbitrary: bs rule: receive_chunks.induct)
  case (1 mx j sha n w)
  then show ?case by (simp add: succeeds_Inr)
next
  case (2 mx j e cs sha n w)
  then show ?case by simp
next
  case (3 mx j chunk cs sha n w)
  obtain bs' where bs: "body_bytes cs = Some bs'" "bs = chunk @ bs'" using 3(3) by auto
  have mx: "unat mx < 2 ^ 64" using unsigned_less [of mx] by simp
  then have len: "unat (of_nat (length chunk) :: u64) = length chunk"
    using 3(4) bs(2) by (simp add: unat_of_nat)
  have sum: "unat n + length chunk \<le> unat mx" using 3(4) bs(2) by simp
  then have fits: "\<not> sat_add n (of_nat (length chunk)) > mx"
    by (simp add: not_less word_le_nat_alt unat_sat_add len)
  have "unat (n + of_nat (length chunk)) = unat n + length chunk"
    using sum mx by (simp add: unat_word_ariths len)
  then have rest: "unat (n + of_nat (length chunk)) + length bs' \<le> unat mx" using 3(4) bs(2) by simp
  have wr: "succeeds (write_all (SpoolFile (job_id j)) chunk w)" by (rule succeeds_write [OF 3(2)]) simp
  show ?case
    using fits by (auto intro!: succeeds_bind succeeds_or_fail wr 3(1) [OF fits _ bs(1) rest])
qed

lemma succeeds_payload [live_intro]:
  assumes "live w"
  shows "lookup p w = Some (Data bs) \<Longrightarrow> succeeds (open_file p w)"
    "lookup p w = Some (Data bs) \<Longrightarrow> succeeds (fs_read p w)"
    "lookup p w = Some (Data bs) \<Longrightarrow> succeeds (open_existing p w)"
  using assms
  by (auto simp: open_file_def fs_read_def open_existing_def succeeds_def live_def sys_quiet
      quiet_def no_tmp_def lookup_def)

lemma succeeds_fs_write [live_intro]: "live w \<Longrightarrow> \<not> is_tmp p \<Longrightarrow> succeeds (fs_write p bs w)"
  unfolding fs_write_def by (intro live_intro)

lemma convert_payload_succeeds:
  assumes "live w" and "lookup (SpoolFile (job_id j)) w = Some (Data bs)"
    and "prepare_zebra_payload cd ct bs profile = Inr p"
  shows "succeeds (convert_payload cd profile ct j w)"
proof (cases "ct = ''application/zpl''")
  case True
  with assms(1) show ?thesis by (simp add: convert_payload_def succeeds_Inr)
next
  case False
  let ?p = "SpoolFile (job_id j)"
  have rd: "succeeds (fs_read ?p w)" by (rule succeeds_payload(2) [OF assms(1,2)])
  have op: "succeeds (open_existing ?p v)" if "fs_write ?p x u = (Inr (), v)" "live v" for u v x
    by (rule succeeds_payload(3) [OF that(2) fs_write_Inr [OF that(1)]])
  have prep: "prepare_zebra_payload cd ct source profile = Inr p" if "fs_read ?p w = (Inr source, v)" for source v
    using fs_read_Inr [OF that] assms(2,3) by simp
  have tail: "succeeds (bindE (or_fail j (sync_call v)) (\<lambda>_ w. (Inr (x, y), w)))" if "live v" for v x y
    by (intro live_intro that)
  show ?thesis
    using False rd
    by (auto simp: convert_payload_def Let_def prep intro!: succeeds_bind succeeds_or_fail tail
        succeeds_fs_write succeeds_Inr op)
qed

lemma receive_payload_succeeds:
  assumes "live w" and bs: "body_bytes body = Some bs" and mx: "length bs \<le> unat mx"
    and prep: "prepare_zebra_payload cd ct bs profile = Inr p"
  shows "succeeds (receive_payload cd mx profile ct j body w)"
proof -
  let ?p = "SpoolFile (job_id j)" and ?q = "PayloadFile (job_id j)"
  have rc: "succeeds (receive_chunks mx j body (bytes_of ct @ [0]) 0 v)" if "live v" for v
    by (rule receive_chunks_succeeds [OF that bs]) (use mx in simp)
  have received: "lookup ?p v' = Some (Data bs)"
    if "create_file ?p u = (Inr (), v)" "receive_chunks mx j body (bytes_of ct @ [0]) 0 v = (Inr (a, b), v')" for u v a b v'
    using receive_chunks_Inr [OF that(2) create_file_Inr [OF that(1)]] bs by auto
  have cv: "succeeds (convert_payload cd profile ct j v)" if "live v" "lookup ?p v = Some (Data bs)" for v
    by (rule convert_payload_succeeds [OF that prep])
  have rn: "succeeds (rename_file ?p ?q v')"
    if "live v'" "lookup ?p v = Some (Data bs)" "convert_payload cd profile ct j v = (Inr (a, b), v')" for v v' a b
    using convert_payload_Inr [OF that(3,2)] by (auto intro: succeeds_rename that(1))
  have sync: "lookup ?p v' = lookup ?p v" if "sync_call v = (Inr (), v')" for v v'
    using that by (simp add: sync_call_def)
  have cr: "succeeds (create_file ?p v)" if "live v" for v using that by (rule succeeds_create) simp
  have tail: "succeeds (bindE (or_fail j (sync_call v)) (\<lambda>_ w. (Inr x, w)))" if "live v" for v x
    by (intro live_intro that)
  show ?thesis
    unfolding receive_payload_def Let_def
    by (auto intro!: succeeds_bind succeeds_or_fail succeeds_mapE succeeds_save_job assms(1) rc cr tail
          succeeds_calls succeeds_Inr cv rn simp: received sync)
qed

text \<open>While a payload is received the only job that is written is the new one.\<close>

lemma receive_chunks_files:
  assumes "receive_chunks mx j cs sha n w = (Inr x, w')"
  shows "only_files {SpoolFile (job_id j)} w w'"
  using assms
proof (induction mx j cs sha n w rule: receive_chunks.induct)
  case (1 mx j sha n w)
  then show ?case by (simp add: only_files.refl)
next
  case (2 mx j e cs sha n w)
  then show ?case by (simp add: or_fail_def fail_receiving_def)
next
  case (3 mx j chunk cs sha n w)
  then obtain v where fits: "\<not> sat_add n (of_nat (length chunk)) > mx"
      and wr: "write_all (SpoolFile (job_id j)) chunk w = (Inr (), v)"
      and rest: "receive_chunks mx j cs (sha @ chunk) (n + of_nat (length chunk)) v = (Inr x, w')"
    by (auto simp: bindE_Inr_iff split: if_splits)
  have "only_files {SpoolFile (job_id j)} w v"
    using only_files_payload(2) [of "SpoolFile (job_id j)" "{SpoolFile (job_id j)}" w chunk] wr by simp
  then show ?case by (rule only_files.trans [OF _ 3(1) [OF fits rest]])
qed

lemma convert_payload_files:
  assumes "convert_payload cd profile ct j w = (Inr x, w')"
  shows "only_files {SpoolFile (job_id j)} w w'"
proof (cases "ct = ''application/zpl''")
  case True
  with assms show ?thesis by (simp add: convert_payload_def only_files.refl)
next
  case False
  let ?p = "SpoolFile (job_id j)"
  obtain source v1 pr v2 v3 where rd: "fs_read ?p w = (Inr source, v1)"
      and "prepare_zebra_payload cd ct source profile = Inr pr"
      and wr: "fs_write ?p (pp_bytes pr) v1 = (Inr (), v2)" and op: "open_existing ?p v2 = (Inr (), v3)"
      and sy: "sync_call v3 = (Inr (), w')"
    using False assms(1) by (auto simp: convert_payload_def Let_def bindE_Inr_iff)
  have "only_files {?p} v1 (snd (fs_write ?p (pp_bytes pr) v1))"
    unfolding fs_write_def by (rule only_files.bindE_respects) simp_all
  then have "only_files {?p} v1 v2" using wr by simp
  moreover have "only_files {?p} w v1" "only_files {?p} v2 v3" "only_files {?p} v3 w'"
    using only_files_payload(4) [where P = "{?p}" and p = ?p and w = w]
      only_files_payload(5) [where P = "{?p}" and p = ?p and w = v2] rd op sy
    by (simp_all add: sync_call_def)
  ultimately show ?thesis by (blast intro: only_files.trans)
qed

lemma receive_payload_jobs:
  assumes "receive_payload cd mx profile ct j body w = (Inr x, w')"
  shows "jobs_of w' = (jobs_of w)(job_id j \<mapsto> j) \<and>
     (\<exists>u. only_files (with_tmps (JobFile (job_id j))) w u \<and>
       only_files {SpoolFile (job_id j), PayloadFile (job_id j)} u w')"
proof -
  let ?p = "SpoolFile (job_id j)" and ?q = "PayloadFile (job_id j)"
  have "\<exists>v1 v2 v3 v4 v5 v6 a b. save_job j w = (Inr (), v1) \<and> create_file ?p v1 = (Inr (), v2) \<and>
      receive_chunks mx j body (bytes_of ct @ [0]) 0 v2 = (Inr a, v3) \<and> sync_call v3 = (Inr (), v4) \<and>
      convert_payload cd profile ct j v4 = (Inr b, v5) \<and>
      rename_file ?p ?q v5 = (Inr (), v6) \<and> sync_call v6 = (Inr (), w')"
    using assms by (fastforce simp: receive_payload_def Let_def bindE_Inr_iff split: prod.splits)
  then obtain v1 v2 v3 v4 v5 v6 a b where sv: "save_job j w = (Inr (), v1)" and cf: "create_file ?p v1 = (Inr (), v2)"
      and rc: "receive_chunks mx j body (bytes_of ct @ [0]) 0 v2 = (Inr a, v3)"
      and sy: "sync_call v3 = (Inr (), v4)" and cv: "convert_payload cd profile ct j v4 = (Inr b, v5)"
      and rn: "rename_file ?p ?q v5 = (Inr (), v6)" and sy2: "sync_call v6 = (Inr (), w')" by blast
  have "only_files {?p} v1 v2" using only_files_payload(1) [of ?p "{?p}" v1] cf by simp
  then have "only_files {?p} v1 v3" by (rule only_files.trans [OF _ receive_chunks_files [OF rc]])
  moreover have "only_files {?p} v3 v4" using sy by (simp add: sync_call_def)
  ultimately have "only_files {?p} v1 v5"
    using only_files.trans convert_payload_files [OF cv] by blast
  then have "only_files {?p, ?q} v1 v5" by (rule only_files_mono) auto
  moreover have "only_files {?p, ?q} v5 v6" using only_files_rename [of ?p "{?p, ?q}" ?q v5] rn by simp
  moreover have "only_files {?p, ?q} v6 w'" using sy2 by (simp add: sync_call_def)
  ultimately have after: "only_files {?p, ?q} v1 w'" by (blast intro: only_files.trans)
  then have "jobs_of w' = jobs_of v1" by (rule only_files_jobs) simp
  with jobs_of_save_ok [OF sv] after only_files_save_job [of j w] sv show ?thesis by auto
qed

section \<open>The limit of active jobs\<close>

lemma pq_live: "label_count d p prepared header w = (ls, w') \<Longrightarrow> live w \<Longrightarrow> live w'"
  using only_files_label_count [of w d p prepared header] by (auto intro: live_only_files [of "{}" w w'])

text \<open>The world in which the two decisions about an upload are taken: it holds the new job, still
  being received, and nothing else has changed.\<close>

lemma received_world:
  assumes "new_job pid hs w = (j0, v)"
    and "receive_payload cd mx profile ct j0 body v = (Inr (rec, prepared, j), v1)"
    and "label_count d (PayloadFile (job_id j)) prepared header v1 = (labels, v2)"
  shows "jobs_of v2 = (jobs_of w)(drawn w \<mapsto> j0) \<and> job_id j = drawn w \<and> job_printer_id j = pid \<and>
     is_open_job pid j0 \<and> (wf_files w \<longrightarrow> wf_files v2) \<and> (jobs_keyed w \<longrightarrow> jobs_keyed v2) \<and>
     (quiet w \<longrightarrow> quiet v2)"
proof -
  note j0 = new_job_own [OF assms(1)]
  obtain sha n where rec: "rec = (sha, n)" by (cases rec)
  have j: "job_id j = job_id j0" "job_printer_id j = job_printer_id j0"
    using receive_payload_Inr [OF assms(2) [unfolded rec]] by auto
  have id: "job_id j0 = drawn w" by (rule own_id [OF j0(1)])
  obtain u where u: "only_files (with_tmps (JobFile (job_id j0))) v u"
      "only_files {SpoolFile (job_id j0), PayloadFile (job_id j0)} u v1"
    using receive_payload_jobs [OF assms(2)] by blast
  have v1: "jobs_of v1 = (jobs_of v)(drawn w \<mapsto> j0)" using receive_payload_jobs [OF assms(2)] id by simp
  have f2: "only_files {} v1 v2"
    using only_files_label_count [of v1 d "PayloadFile (job_id j)" prepared header] assms(3) by simp
  have jobs: "jobs_of v2 = (jobs_of w)(drawn w \<mapsto> j0)"
    using v1 only_files_none_jobs [OF f2] only_files_none_jobs [OF j0(3)] by simp
  have all: "only_files UNIV w v2"
    using any_files [OF j0(3)] any_files [OF u(1)] any_files [OF u(2)] any_files [OF f2]
    by (blast intro: only_files.trans)
  have "jobs_keyed v2" if "jobs_keyed w"
    using that jobs j0(1) id by (auto simp: jobs_keyed_def own_def)
  with jobs j id j0(1,2) all show ?thesis
    by (auto simp: own_def is_open_job_def is_open_state_def only_files_def quiet_def)
qed

lemma register_upload_admits:
  assumes "live w" and "wf_files w" and "jobs_keyed w"
    and key: "\<And>k i j'. key = Some k \<Longrightarrow> jobs_of w i = Some j' \<Longrightarrow> \<not> answers_key k (Some (job_id j)) j'"
    and room: "card (open_ids (job_printer_id j) w) \<le> unat (cf_max_active_jobs_per_printer c)"
  shows "\<exists>j' w'. register_upload c j key n w = (Inr (True, j'), w')"
proof -
  let ?find = "case key of None \<Rightarrow> (Inr None, w)
    | Some k \<Rightarrow> mapE api_internal (find_job_by_idempotency_key k (job_id j) w)"
  have "\<exists>v. ?find = (Inr None, v) \<and> reads w v"
  proof (cases key)
    case None
    then show ?thesis by simp
  next
    case (Some k)
    have "quiet w" using assms(1) by (simp add: live_def)
    then obtain v where v: "find_job_by_idempotency_key_inner k (Some (job_id j)) w = (Inr None, v)"
      using no_key_found [of w k "Some (job_id j)"] key [OF Some] by blast
    with Some reads_keys(1) [OF v] show ?thesis by (simp add: find_job_by_idempotency_key_def)
  qed
  then obtain v where f: "?find = (Inr None, v)" and v: "reads w v" by blast
  have q: "quiet v" "wf_files v" "jobs_keyed v"
    using assms(1-3) reads_simps(1,3,5) [OF v] keyed_same [of v w] by (auto simp: live_def)
  obtain u where ct: "count_active_jobs (job_printer_id j) v = (Inr (card (open_ids (job_printer_id j) v)), u)"
    using count_open [OF q] by blast
  have "\<not> card (open_ids (job_printer_id j) v) > unat (cf_max_active_jobs_per_printer c)"
    using room open_ids_same [OF reads_simps(1) [OF v]] by simp
  moreover have "live u" by (rule live_reads [OF reads.trans [OF v reads_keys(2) [OF ct]] assms(1)])
  then have "succeeds (publish_upload j n u)" by (rule publish_upload_succeeds)
  then obtain bj w' where pub: "publish_upload j n u = (Inr bj, w')" by (rule succeedsE)
  moreover have "fst bj" using publish_upload_Inr [of j n u "fst bj" "snd bj" w'] pub by simp
  ultimately show ?thesis using f ct by (cases bj) (simp add: register_upload_def Let_def)
qed

lemma upload_admits:
  assumes "calm w" and fresh: "jobs_of w (drawn w) = None" and wk: "sv_workers sv pid = Some (x, k)"
    and checks: "upload_checks x hs = Inr (d, key)" and bs: "body_bytes body = Some bs"
    and size: "length bs \<le> unat (cf_max_job_bytes (sv_config sv))"
    and prep: "prepare_zebra_payload (pf_codecs pf) (mime_of (content_of hs)) bs
      (pc_device_profile (wc_config x)) = Inr p"
    and free: "\<And>k'. key = Some k' \<Longrightarrow> holders k' w = {}"
    and room: "card (open_ids pid w) < unat (cf_max_active_jobs_per_printer (sv_config sv))"
  shows "\<exists>j w'. admit_upload pf sv pid hs body w = (Inr (True, j), w')"
proof -
  obtain j0 v where nj: "new_job pid hs w = (j0, v)" by fastforce
  have "live w" using assms(1) by (simp add: calm_def live_def)
  then have "live v" by (rule live_only_files [OF new_job_own(3) [OF nj] _, rotated]) simp
  then have "succeeds (receive_payload (pf_codecs pf) (cf_max_job_bytes (sv_config sv))
      (pc_device_profile (wc_config x)) (mime_of (content_of hs)) j0 body v)"
    by (rule receive_payload_succeeds [OF _ bs size prep])
  then obtain res v1 where rp: "receive_payload (pf_codecs pf) (cf_max_job_bytes (sv_config sv))
      (pc_device_profile (wc_config x)) (mime_of (content_of hs)) j0 body v = (Inr res, v1)" and "live v1"
    by (rule succeedsE)
  obtain sha n prepared j where res: "res = ((sha, n), prepared, j)" by (metis prod.collapse)
  obtain labels v2 where lc: "label_count d (PayloadFile (job_id j)) prepared (count_header hs) v1 = (labels, v2)"
    by fastforce
  note world = received_world [OF nj rp [unfolded res] lc]
  have "open_ids pid v2 \<subseteq> insert (drawn w) (open_ids pid w)" using world by (auto simp: open_ids_def)
  then have room': "card (open_ids pid v2) \<le> unat (cf_max_active_jobs_per_printer (sv_config sv))"
    using room card_within [of "open_ids pid v2" "drawn w" "open_ids pid w"] by simp
  let ?q = "queued_job j (env_utc (w_env v2) (w_tick v2)) labels (encode_hex (cd_sha256 (pf_codecs pf) sha)) n key"
  have "\<exists>j' w'. register_upload (sv_config sv) ?q key n (advance v2) = (Inr (True, j'), w')"
  proof (rule register_upload_admits)
    show "live (advance v2)" using pq_live [OF lc \<open>live v1\<close>] by simp
    show "wf_files (advance v2)" "jobs_keyed (advance v2)"
      using world assms(1) keyed_same [of "advance v2" v2] by (simp_all add: calm_def)
    show "card (open_ids (job_printer_id ?q) (advance v2)) \<le> unat (cf_max_active_jobs_per_printer (sv_config sv))"
      using room' world open_ids_same [of "advance v2" v2] by simp
    fix k' i j' assume "key = Some k'" "jobs_of (advance v2) i = Some j'"
    with free world new_job_own(1) [OF nj] show "\<not> answers_key k' (Some (job_id ?q)) j'"
      by (auto simp: holders_def answers_key_def own_def split: if_splits)
  qed
  then show ?thesis
    using wk checks nj rp res lc by (simp add: admit_upload_def find_worker_Inr [THEN iffD2] find_worker_def Let_def now_def)
qed

text \<open>C15: an upload is admitted when the calls succeed, the drawn identifier is fresh, the headers pass (a type the driver of the
  printer takes and a key of valid length), the body is complete, within the size limit and
  can be converted by the driver, no other job answers its key and its printer has fewer
  active jobs than configured.\<close>

theorem upload_accepted:
  assumes "calm w" and fresh: "jobs_of w (drawn w) = None" and wk: "sv_workers sv pid = Some (x, k)"
    and checks: "upload_checks x hs = Inr (d, key)" and bs: "body_bytes body = Some bs"
    and size: "length bs \<le> unat (cf_max_job_bytes (sv_config sv))"
    and prep: "prepare_zebra_payload (pf_codecs pf) (mime_of (content_of hs)) bs
      (pc_device_profile (wc_config x)) = Inr p"
    and free: "\<And>k'. key = Some k' \<Longrightarrow> holders k' w = {}"
    and room: "card (open_ids pid w) < unat (cf_max_active_jobs_per_printer (sv_config sv))"
  shows "\<exists>j w'. admit_upload pf sv pid hs body w = (Inr (True, j), w')"
  by (rule upload_admits [OF assms])

lemma upload_within_limit:
  assumes "quiet w" and "wf_files w" and "jobs_keyed w" and "admit_upload pf sv pid hs body w = (Inr (True, j), w')"
  shows "card (open_ids pid w') \<le> unat (cf_max_active_jobs_per_printer (sv_config sv))"
  using assms(4)
proof (cases rule: admit_upload_cases)
  case (registered x wk d key j0 v sha n prepared i v1 labels v2 t)
  note world = received_world [OF registered(3,4,5)]
  have v2: "quiet (advance v2)" "wf_files (advance v2)" "jobs_keyed (advance v2)"
    using world assms(1-3) keyed_same [of "advance v2" v2] by simp_all
  let ?q = "queued_job i t labels (encode_hex (cd_sha256 (pf_codecs pf) sha)) n key"
  from registered(6) show ?thesis
  proof (cases rule: register_upload_cases)
    case (published u0 u a)
    have same: "jobs_of u0 = jobs_of v2" "jobs_of u = jobs_of v2"
      using only_files_none_jobs [OF published(1)] only_files_none_jobs [OF published(2)] by simp_all
    have "quiet u0" "wf_files u0" "jobs_keyed u0"
      using v2 published(1) keyed_same [of u0 "advance v2"] same(1) by (auto simp: only_files_def quiet_def)
    then have a: "card (open_ids pid v2) \<le> unat (cf_max_active_jobs_per_printer (sv_config sv))"
      using count_open [of u0 pid] published(5,6) world open_ids_same [OF same(1)] by auto
    have "open_ids pid w' \<subseteq> insert (drawn w) (open_ids pid v2)"
      using publish_upload_jobs [OF published(3)] same(2) world by (auto simp: open_ids_def split: if_splits)
    moreover have "drawn w \<in> open_ids pid v2" using world by (simp add: open_ids_def)
    ultimately have "card (open_ids pid w') \<le> card (open_ids pid v2)"
      by (intro card_mono) auto
    with a show ?thesis by simp
  qed (simp_all split: if_splits)
qed simp_all

lemma v2_within_limit:
  assumes "quiet w" and "wf_files w" and "jobs_keyed w" and "admit_v2 pf sv pid hs' r w = (Inr (True, j), w')"
  shows "card (open_ids pid w') \<le> unat (cf_max_active_jobs_per_printer (sv_config sv))"
  using assms(4)
proof (cases rule: admit_v2_cases)
  case (stored x wk p held v v1 a v2 i v3)
  have wv1: "reads w v1"
    using reads.trans [OF reads_revision [OF stored(3)] reads_keys(1)] stored(5)
    by (simp add: find_job_by_idempotency_key_any_def)
  have v1: "quiet v1" "wf_files v1" "jobs_keyed v1"
    using assms(1-3) reads_simps(1,3,5) [OF wv1] keyed_same [of v1 w] by auto
  have a: "a = card (open_ids pid w)"
    using count_open [OF v1, of pid] stored(6) open_ids_same [OF reads_simps(1) [OF wv1]] by auto
  note i = new_v2_job_own [OF stored(8)]
  have jobs: "jobs_of v3 = jobs_of w"
    using only_files_none_jobs [OF i(3)] reads_simps(1) [OF reads.trans [OF wv1 reads_keys(2) [OF stored(6)]]] by simp
  have "submits (drawn v2) (own (drawn v2) pid) v3 w'"
    using kept_v2.submits_store_v2 [OF i(1), of v3 held "pj_bytes p"] stored(9) by simp
  then have "open_ids pid w' \<subseteq> insert (drawn v2) (open_ids pid w)"
    using submits_other jobs by (fastforce simp: open_ids_def)
  then show ?thesis using card_within [of "open_ids pid w'" "drawn v2" "open_ids pid w"] stored(7) a by simp
qed simp_all

text \<open>C13: while the file calls succeed, an admission never takes a printer above its limit: when a
  job of either version is admitted, the printer has at most the configured number of active
  jobs, the new one included. (When a job file cannot be read the scan does not count it.)\<close>

theorem admission_within_limit:
  assumes "quiet w" and "wf_files w" and "jobs_keyed w"
    and adm: "admit_upload pf sv pid hs body w = (Inr (True, j), w') \<or> admit_v2 pf sv pid hs' r w = (Inr (True, j), w')"
  shows "card (open_ids pid w') \<le> unat (cf_max_active_jobs_per_printer (sv_config sv))"
  using adm upload_within_limit [OF assms(1-3)] v2_within_limit [OF assms(1-3)] by blast

end
