(* ===== verification/Submission_Sample.thy ===== *)
theory Submission_Sample
  imports Acceptance
begin

text \<open>
  Concrete submissions: a service with one printer, an upload of native ZPL and a version 2
  request, on an empty data directory. The properties of submissions are evaluated on them.
\<close>

section \<open>A service and its requests\<close>

definition print_token :: string where
  "print_token = replicate 24 (CHR ''t'')"

definition sample_service :: service where
  "sample_service = \<lparr>sv_config = sample_config\<lparr>cf_print_token := Some print_token\<rparr>,
     sv_printers = [sample_printer], sv_workers = [''p'' \<mapsto> (sample_context, sample_worker [] False)]\<rparr>"

definition print_headers :: headers where
  "print_headers = [(''authorization'', ''Bearer '' @ print_token)]"

definition upload_headers :: headers where
  "upload_headers = [(''content-type'', ZPL_MIME), (''x-idempotency-key'', ''k'')]"

lemma sample_service_simps [simp]:
  "sv_workers sample_service ''p'' = Some (sample_context, sample_worker [] False)"
  "sv_workers sample_service ''q'' = None"
  "cf_max_active_jobs_per_printer (sv_config sample_service) = 1000"
  "cf_max_job_bytes (sv_config sample_service) = MAX_JOB_BYTES"
  "cf_print_token (sv_config sample_service) = Some print_token"
  by (simp_all add: sample_service_def sample_config_def default_config_def)

lemma sample_printer_simps [simp]:
  "pc_device_profile (wc_config sample_context) = default_profile" "pc_driver (wc_config sample_context) = ''zpl''"
  by (simp_all add: sample_context_def sample_printer_def default_printer_config_def)

lemma print_authorized [simp]: "authorized (sv_config sample_service) print_headers PrintScope"
proof -
  have v: "list_all visible_ascii (''Bearer '' @ print_token)"
    by (simp add: print_token_def list_all_iff visible_ascii_def char_code_def)
  have "authorized (sv_config sample_service) print_headers PrintScope \<longleftrightarrow>
      (\<exists>t. Some t \<in> set (candidates (sv_config sample_service) PrintScope) \<and> 24 \<le> length t \<and>
        header_string print_headers ''authorization'' = Some (''Bearer '' @ t))"
    unfolding authorized_def by (rule bearer_iff)
  also have "\<dots>"
    using v by (intro exI [of _ print_token]) (simp add: candidates_def print_headers_def header_string_def print_token_def)
  finally show ?thesis by simp
qed

lemma not_authorized [simp]: "\<not> authorized (sv_config sample_service) [] PrintScope"
  by (simp add: authorized_def header_string_def)

lemma empty_world [simp]:
  "calm (world_with [])" "jobs_of (world_with []) = (\<lambda>_. None)" "holders k (world_with []) = {}"
  "open_ids pid (world_with []) = {}" "keys_unique (world_with [])" "fresh_ids (world_with [])"
proof -
  show j: "jobs_of (world_with []) = (\<lambda>_. None)" by (simp add: jobs_of_def fun_eq_iff)
  show "calm (world_with [])" by (simp add: calm_def jobs_keyed_def j)
  show "holders k (world_with []) = {}" "open_ids pid (world_with []) = {}" "fresh_ids (world_with [])"
    by (simp_all add: holders_def open_ids_def fresh_ids_def j)
  show "keys_unique (world_with [])" by (simp add: keys_unique_def holders_def j)
qed

lemma sample_expected: "expected_media pf pid sample_request w"
  by (simp add: expected_media_def sample_request_def)

lemma sample_v2_admitted:
  "\<exists>j w'. admit_v2 sample_platform sample_service ''p'' print_headers sample_request (world_with []) = (Inr (True, j), w')"
proof -
  obtain p where p: "prepare_job (pf_codecs sample_platform) ''p'' sample_request
      (pc_device_profile (wc_config sample_context)) = Inr p"
    using sample_prepared by (auto simp: sample_platform_def)
  show ?thesis
    by (rule v2_admits [OF empty_world(1) print_authorized sample_service_simps(1) p sample_expected]) simp_all
qed

lemma zpl_visible: "list_all visible_ascii ZPL_MIME"
  by (simp add: ZPL_MIME_def visible_ascii_def char_code_def)

lemma sample_checks: "\<exists>d. upload_checks sample_context upload_headers = Inr (d, Some ''k'')"
proof -
  have c: "header_string upload_headers ''content-type'' = Some ZPL_MIME"
    using zpl_visible by (simp add: upload_headers_def header_string_def)
  have k: "header_string upload_headers ''x-idempotency-key'' = Some ''k''"
    by (simp add: upload_headers_def header_string_def visible_ascii_def char_code_def)
  show ?thesis
    by (simp add: upload_checks_def c k descriptor_def DRIVERS_def accepts_def mime_zpl)
qed

lemma sample_upload_admitted:
  "\<exists>j w'. admit_upload sample_platform sample_service ''p'' upload_headers [Inr [94, 88, 65]] (world_with []) = (Inr (True, j), w')"
proof -
  obtain d where d: "upload_checks sample_context upload_headers = Inr (d, Some ''k'')"
    using sample_checks by blast
  have c: "content_of upload_headers = ZPL_MIME"
    using zpl_visible by (simp add: upload_headers_def header_string_def)
  have p: "prepare_zebra_payload (pf_codecs sample_platform) (mime_of (content_of upload_headers)) [94, 88, 65]
      (pc_device_profile (wc_config sample_context)) = Inr \<lparr>pp_bytes = [94, 88, 65], pp_label_count = None\<rparr>"
    by (simp add: c mime_zpl prepare_zebra_payload_def)
  show ?thesis
    by (rule upload_admits [OF empty_world(1) _ sample_service_simps(1) d _ _ p])
       (simp_all add: MAX_JOB_BYTES_def)
qed

section \<open>The properties on the samples\<close>

theorem v2_accepted_witness:
  "\<exists>j w'. admit_v2 sample_platform sample_service ''p'' print_headers sample_request (world_with []) = (Inr (True, j), w')"
proof -
  obtain p where p: "prepare_job (pf_codecs sample_platform) ''p'' sample_request
      (pc_device_profile (wc_config sample_context)) = Inr p"
    using sample_prepared by (auto simp: sample_platform_def)
  show ?thesis
    by (rule v2_accepted [OF empty_world(1) print_authorized sample_service_simps(1) p sample_expected]) simp_all
qed

theorem upload_accepted_witness:
  "\<exists>j w'. admit_upload sample_platform sample_service ''p'' upload_headers [Inr [94, 88, 65]] (world_with []) = (Inr (True, j), w')"
proof -
  obtain d where d: "upload_checks sample_context upload_headers = Inr (d, Some ''k'')"
    using sample_checks by blast
  have c: "content_of upload_headers = ZPL_MIME"
    using zpl_visible by (simp add: upload_headers_def header_string_def)
  have p: "prepare_zebra_payload (pf_codecs sample_platform) (mime_of (content_of upload_headers)) [94, 88, 65]
      (pc_device_profile (wc_config sample_context)) = Inr \<lparr>pp_bytes = [94, 88, 65], pp_label_count = None\<rparr>"
    by (simp add: c mime_zpl prepare_zebra_payload_def)
  show ?thesis
    by (rule upload_accepted [OF empty_world(1) _ sample_service_simps(1) d _ _ p])
       (simp_all add: MAX_JOB_BYTES_def)
qed

theorem admission_within_limit_witness:
  "\<exists>j w'. admit_v2 sample_platform sample_service ''p'' print_headers sample_request (world_with []) = (Inr (True, j), w') \<and>
     card (open_ids ''p'' w') \<le> 1000"
proof -
  obtain j w' where run: "admit_v2 sample_platform sample_service ''p'' print_headers sample_request (world_with []) =
      (Inr (True, j), w')" using sample_v2_admitted by blast
  have w: "quiet (world_with [])" "wf_files (world_with [])" "jobs_keyed (world_with [])"
    using empty_world(1) by (simp_all add: calm_def)
  from admission_within_limit [OF w disjI2 [OF run]] run show ?thesis by auto
qed

theorem upload_stored_witness:
  "\<exists>j w'. admit_upload sample_platform sample_service ''p'' upload_headers [Inr [94, 88, 65]] (world_with []) = (Inr (True, j), w') \<and>
     jobs_of w' (job_id j) = Some j \<and> lookup (PayloadFile (job_id j)) w' = Some (Data [94, 88, 65])"
proof -
  obtain j w' where run: "admit_upload sample_platform sample_service ''p'' upload_headers [Inr [94, 88, 65]]
      (world_with []) = (Inr (True, j), w')" using sample_upload_admitted by blast
  have c: "content_of upload_headers = ZPL_MIME"
    using zpl_visible by (simp add: upload_headers_def header_string_def)
  have "lookup (PayloadFile (job_id j)) w' = Some (Data [94, 88, 65])"
    using upload_stored [OF run] by (auto simp: uploaded_def c mime_zpl prepare_zebra_payload_def)
  with upload_stored [OF run] run show ?thesis by blast
qed

theorem upload_refused_not_queued_witness:
  "\<exists>e w'. create_job (\<lambda>_ _ w. (Inr (), w)) sample_platform sample_service ''q'' upload_headers [] (world_with []) = (Inl e, w') \<and>
     queued_ids w' \<subseteq> queued_ids (world_with [])"
proof -
  have run: "create_job (\<lambda>_ _ w. (Inr (), w)) sample_platform sample_service ''q'' upload_headers [] (world_with []) =
      (Inl (api_not_found ''printer_not_found''), world_with [])"
    by (simp add: create_job_def admit_upload_def find_worker_def Let_def)
  have "queued_ids (world_with []) \<subseteq> queued_ids (world_with [])"
    by (rule upload_refused_not_queued [OF run]) simp_all
  with run show ?thesis by blast
qed

theorem v2_job_stored_witness:
  "\<exists>j w'. admit_v2 sample_platform sample_service ''p'' print_headers sample_request (world_with []) = (Inr (True, j), w') \<and>
     jobs_of w' (job_id j) = Some j \<and> job_state j = Queued \<and> job_idempotency_key j = Some ''k''"
proof -
  obtain j w' where run: "admit_v2 sample_platform sample_service ''p'' print_headers sample_request (world_with []) =
      (Inr (True, j), w')" using sample_v2_admitted by blast
  have "sj_idempotency_key sample_request = ''k''" by (simp add: sample_request_def)
  with v2_job_stored [OF run] run show ?thesis by auto
qed

theorem v2_refused_not_queued_witness:
  "\<exists>e w'. v2_create_job (\<lambda>_ _ w. (Inr (), w)) sample_platform sample_service ''p'' [] sample_request (world_with []) = (Inl e, w') \<and>
     queued_ids w' \<subseteq> queued_ids (world_with [])"
proof -
  let ?e = "api_error_new 401 ''unauthorized'' ''A valid ZebraTamer bearer token is required''"
  have run: "v2_create_job (\<lambda>_ _ w. (Inr (), w)) sample_platform sample_service ''p'' [] sample_request (world_with []) =
      (Inl ?e, world_with [])"
    by (simp add: v2_create_job_def admit_v2_def v2_authorize_def)
  have "queued_ids (world_with []) \<subseteq> queued_ids (world_with [])"
    by (rule v2_refused_not_queued [OF run]) simp_all
  with run show ?thesis by blast
qed

theorem keys_stay_unique_witness:
  "keys_unique (snd (admit_upload sample_platform sample_service ''p'' upload_headers [Inr [94, 88, 65]] (world_with []))) \<and>
   keys_unique (snd (admit_v2 sample_platform sample_service ''p'' print_headers sample_request (world_with [])))"
proof (rule keys_stay_unique)
  show "quiet (world_with [])" "jobs_keyed (world_with [])" using empty_world(1) by (simp_all add: calm_def)
qed simp_all

theorem v2_retry_returns_job_witness:
  "\<exists>j w w'. jobs_of w 7 = Some j \<and> only_files {} w w' \<and>
     v2_create_job (\<lambda>_ _ w. (Inr (), w)) sample_platform sample_service ''p'' print_headers sample_request w =
       (Inr (v2_job_value j), w')"
proof -
  obtain p where p: "prepare_job (pf_codecs sample_platform) ''p'' sample_request
      (pc_device_profile (wc_config sample_context)) = Inr p"
    using sample_prepared by (auto simp: sample_platform_def)
  define j where "j = (sample_job Queued)\<lparr>job_idempotency_key := Some ''k'', job_sha256 := Some (pj_request_hash p)\<rparr>"
  let ?w = "world_with [(JobFile 7, Doc (DJob j))]"
  have jobs: "jobs_of ?w = (\<lambda>i. if i = 7 then Some j else None)" by (simp add: jobs_of_def fun_eq_iff)
  have k: "sj_idempotency_key sample_request = ''k''" "sj_media_revision sample_request = None"
    by (simp_all add: sample_request_def)
  have q: "quiet ?w" by simp
  have u: "keys_unique ?w" by (auto simp: keys_unique_def holders_def jobs split: if_splits)
  have j: "jobs_of ?w 7 = Some j" "job_printer_id j = ''p''" "job_idempotency_key j = Some ''k''"
    "job_sha256 j = Some (pj_request_hash p)" by (simp add: jobs) (simp_all add: j_def sample_job_def)
  have "\<exists>w'. v2_create_job (\<lambda>_ _ w. (Inr (), w)) sample_platform sample_service ''p'' print_headers sample_request ?w =
      (Inr (v2_job_value j), w') \<and> only_files {} ?w w'"
    by (rule v2_retry_returns_job [OF q u j(1,2) _ j(4) print_authorized sample_service_simps(1) p])
       (simp_all add: j k)
  with j(1) show ?thesis by blast
qed

end
