(* ===== verification/Api.thy ===== *)
theory Api
  imports Submission_Sample
begin

text \<open>
  The HTTP interface of \<open>src/api.rs\<close> beside the submissions: the handlers of both versions. A
  handler that needs the thread of a printer asks it through
  the parameter \<open>ask\<close>, which stands for the operations of \<open>WorkerHandle\<close>: it answers with the
  reply of the thread, or with the reason why there is none. A request is what the framework
  has parsed: its parameters and its decoded body.
\<close>

section \<open>Paging\<close>

record page =
  pg_cursor :: nat
  pg_limit :: "nat option"

definition page_limit :: "page \<Rightarrow> nat" where
  "page_limit p = min 200 (max 1 (case pg_limit p of None \<Rightarrow> 50 | Some n \<Rightarrow> n))"

definition jobs_page :: "page \<Rightarrow> world \<Rightarrow> (api_error + job list \<times> nat) \<times> world" where
  "jobs_page p w =
     bindE (mapE api_internal (list_jobs_page (pg_cursor p) (page_limit p) w)) (\<lambda>items w.
       (Inr (items, pg_cursor p + length items), w))"

definition event_page :: "page \<Rightarrow> uuid option \<Rightarrow> world \<Rightarrow> (api_error + event list \<times> nat) \<times> world" where
  "event_page p jid w = mapE api_internal (read_events (pg_cursor p) (page_limit p) jid w)"

definition events :: "page \<Rightarrow> world \<Rightarrow> (api_error + event list \<times> nat) \<times> world" where
  "events p w = event_page p None w"

definition job_events :: "uuid \<Rightarrow> page \<Rightarrow> world \<Rightarrow> (api_error + event list \<times> nat) \<times> world" where
  "job_events jid p w = event_page p (Some jid) w"

section \<open>Version 1\<close>

definition job_of :: "uuid \<Rightarrow> world \<Rightarrow> (api_error + job) \<times> world" where
  "job_of jid w = mapE (\<lambda>_. api_not_found ''job_not_found'') (load_job jid w)"

definition payload_of :: "config \<Rightarrow> uuid \<Rightarrow> world \<Rightarrow> (api_error + u8 list) \<times> world" where
  "payload_of c jid w =
     (if cf_storage_mode c = MetadataOnly then (Inl (api_not_found ''payload_not_retained''), w)
      else
        bindE (mapE (\<lambda>_. api_not_found ''job_not_found'') (load_job jid w)) (\<lambda>j w.
          case job_payload_path j of
            None \<Rightarrow> (Inl (api_not_found ''payload_not_retained''), w)
          | Some p \<Rightarrow> mapE (\<lambda>_. api_not_found ''payload_not_found'') (open_file p w)))"

record printer_item =
  pi_id :: string
  pi_display_name :: string
  pi_transport :: string
  pi_driver :: string
  pi_device :: string

definition item_of :: "printer_config \<Rightarrow> printer_item" where
  "item_of p = \<lparr>pi_id = pc_id p, pi_display_name = pc_display_name p, pi_transport = pc_transport p,
     pi_driver = pc_driver p, pi_device = pc_device p\<rparr>"

definition printers :: "service \<Rightarrow> printer_item list" where
  "printers sv = map item_of (sv_printers sv)"

definition drivers :: "driver_descriptor list" where
  "drivers = DRIVERS"

text \<open>What one printer is shown as: the name asked for and three fields of its thread's
  configuration.\<close>

record printer_view =
  pv_id :: string
  pv_display_name :: string
  pv_transport :: string
  pv_device :: string

definition printer_of :: "service \<Rightarrow> string \<Rightarrow> api_error + printer_view" where
  "printer_of sv pid = bindR (find_worker sv pid) (\<lambda>x.
     Inr \<lparr>pv_id = pid, pv_display_name = pc_display_name (wc_config x), pv_transport = pc_transport (wc_config x),
       pv_device = pc_device (wc_config x)\<rparr>)"

definition find_thread :: "service \<Rightarrow> string \<Rightarrow> api_error + worker_context \<times> worker" where
  "find_thread sv pid = or_error (api_not_found ''printer_not_found'') (sv_workers sv pid)"

definition snapshot_of :: "service \<Rightarrow> string \<Rightarrow> api_error + printer_snapshot" where
  "snapshot_of sv pid = bindR (find_thread sv pid) (\<lambda>t. Inr (wk_snapshot (snd t)))"

definition capabilities_of :: "service \<Rightarrow> string \<Rightarrow> api_error + (string \<times> bool observed) list" where
  "capabilities_of sv pid = bindR (find_thread sv pid) (\<lambda>t. Inr (sn_capabilities (wk_snapshot (snd t))))"

definition media_shown :: "service \<Rightarrow> string \<Rightarrow> world \<Rightarrow> (api_error + media_state observed) \<times> world" where
  "media_shown sv pid w =
     bindE (find_worker sv pid, w) (\<lambda>_ w.
     bindE (mapE api_internal (load_media pid w)) (\<lambda>m w.
       case m of
         Some v \<Rightarrow> (case observe_value v None ''ledger'' w of (ob, w) \<Rightarrow> (Inr ob, w))
       | None \<Rightarrow> (Inr (observed_unknown\<lparr>obs_state := NotConfigured, obs_reason := Some ''no_media_loaded''\<rparr>), w)))"

definition control_error :: "string \<Rightarrow> api_error" where
  "control_error e =
     (if starts_with ''conflict:'' e then api_error_new 409 ''conflict'' e
      else api_error_new 502 ''device_operation_failed'' e)"

definition state_with_revision :: "platform \<Rightarrow> string \<Rightarrow> world \<Rightarrow>
    (string + media_state option \<times> string option) \<times> world" where
  "state_with_revision pf pid w =
     bindE (load_media pid w) (\<lambda>m w. (Inr (m, map_option (media_revision (pf_digest pf)) m), w))"

fun as_observation :: "doc \<Rightarrow> observation option" where
  "as_observation (DObservation r) = Some r"
| "as_observation _ = None"

text \<open>\<open>last_save\<close> is read as any JSON value.\<close>

record configuration_view =
  cv_observation :: "observation option"
  cv_profile :: device_profile
  cv_last_save :: "doc option"
  cv_media :: "media_state option \<times> string option"
  cv_webui_enabled :: bool

definition ok_value :: "('e + 'a) \<times> world \<Rightarrow> 'a option \<times> world" where
  "ok_value m = (case m of (Inl _, w) \<Rightarrow> (None, w) | (Inr x, w) \<Rightarrow> (Some x, w))"

definition configuration_of :: "platform \<Rightarrow> service \<Rightarrow> string \<Rightarrow> world \<Rightarrow> (api_error + configuration_view) \<times> world" where
  "configuration_of pf sv pid w =
     bindE (find_worker sv pid, w) (\<lambda>x w.
       case ok_value (read_json as_observation (ConfigurationFile pid) w) of (observed, w) \<Rightarrow>
       case ok_value (read_json Some (AttemptFile pid) w) of (last_save, w) \<Rightarrow>
         bindE (mapE api_internal (state_with_revision pf pid w)) (\<lambda>media w.
           (Inr \<lparr>cv_observation = observed, cv_profile = pc_device_profile (wc_config x), cv_last_save = last_save,
              cv_media = media, cv_webui_enabled = cf_webui_enabled (sv_config sv)\<rparr>, w)))"

type_synonym asking = "string \<Rightarrow> command \<Rightarrow> world \<Rightarrow> (string + answer) \<times> world"

definition probe_printer :: "asking \<Rightarrow> service \<Rightarrow> string \<Rightarrow> world \<Rightarrow> (api_error + answer) \<times> world" where
  "probe_printer ask sv pid w =
     bindE (find_worker sv pid, w) (\<lambda>_ w. mapE api_unavailable (ask pid (Probe True) w))"

definition read_configuration_of :: "asking \<Rightarrow> service \<Rightarrow> string \<Rightarrow> headers \<Rightarrow> world \<Rightarrow> (api_error + answer) \<times> world" where
  "read_configuration_of ask sv pid hs w =
     bindE (authorize (sv_config sv) hs, w) (\<lambda>_ w.
     bindE (find_worker sv pid, w) (\<lambda>_ w. mapE control_error (ask pid (Control ReadDevice) w)))"

definition save_configuration_of :: "asking \<Rightarrow> service \<Rightarrow> string \<Rightarrow> headers \<Rightarrow> save_request \<Rightarrow> world \<Rightarrow>
    (api_error + answer) \<times> world" where
  "save_configuration_of ask sv pid hs r w =
     bindE (authorize (sv_config sv) hs, w) (\<lambda>_ w.
     bindE (find_worker sv pid, w) (\<lambda>x w.
     bindE (map_sum api_bad_request id (validate_settings (sr_settings r) (pc_device_profile (wc_config x))), w) (\<lambda>_ w.
       if \<not> sr_confirm_save_all r then (Inl (api_bad_request ''Explicit save confirmation is required''), w)
       else mapE control_error (ask pid (Control (SaveDevice r)) w))))"

definition media_authorization :: "config \<Rightarrow> headers \<Rightarrow> api_error + unit" where
  "media_authorization c hs = (if cf_admin_token c \<noteq> None then authorize c hs else Inr ())"

definition valid_media :: "(string \<Rightarrow> api_error) \<Rightarrow> media_definition \<Rightarrow> api_error + unit" where
  "valid_media err d = map_sum err id (media_validate d)"

definition media_operation :: "asking \<Rightarrow> service \<Rightarrow> string \<Rightarrow> headers \<Rightarrow> api_error + unit \<Rightarrow> control_op \<Rightarrow> world \<Rightarrow>
    (api_error + answer) \<times> world" where
  "media_operation ask sv pid hs check_body op w =
     bindE (media_authorization (sv_config sv) hs, w) (\<lambda>_ w.
     bindE (check_body, w) (\<lambda>_ w.
     bindE (find_worker sv pid, w) (\<lambda>_ w. mapE control_error (ask pid (Control op) w))))"

definition put_media :: "asking \<Rightarrow> service \<Rightarrow> string \<Rightarrow> headers \<Rightarrow> media_definition \<Rightarrow> world \<Rightarrow>
    (api_error + answer) \<times> world" where
  "put_media ask sv pid hs d w = media_operation ask sv pid hs (valid_media api_bad_request d) (MediaLoad d) w"

definition edit_media :: "asking \<Rightarrow> service \<Rightarrow> string \<Rightarrow> headers \<Rightarrow> string \<Rightarrow> media_definition \<Rightarrow> world \<Rightarrow>
    (api_error + answer) \<times> world" where
  "edit_media ask sv pid hs expected d w =
     media_operation ask sv pid hs (valid_media api_bad_request d) (MediaEdit expected d) w"

definition unload_media :: "asking \<Rightarrow> service \<Rightarrow> string \<Rightarrow> headers \<Rightarrow> world \<Rightarrow> (api_error + answer) \<times> world" where
  "unload_media ask sv pid hs w = media_operation ask sv pid hs (Inr ()) MediaUnload w"

definition adjust_media :: "asking \<Rightarrow> service \<Rightarrow> string \<Rightarrow> headers \<Rightarrow> media_adjustment \<Rightarrow> world \<Rightarrow>
    (api_error + answer) \<times> world" where
  "adjust_media ask sv pid hs a w = media_operation ask sv pid hs (Inr ()) (MediaAdjust a) w"

section \<open>Version 2\<close>

record v2_printer =
  vp_id :: string
  vp_service_id :: "string option"
  vp_display_name :: string
  vp_profile :: device_profile
  vp_identity :: identity_snapshot
  vp_status :: status_snapshot
  vp_jobs :: job_summary
  vp_observed_at :: time
  vp_media :: "media_state option \<times> string option"

definition v2_printer_value :: "platform \<Rightarrow> service \<Rightarrow> string \<Rightarrow> world \<Rightarrow> (api_error + v2_printer) \<times> world" where
  "v2_printer_value pf sv pid w =
     bindE (or_error (v2_not_found ''printer_not_found'') (sv_workers sv pid), w) (\<lambda>(x, wk) w.
     bindE (mapE v2_internal (state_with_revision pf pid w)) (\<lambda>media w.
       let s = wk_snapshot wk
       in (Inr \<lparr>vp_id = pid, vp_service_id = cf_agent_id (sv_config sv),
            vp_display_name = pc_display_name (wc_config x), vp_profile = pc_device_profile (wc_config x),
            vp_identity = sn_identity s, vp_status = sn_status s, vp_jobs = sn_jobs s,
            vp_observed_at = sn_updated_at s, vp_media = media\<rparr>, w)))"

fun v2_printer_values :: "platform \<Rightarrow> service \<Rightarrow> printer_config list \<Rightarrow> world \<Rightarrow> (api_error + v2_printer list) \<times> world" where
  "v2_printer_values pf sv [] w = (Inr [], w)"
| "v2_printer_values pf sv (p # ps) w =
     bindE (v2_printer_value pf sv (pc_id p) w) (\<lambda>v w.
     bindE (v2_printer_values pf sv ps w) (\<lambda>vs w. (Inr (v # vs), w)))"

definition v2_printers :: "platform \<Rightarrow> service \<Rightarrow> headers \<Rightarrow> world \<Rightarrow> (api_error + v2_printer list) \<times> world" where
  "v2_printers pf sv hs w =
     bindE (v2_authorize (sv_config sv) hs ReadScope, w) (\<lambda>_ w.
       v2_printer_values pf sv (filter pc_enabled (sv_printers sv)) w)"

definition v2_printer_of :: "platform \<Rightarrow> service \<Rightarrow> string \<Rightarrow> headers \<Rightarrow> world \<Rightarrow> (api_error + v2_printer) \<times> world" where
  "v2_printer_of pf sv pid hs w =
     bindE (v2_authorize (sv_config sv) hs ReadScope, w) (\<lambda>_ w. v2_printer_value pf sv pid w)"

definition v2_job_of :: "service \<Rightarrow> uuid \<Rightarrow> headers \<Rightarrow> world \<Rightarrow> (api_error + v2_job) \<times> world" where
  "v2_job_of sv jid hs w =
     bindE (v2_authorize (sv_config sv) hs ReadScope, w) (\<lambda>_ w.
     bindE (mapE (\<lambda>_. v2_not_found ''job_not_found'') (load_job jid w)) (\<lambda>j w. (Inr (v2_job_value j), w)))"

definition v2_jobs :: "service \<Rightarrow> page \<Rightarrow> headers \<Rightarrow> world \<Rightarrow> (api_error + v2_job list \<times> nat) \<times> world" where
  "v2_jobs sv p hs w =
     bindE (v2_authorize (sv_config sv) hs ReadScope, w) (\<lambda>_ w.
     bindE (mapE v2_internal (list_jobs_page (pg_cursor p) (page_limit p) w)) (\<lambda>items w.
       (Inr (map v2_job_value items, pg_cursor p + length items), w)))"

definition v2_job_by_idempotency :: "service \<Rightarrow> string \<Rightarrow> headers \<Rightarrow> world \<Rightarrow> (api_error + v2_job) \<times> world" where
  "v2_job_by_idempotency sv key hs w =
     bindE (v2_authorize (sv_config sv) hs ReadScope, w) (\<lambda>_ w.
     bindE (mapE v2_internal (find_job_by_idempotency_key_any key w)) (\<lambda>r w.
       case r of
         None \<Rightarrow> (Inl (v2_not_found ''job_not_found''), w)
       | Some j \<Rightarrow> (Inr (v2_job_value j), w)))"

definition v2_set_queue_paused :: "asking \<Rightarrow> service \<Rightarrow> headers \<Rightarrow> string \<Rightarrow> bool \<Rightarrow> world \<Rightarrow>
    (api_error + string \<times> bool) \<times> world" where
  "v2_set_queue_paused ask sv hs pid paused w =
     bindE (v2_authorize (sv_config sv) hs AdminScope, w) (\<lambda>_ w.
     bindE (v2_find_worker sv pid, w) (\<lambda>_ w.
     bindE (mapE (api_error_new 409 ''queue_control_failed'') (ask pid (SetQueuePaused paused) w)) (\<lambda>_ w.
       (Inr (pid, paused), w))))"

definition v2_pause_queue :: "asking \<Rightarrow> service \<Rightarrow> headers \<Rightarrow> string \<Rightarrow> world \<Rightarrow> (api_error + string \<times> bool) \<times> world" where
  "v2_pause_queue ask sv hs pid w = v2_set_queue_paused ask sv hs pid True w"

definition v2_resume_queue :: "asking \<Rightarrow> service \<Rightarrow> headers \<Rightarrow> string \<Rightarrow> world \<Rightarrow> (api_error + string \<times> bool) \<times> world" where
  "v2_resume_queue ask sv hs pid w = v2_set_queue_paused ask sv hs pid False w"

definition v2_cancel_job :: "asking \<Rightarrow> service \<Rightarrow> uuid \<Rightarrow> headers \<Rightarrow> world \<Rightarrow> (api_error + v2_job) \<times> world" where
  "v2_cancel_job ask sv jid hs w =
     bindE (v2_authorize (sv_config sv) hs PrintScope, w) (\<lambda>_ w.
     bindE (mapE (\<lambda>_. v2_not_found ''job_not_found'') (load_job jid w)) (\<lambda>j w.
     bindE (v2_find_worker sv (job_printer_id j), w) (\<lambda>_ w.
     bindE (mapE (api_error_new 409 ''job_not_cancellable'') (ask (job_printer_id j) (Cancel jid) w)) (\<lambda>_ w.
     bindE (mapE v2_internal (load_job jid w)) (\<lambda>cancelled w. (Inr (v2_job_value cancelled), w))))))"

definition v2_admin_printers :: "service \<Rightarrow> headers \<Rightarrow> api_error + printer_config list" where
  "v2_admin_printers sv hs =
     bindR (v2_authorize (sv_config sv) hs AdminScope) (\<lambda>_. Inr (sv_printers sv))"

definition v2_admin_usb_devices :: "service \<Rightarrow> headers \<Rightarrow> world \<Rightarrow> (api_error + usb_found list) \<times> world" where
  "v2_admin_usb_devices sv hs w =
     bindE (v2_authorize (sv_config sv) hs AdminScope, w) (\<lambda>_ w. mapE v2_internal (discover_usb_printers w))"

definition v2_admin_load_media :: "asking \<Rightarrow> service \<Rightarrow> string \<Rightarrow> headers \<Rightarrow> media_definition \<Rightarrow> world \<Rightarrow>
    (api_error + answer) \<times> world" where
  "v2_admin_load_media ask sv pid hs d w =
     bindE (v2_authorize (sv_config sv) hs AdminScope, w) (\<lambda>_ w.
     bindE (valid_media v2_bad_request d, w) (\<lambda>_ w.
     bindE (v2_find_worker sv pid, w) (\<lambda>_ w.
       mapE (api_error_new 409 ''media_load_failed'') (ask pid (Control (MediaLoad d)) w))))"

definition v2_admin_maintenance :: "asking \<Rightarrow> service \<Rightarrow> string \<Rightarrow> string \<Rightarrow> headers \<Rightarrow> world \<Rightarrow>
    (api_error + answer) \<times> world" where
  "v2_admin_maintenance ask sv pid action hs w =
     bindE (v2_authorize (sv_config sv) hs AdminScope, w) (\<lambda>_ w.
     bindE (v2_find_worker sv pid, w) (\<lambda>_ w.
       mapE (api_error_new 409 ''maintenance_failed'') (ask pid (Control (Maintenance action)) w)))"

section \<open>The administration of printers\<close>

definition named_printer :: "string \<Rightarrow> printer_config \<Rightarrow> api_error + printer_config" where
  "named_printer pid p =
     (let p = (if pc_id p = [] then p\<lparr>pc_id := pid\<rparr> else p)
      in if pc_id p \<noteq> pid then Inl (v2_bad_request ''Path printer id and document printer id must match'')
         else Inr p)"

text \<open>\<open>position\<close> and the replacement of the first printer of that name, or a new one at the
  end.\<close>

fun replace_printer :: "string \<Rightarrow> printer_config \<Rightarrow> printer_config list \<Rightarrow> printer_config list" where
  "replace_printer pid p [] = [p]"
| "replace_printer pid p (q # qs) = (if pc_id q = pid then p # qs else q # replace_printer pid p qs)"

definition known_printer :: "string \<Rightarrow> printer_config list \<Rightarrow> bool" where
  "known_printer pid ps = list_ex (\<lambda>q. pc_id q = pid) ps"

definition open_jobs_check :: "bool \<Rightarrow> string \<Rightarrow> world \<Rightarrow> (api_error + unit) \<times> world" where
  "open_jobs_check existing pid w =
     (if existing
      then bindE (mapE v2_internal (has_open_jobs pid w)) (\<lambda>busy w.
             if busy
             then (Inl (api_error_new 409 ''printer_has_open_jobs''
                     ''Pause or finish all open jobs before changing this printer''), w)
             else (Inr (), w))
      else (Inr (), w))"

definition respawn :: "platform \<Rightarrow> service \<Rightarrow> printer_config list \<Rightarrow> printer_config \<Rightarrow> world \<Rightarrow> service \<times> world" where
  "respawn pf sv ps p w =
     (if pc_enabled p
      then (case start_worker (context_for pf (sv_config sv) p) w of
        (wk, w) \<Rightarrow> (sv\<lparr>sv_printers := ps,
          sv_workers := (sv_workers sv)(pc_id p \<mapsto> (context_for pf (sv_config sv) p, wk))\<rparr>, w))
      else (sv\<lparr>sv_printers := ps, sv_workers := (sv_workers sv)(pc_id p := None)\<rparr>, w))"

definition save_printer_document :: "service \<Rightarrow> string \<Rightarrow> headers \<Rightarrow> printer_config \<Rightarrow> world \<Rightarrow>
    (api_error + printer_config \<times> printer_config list) \<times> world" where
  "save_printer_document sv pid hs body w =
     bindE (v2_authorize (sv_config sv) hs AdminScope, w) (\<lambda>_ w.
     bindE (named_printer pid body, w) (\<lambda>p w.
     bindE (open_jobs_check (known_printer pid (sv_printers sv)) pid w) (\<lambda>_ w.
     let candidate = replace_printer pid p (sv_printers sv) in
     bindE (map_sum v2_bad_request id (config_validate ((sv_config sv)\<lparr>cf_printers := candidate\<rparr>)), w) (\<lambda>_ w.
     bindE (mapE v2_internal (save_printer_configs candidate w)) (\<lambda>_ w. (Inr (p, candidate), w))))))"

definition v2_admin_save_printer :: "platform \<Rightarrow> service \<Rightarrow> string \<Rightarrow> headers \<Rightarrow> printer_config \<Rightarrow> world \<Rightarrow>
    (api_error + printer_config) \<times> service \<times> world" where
  "v2_admin_save_printer pf sv pid hs body w =
     (case save_printer_document sv pid hs body w of
        (Inl e, w) \<Rightarrow> (Inl e, sv, w)
      | (Inr (p, candidate), w) \<Rightarrow>
          (let existing = known_printer pid (sv_printers sv);
               (sv, w) = respawn pf sv candidate p w;
               (ev, w) = next_event (if existing then ''printer_updated'' else ''printer_created'') (Some pid) None
                 (JObject [(''enabled'', JBool (pc_enabled p)), (''transport'', JString (pc_transport p))]) w
           in case mapE v2_internal (append_event ev w) of
                (Inl e, w) \<Rightarrow> (Inl e, sv, w)
              | (Inr _, w) \<Rightarrow> (Inr p, sv, w)))"

end
