(* ===== verification/Metrics.thy ===== *)
theory Metrics
  imports Startup_Recovery
begin

text \<open>
  The metrics page (\<open>src/metrics.rs\<close>): the state of the process, of every printer and of its roll
  in the text format of Prometheus. Names that come from printers and clients are escaped. The
  second half is the other side of the format, a reader, and shows that it gets back exactly
  what was to be reported, whatever the names contain.
\<close>

abbreviation LF :: char where "LF \<equiv> CHR 0x0A"
abbreviation DQ :: char where "DQ \<equiv> CHR 0x22"
abbreviation BS :: char where "BS \<equiv> CHR 0x5C"

section \<open>Writing\<close>

text \<open>\<open>str::replace\<close> with a pattern that is not empty.\<close>

function replace_all :: "string \<Rightarrow> string \<Rightarrow> string \<Rightarrow> string" where
  "replace_all pat r s =
     (if pat = [] then s
      else if starts_with pat s \<and> s \<noteq> [] then r @ replace_all pat r (drop (length pat) s)
      else case s of [] \<Rightarrow> [] | c # t \<Rightarrow> c # replace_all pat r t)"
  by pat_completeness auto
termination by (relation "measure (\<lambda>(pat, r, s). length s)") (auto simp: length_greater_0_conv)

declare replace_all.simps [simp del]

definition esc :: "string \<Rightarrow> string" where
  "esc s = replace_all [LF] [BS, CHR ''n''] (replace_all [DQ] [BS, DQ] (replace_all [BS] [BS, BS] s))"

fun label_text :: "(string \<times> string) list \<Rightarrow> string" where
  "label_text [] = []"
| "label_text ((k, v) # ls) =
     k @ ''='' @ [DQ] @ v @ [DQ] @ (if ls = [] then [] else CHR '','' # label_text ls)"

text \<open>The \<open>writeln!\<close> of one sample: a name, its labels if it has any, and a value.\<close>

definition metric_line :: "string \<Rightarrow> (string \<times> string) list \<Rightarrow> string \<Rightarrow> string" where
  "metric_line name ls value =
     name @ (if ls = [] then [] else ''{'' @ label_text ls @ ''}'') @ '' '' @ value @ [LF]"

definition comment_line :: "string \<Rightarrow> string" where
  "comment_line s = CHR ''#'' # s @ [LF]"

section \<open>What is reported\<close>

text \<open>What the process knows of itself: its start, its version, what \<open>statvfs\<close> says of the data
  directory (available blocks and their size), and the conversions of an integer and of a
  thousandth of it to \<open>f64\<close>.\<close>

record process =
  ps_started :: time
  ps_version :: string
  ps_commit :: string
  ps_statvfs :: "(u64 \<times> u64) option"
  ps_as_f64 :: "u64 \<Rightarrow> f64"
  ps_thousandth :: "u64 \<Rightarrow> f64"

definition filesystem_free :: "string \<Rightarrow> (u64 \<times> u64) option \<Rightarrow> u64" where
  "filesystem_free path vfs =
     (if CHR 0x00 \<in> set path then 0
      else case vfs of None \<Rightarrow> 0
        | Some (available, block) \<Rightarrow> (case checked_mul available block of None \<Rightarrow> - 1 | Some n \<Rightarrow> n))"

definition f64_one :: f64 where "f64_one = 0x3FF0000000000000"

definition bool_obs :: "bool observed \<Rightarrow> f64" where
  "bool_obs v = (if obs_state v = Value \<and> obs_value v = Some True then f64_one else f64_zero)"

text \<open>The name of a state: its \<open>Debug\<close> text in lower case, with two words taken apart.\<close>

fun debug_state :: "value_state \<Rightarrow> string" where
  "debug_state Value = ''Value''"
| "debug_state Stale = ''Stale''"
| "debug_state NotSupported = ''NotSupported''"
| "debug_state Unavailable = ''Unavailable''"
| "debug_state Unknown = ''Unknown''"
| "debug_state NotConfigured = ''NotConfigured''"

definition state_text :: "value_state \<Rightarrow> string" where
  "state_text s = replace_all ''notconfigured'' ''not_configured''
     (replace_all ''notsupported'' ''not_supported'' (ascii_lowercase (debug_state s)))"

definition STATE_NAMES :: "string list" where
  "STATE_NAMES = [''value'', ''stale'', ''not_supported'', ''unavailable'', ''unknown'', ''not_configured'']"

fun confidence_number :: "accounting_confidence \<Rightarrow> nat" where
  "confidence_number Exact = 3"
| "confidence_number Estimated = 2"
| "confidence_number Degraded = 1"
| "confidence_number UnknownConfidence = 0"

definition metric :: "(f64 \<Rightarrow> string) \<Rightarrow> string \<Rightarrow> string \<Rightarrow> f64 \<Rightarrow> string" where
  "metric show name p v = metric_line name [(''printer'', p)] (show v)"

definition FAULTS :: "string list" where
  "FAULTS = [''paused'', ''media_out'', ''ribbon_out'', ''head_open'', ''temperature'']"

definition fault_of :: "status_snapshot \<Rightarrow> string \<Rightarrow> bool observed" where
  "fault_of s fault =
     (if fault = ''paused'' then st_paused s
      else if fault = ''media_out'' then st_media_out s
      else if fault = ''ribbon_out'' then st_ribbon_out s
      else if fault = ''head_open'' then st_head_open s
      else st_temperature_fault s)"

definition capability_lines :: "string \<Rightarrow> string \<times> bool observed \<Rightarrow> string" where
  "capability_lines p cv = concat (map (\<lambda>state_name.
     metric_line ''zpl_printer_capability_state''
       [(''printer'', p), (''capability'', esc (fst cv)), (''state'', state_name)]
       (if state_text (obs_state (snd cv)) = state_name then ''1'' else ''0'')) STATE_NAMES)"

definition query_lines :: "process \<Rightarrow> (f64 \<Rightarrow> string) \<Rightarrow> string \<Rightarrow> string \<times> query_stats \<Rightarrow> string" where
  "query_lines pr show p qs =
     (let ls = [(''printer'', p), (''query'', esc (fst qs))]; stats = snd qs in
      metric_line ''zpl_printer_queries_total'' ls (show_word (qs_count stats)) @
      metric_line ''zpl_printer_query_duration_seconds_total'' ls (show (ps_thousandth pr (qs_duration_ms_total stats))) @
      metric_line ''zpl_printer_query_response_bytes_total'' ls (show_word (qs_response_bytes_total stats)) @
      metric_line ''zpl_printer_query_timeouts_total'' ls (show_word (qs_timeouts stats)))"

definition media_lines :: "string \<Rightarrow> media_state \<Rightarrow> string" where
  "media_lines p m =
     metric_line ''zpl_printer_media_remaining_labels'' [(''printer'', p)] (show_word (ms_remaining_labels m)) @
     metric_line ''zpl_printer_media_low'' [(''printer'', p)]
       (if ms_remaining_labels m \<le> md_low_warning_threshold (ms_media m) then ''1'' else ''0'') @
     metric_line ''zpl_printer_media_accounting_confidence'' [(''printer'', p)]
       (show_nat (confidence_number (ms_accounting_confidence m))) @
     metric_line ''zpl_printer_media_consumed_labels_total'' [(''printer'', p), (''reason'', ''all'')]
       (show_word (ms_consumed_labels_total m)) @
     metric_line ''zpl_printer_media_accounting_deficit_labels'' [(''printer'', p)]
       (show_word (ms_accounting_deficit_labels m))"

definition printer_lines :: "process \<Rightarrow> (f64 \<Rightarrow> string) \<Rightarrow> string \<Rightarrow> printer_snapshot \<Rightarrow> media_state option \<Rightarrow> string" where
  "printer_lines pr show pid s media =
     (let p = esc pid in
      metric show ''zpl_printer_present'' p (bool_obs (ts_present (sn_transport s))) @
      metric show ''zpl_printer_open'' p (bool_obs (ts_open (sn_transport s))) @
      metric show ''zpl_printer_protocol_up'' p (bool_obs (ts_protocol_up (sn_transport s))) @
      metric show ''zpl_printer_ready'' p (bool_obs (st_ready (sn_status s))) @
      metric show ''zpl_printer_job_queue_depth'' p (ps_as_f64 pr (js_queue_depth (sn_jobs s))) @
      concat (map (\<lambda>fault. metric_line ''zpl_printer_fault'' [(''printer'', p), (''fault'', fault)]
        (show (bool_obs (fault_of (sn_status s) fault)))) FAULTS) @
      concat (map (capability_lines p) (sn_capabilities s)) @
      concat (map (query_lines pr show p) (sn_query_stats s)) @
      (case media of None \<Rightarrow> [] | Some m \<Rightarrow> media_lines p m))"

text \<open>The printers, in the order the table of threads happens to have; a roll that cannot be read
  is left out.\<close>

fun render_printers :: "process \<Rightarrow> (f64 \<Rightarrow> string) \<Rightarrow> (string \<times> printer_snapshot) list \<Rightarrow> world \<Rightarrow> string \<times> world" where
  "render_printers pr show [] w = ([], w)"
| "render_printers pr show ((pid, s) # ps) w =
     (let (r, w) = load_media pid w;
          lines = printer_lines pr show pid s (case r of Inl _ \<Rightarrow> None | Inr m \<Rightarrow> m);
          (rest, w) = render_printers pr show ps w
      in (lines @ rest, w))"

text \<open>\<open>(now() - started).num_seconds().max(0)\<close>; times count nanoseconds.\<close>

definition uptime_seconds :: "time \<Rightarrow> time \<Rightarrow> nat" where
  "uptime_seconds started t = nat ((t - started) div 1000000000)"

definition header_lines :: "process \<Rightarrow> string \<Rightarrow> nat \<Rightarrow> string" where
  "header_lines pr dir uptime =
     comment_line '' HELP zpl_agent_build_info Build information.'' @
     comment_line '' TYPE zpl_agent_build_info gauge'' @
     metric_line ''zpl_agent_build_info'' [(''version'', ps_version pr), (''commit'', ps_commit pr)] ''1'' @
     comment_line '' TYPE zpl_agent_uptime_seconds gauge'' @
     metric_line ''zpl_agent_uptime_seconds'' [] (show_nat uptime) @
     comment_line '' TYPE zpl_agent_filesystem_free_bytes gauge'' @
     metric_line ''zpl_agent_filesystem_free_bytes'' [] (show_word (filesystem_free dir (ps_statvfs pr)))"

definition render :: "process \<Rightarrow> (f64 \<Rightarrow> string) \<Rightarrow> config \<Rightarrow> (string \<times> printer_snapshot) list \<Rightarrow> world \<Rightarrow> string \<times> world" where
  "render pr show c ps w =
     (let (t, w) = now w;
          head = header_lines pr (cf_data_dir c) (uptime_seconds (ps_started pr) t);
          (rest, w) = render_printers pr show ps w
      in (head @ rest, w))"

section \<open>Reading\<close>

text \<open>What a scraper sees: the samples of a page, with the names as they were before they were
  escaped.\<close>

type_synonym series = "string \<times> (string \<times> string) list \<times> string"

fun read_quoted :: "string \<Rightarrow> (string \<times> string) option" where
  "read_quoted [] = None"
| "read_quoted [c] = (if c = DQ then Some ([], []) else None)"
| "read_quoted (c # d # s) =
     (if c = DQ then Some ([], d # s)
      else if c = BS then map_option (apfst (Cons (if d = CHR ''n'' then LF else d))) (read_quoted s)
      else map_option (apfst (Cons c)) (read_quoted (d # s)))"

lemma dropWhile_length: "dropWhile P s = x # y # t \<Longrightarrow> Suc (length t) < length s"
  using length_dropWhile_le [of P s] by simp

lemma read_quoted_shorter: "read_quoted s = Some (v, t) \<Longrightarrow> length t < length s"
  by (induction s arbitrary: v rule: read_quoted.induct) (fastforce split: if_splits)+

function read_labels :: "string \<Rightarrow> ((string \<times> string) list \<times> string) option" where
  "read_labels s =
     (case dropWhile (\<lambda>c. c \<noteq> CHR ''='') s of
        _ # q # t \<Rightarrow>
          (if q \<noteq> DQ then None
           else case read_quoted t of
             Some (v, d # u) \<Rightarrow>
               (if d = CHR '','' then map_option (apfst (Cons (takeWhile (\<lambda>c. c \<noteq> CHR ''='') s, v))) (read_labels u)
                else if d = CHR ''}'' then Some ([(takeWhile (\<lambda>c. c \<noteq> CHR ''='') s, v)], u)
                else None)
           | _ \<Rightarrow> None)
      | _ \<Rightarrow> None)"
  by pat_completeness auto
termination
  by (relation "measure length") (auto dest!: read_quoted_shorter dest: dropWhile_length)

declare read_labels.simps [simp del]

text \<open>A sample, with what follows its line.\<close>

definition read_value :: "string \<Rightarrow> string \<times> string" where
  "read_value s = (takeWhile (\<lambda>c. c \<noteq> LF) s, drop 1 (dropWhile (\<lambda>c. c \<noteq> LF) s))"

definition read_sample :: "string \<Rightarrow> (series \<times> string) option" where
  "read_sample s =
     (let name = takeWhile (\<lambda>c. c \<noteq> CHR ''{'' \<and> c \<noteq> CHR '' '') s in
      case dropWhile (\<lambda>c. c \<noteq> CHR ''{'' \<and> c \<noteq> CHR '' '') s of
        [] \<Rightarrow> None
      | c # t \<Rightarrow>
          (if c = CHR '' '' then Some ((name, [], fst (read_value t)), snd (read_value t))
           else case read_labels t of
             Some (ls, d # u) \<Rightarrow>
               (if d = CHR '' '' then Some ((name, ls, fst (read_value u)), snd (read_value u)) else None)
           | _ \<Rightarrow> None))"

lemma read_value_shorter: "length (snd (read_value s)) \<le> length s"
  using length_dropWhile_le [of "\<lambda>c. c \<noteq> LF" s] by (simp add: read_value_def)

lemma read_labels_shorter: "read_labels s = Some (ls, t) \<Longrightarrow> length t < length s"
proof (induction s arbitrary: ls rule: read_labels.induct)
  case (1 s)
  obtain e q r v d u where r: "dropWhile (\<lambda>c. c \<noteq> CHR ''='') s = e # q # r" "q = DQ" "read_quoted r = Some (v, d # u)"
      and after: "d = CHR '','' \<and> (\<exists>ls'. read_labels u = Some (ls', t)) \<or> d \<noteq> CHR '','' \<and> t = u"
    using "1.prems" by (subst (asm) read_labels.simps) (auto split: list.splits option.splits if_splits)
  have u: "length u < length s" using dropWhile_length [OF r(1)] read_quoted_shorter [OF r(3)] by simp
  from after show ?case
  proof
    assume more: "d = CHR '','' \<and> (\<exists>ls'. read_labels u = Some (ls', t))"
    then obtain ls' where "read_labels u = Some (ls', t)" by blast
    from "1.IH" [OF r(1) refl _ r(3) refl refl _ this] more r(2) u show ?thesis by simp
  qed (use u in simp)
qed

lemma read_sample_shorter:
  assumes "read_sample s = Some (x, t)"
  shows "length t < length s"
proof -
  let ?r = "dropWhile (\<lambda>c. c \<noteq> CHR ''{'' \<and> c \<noteq> CHR '' '') s"
  obtain c u where r: "?r = c # u" using assms by (cases ?r) (auto simp: read_sample_def Let_def)
  have u: "length u < length s" using r length_dropWhile_le [of "\<lambda>c. c \<noteq> CHR ''{'' \<and> c \<noteq> CHR '' ''" s] by simp
  show ?thesis
  proof (cases "c = CHR '' ''")
    case True
    then show ?thesis using assms r u read_value_shorter [of u] by (simp add: read_sample_def Let_def)
  next
    case False
    then obtain ls d v where l: "read_labels u = Some (ls, d # v)" and t: "t = snd (read_value v)"
      using assms r by (auto simp: read_sample_def Let_def split: option.splits list.splits if_splits)
    show ?thesis using read_labels_shorter [OF l] read_value_shorter [of v] t u by simp
  qed
qed

function read_page :: "string \<Rightarrow> series list option" where
  "read_page [] = Some []"
| "read_page (c # s) =
     (if c = CHR ''#'' then read_page (snd (read_value s))
      else case read_sample (c # s) of
        None \<Rightarrow> None
      | Some (x, t) \<Rightarrow> map_option (Cons x) (read_page t))"
  by pat_completeness auto
termination
proof (relation "measure length")
  show "(snd (read_value s), c # s) \<in> measure length" for c s
    using read_value_shorter [of s] by simp
  show "(t, c # s) \<in> measure length" if "read_sample (c # s) = Some r" "(x, t) = r" for c s r x t
    using read_sample_shorter [of "c # s" x t] that by simp
qed simp

lemma replace_char [simp]:
  "replace_all [c] r [] = []"
  "replace_all [c] r (x # s) = (if x = c then r else [x]) @ replace_all [c] r s"
  by (simp_all add: replace_all.simps [of "[c]" r] starts_with_def)

lemma replace_append [simp]: "replace_all [c] r (s @ t) = replace_all [c] r s @ replace_all [c] r t"
  by (induction s) simp_all

text \<open>The three passes of \<open>esc\<close> do not disturb each other.\<close>

lemma esc_simps [simp]:
  "esc [] = []"
  "esc (c # s) = (if c = BS then [BS, BS] else if c = DQ then [BS, DQ] else if c = LF then [BS, CHR ''n''] else [c]) @ esc s"
  by (simp_all add: esc_def)

lemma read_quoted_esc: "read_quoted (esc s @ DQ # t) = Some (s, t)"
proof (induction s)
  case Nil
  show ?case by (cases t) simp_all
next
  case (Cons c s)
  show ?case
  proof (cases "esc s @ DQ # t")
    case (Cons d u)
    with Cons.IH show ?thesis by simp
  qed simp
qed

definition label_name :: "string \<Rightarrow> bool" where
  "label_name k = list_all (\<lambda>c. c \<noteq> CHR ''='') k"

lemma read_labels_text:
  assumes "ls \<noteq> []" and "list_all (\<lambda>(k, v). label_name k) ls"
  shows "read_labels (label_text (map (apsnd esc) ls) @ ''}'' @ t) = Some (ls, t)"
  using assms
proof (induction ls)
  case (Cons kv ls)
  obtain k v where kv: "kv = (k, v)" by (cases kv)
  have k: "takeWhile (\<lambda>c. c \<noteq> CHR ''='') (k @ CHR ''='' # x) = k" "dropWhile (\<lambda>c. c \<noteq> CHR ''='') (k @ CHR ''='' # x) = CHR ''='' # x" for x
    using Cons.prems(2) kv by (auto simp: label_name_def list_all_iff takeWhile_append2 dropWhile_append2)
  show ?case
  proof (cases "ls = []")
    case True
    then show ?thesis
      using kv read_quoted_esc [of v "''}'' @ t"] by (simp add: read_labels.simps [of "_ @ _"] k)
  next
    case False
    with Cons have IH: "read_labels (label_text (map (apsnd esc) ls) @ ''}'' @ t) = Some (ls, t)" by simp
    let ?u = "CHR '','' # label_text (map (apsnd esc) ls) @ ''}'' @ t"
    show ?thesis
      using kv False IH read_quoted_esc [of v ?u] by (simp add: read_labels.simps [of "k @ _"] k)
  qed
qed simp

text \<open>What can be written: names without the characters that end them, and values on one line.\<close>

definition writable :: "series \<Rightarrow> bool" where
  "writable x =
     (case x of (name, ls, v) \<Rightarrow>
        name \<noteq> [] \<and> hd name \<noteq> CHR ''#'' \<and> list_all (\<lambda>c. c \<noteq> CHR ''{'' \<and> c \<noteq> CHR '' '') name \<and>
        list_all (\<lambda>(k, v). label_name k) ls \<and> LF \<notin> set v)"

definition show_series :: "series \<Rightarrow> string" where
  "show_series x = (case x of (name, ls, v) \<Rightarrow> metric_line name (map (apsnd esc) ls) v)"

lemma read_value_line: "LF \<notin> set v \<Longrightarrow> read_value (v @ LF # t) = (v, t)"
  by (induction v) (auto simp: read_value_def)

lemma read_sample_line:
  assumes "writable x"
  shows "read_sample (show_series x @ t) = Some (x, t)"
proof -
  obtain name ls v where x: "x = (name, ls, v)" by (cases x) auto
  let ?P = "\<lambda>c. c \<noteq> CHR ''{'' \<and> c \<noteq> CHR '' ''"
  have name: "takeWhile ?P (name @ c # u) = name" "dropWhile ?P (name @ c # u) = c # u"
    if "c = CHR ''{'' \<or> c = CHR '' ''" for c u
    using assms x that by (auto simp: writable_def list_all_iff takeWhile_append2 dropWhile_append2)
  have v: "LF \<notin> set v" and ls: "list_all (\<lambda>(k, v). label_name k) ls" using assms x by (simp_all add: writable_def)
  show ?thesis
  proof (cases "ls = []")
    case True
    then show ?thesis
      using x name(1) [of "CHR '' ''"] name(2) [of "CHR '' ''"] read_value_line [OF v, of t]
      by (simp add: show_series_def metric_line_def read_sample_def)
  next
    case False
    then show ?thesis
      using x name(1) [of "CHR ''{''"] name(2) [of "CHR ''{''"] read_value_line [OF v, of t]
        read_labels_text [OF False ls, of "'' '' @ v @ LF # t"]
      by (simp add: show_series_def metric_line_def read_sample_def)
  qed
qed

text \<open>A page is made of comments and samples.\<close>

lemma read_page_sample:
  assumes "writable x"
  shows "read_page (show_series x @ t) = map_option (Cons x) (read_page t)"
proof -
  obtain name ls v where x: "x = (name, ls, v)" by (cases x) auto
  have "name \<noteq> []" "hd name \<noteq> CHR ''#''" using assms x by (simp_all add: writable_def)
  then obtain c s where cs: "show_series x @ t = c # s" "c \<noteq> CHR ''#''"
    using x by (cases name) (auto simp: show_series_def metric_line_def)
  show ?thesis using read_sample_line [OF assms, of t] unfolding cs(1) using cs(2) by simp
qed

lemma read_page_comment: "LF \<notin> set s \<Longrightarrow> read_page (comment_line s @ t) = read_page t"
  by (simp add: comment_line_def read_value_line)

lemma read_page_samples:
  "list_all writable xs \<Longrightarrow> read_page (concat (map show_series xs) @ t) = map_option (append xs) (read_page t)"
proof (induction xs)
  case Nil
  have "append [] = (\<lambda>ys :: series list. ys)" by auto
  then show ?case by (simp add: option.map_ident)
next
  case (Cons x xs)
  then show ?case by (simp add: read_page_sample option.map_comp comp_def)
qed

section \<open>What a page says\<close>

text \<open>The samples of a printer, under their own names.\<close>

definition number :: "bool \<Rightarrow> string" where
  "number b = (if b then ''1'' else ''0'')"

fun state_name :: "value_state \<Rightarrow> string" where
  "state_name Value = ''value''"
| "state_name Stale = ''stale''"
| "state_name NotSupported = ''not_supported''"
| "state_name Unavailable = ''unavailable''"
| "state_name Unknown = ''unknown''"
| "state_name NotConfigured = ''not_configured''"

lemma state_text_name: "state_text s = state_name s"
  by (cases s)
     (simp_all add: state_text_def ascii_lowercase_def lower_char_def is_upper_def char_code_def byte_char_def
        char_of_def bit_0 replace_all.simps starts_with_def)

definition capability_series :: "string \<Rightarrow> string \<times> bool observed \<Rightarrow> series list" where
  "capability_series pid cv = map (\<lambda>st.
     (''zpl_printer_capability_state'', [(''printer'', pid), (''capability'', fst cv), (''state'', st)],
      number (state_name (obs_state (snd cv)) = st))) STATE_NAMES"

definition query_series :: "process \<Rightarrow> (f64 \<Rightarrow> string) \<Rightarrow> string \<Rightarrow> string \<times> query_stats \<Rightarrow> series list" where
  "query_series pr show pid qs =
     map (\<lambda>(name, v). (name, [(''printer'', pid), (''query'', fst qs)], v))
       [(''zpl_printer_queries_total'', show_word (qs_count (snd qs))),
        (''zpl_printer_query_duration_seconds_total'', show (ps_thousandth pr (qs_duration_ms_total (snd qs)))),
        (''zpl_printer_query_response_bytes_total'', show_word (qs_response_bytes_total (snd qs))),
        (''zpl_printer_query_timeouts_total'', show_word (qs_timeouts (snd qs)))]"

definition media_series :: "string \<Rightarrow> media_state \<Rightarrow> series list" where
  "media_series pid m =
     [(''zpl_printer_media_remaining_labels'', [(''printer'', pid)], show_word (ms_remaining_labels m)),
      (''zpl_printer_media_low'', [(''printer'', pid)],
         number (ms_remaining_labels m \<le> md_low_warning_threshold (ms_media m))),
      (''zpl_printer_media_accounting_confidence'', [(''printer'', pid)],
         show_nat (confidence_number (ms_accounting_confidence m))),
      (''zpl_printer_media_consumed_labels_total'', [(''printer'', pid), (''reason'', ''all'')],
         show_word (ms_consumed_labels_total m)),
      (''zpl_printer_media_accounting_deficit_labels'', [(''printer'', pid)],
         show_word (ms_accounting_deficit_labels m))]"

definition printer_series :: "process \<Rightarrow> (f64 \<Rightarrow> string) \<Rightarrow> string \<Rightarrow> printer_snapshot \<Rightarrow> media_state option \<Rightarrow> series list" where
  "printer_series pr show pid s media =
     map (\<lambda>(name, v). (name, [(''printer'', pid)], show v))
       [(''zpl_printer_present'', bool_obs (ts_present (sn_transport s))),
        (''zpl_printer_open'', bool_obs (ts_open (sn_transport s))),
        (''zpl_printer_protocol_up'', bool_obs (ts_protocol_up (sn_transport s))),
        (''zpl_printer_ready'', bool_obs (st_ready (sn_status s))),
        (''zpl_printer_job_queue_depth'', ps_as_f64 pr (js_queue_depth (sn_jobs s)))] @
     map (\<lambda>(fault, v). (''zpl_printer_fault'', [(''printer'', pid), (''fault'', fault)], show (bool_obs v)))
       [(''paused'', st_paused (sn_status s)), (''media_out'', st_media_out (sn_status s)),
        (''ribbon_out'', st_ribbon_out (sn_status s)), (''head_open'', st_head_open (sn_status s)),
        (''temperature'', st_temperature_fault (sn_status s))] @
     concat (map (capability_series pid) (sn_capabilities s)) @
     concat (map (query_series pr show pid) (sn_query_stats s)) @
     (case media of None \<Rightarrow> [] | Some m \<Rightarrow> media_series pid m)"

definition process_series :: "process \<Rightarrow> string \<Rightarrow> nat \<Rightarrow> series list" where
  "process_series pr dir uptime =
     [(''zpl_agent_build_info'', [(''version'', ps_version pr), (''commit'', ps_commit pr)], ''1''),
      (''zpl_agent_uptime_seconds'', [], show_nat uptime),
      (''zpl_agent_filesystem_free_bytes'', [], show_word (filesystem_free dir (ps_statvfs pr)))]"

lemma no_line_break [simp]:
  "LF \<notin> set (show_nat n)" "LF \<notin> set (show_word w)" "LF \<notin> set (number b)"
proof -
  show "LF \<notin> set (show_nat n)"
    using all_digits_show_nat [of n] by (auto simp: all_digits_def list_all_iff is_digit_def char_code_def)
  then show "LF \<notin> set (show_word w)"
    using all_digits_show_nat [of "unat w"] by (auto simp: show_word_def all_digits_def list_all_iff is_digit_def char_code_def)
  show "LF \<notin> set (number b)" by (simp add: number_def)
qed

lemma capability_lines_series:
  "capability_lines (esc pid) cv = concat (map show_series (capability_series pid cv))"
  by (simp add: capability_lines_def capability_series_def show_series_def state_text_name number_def STATE_NAMES_def)

lemma query_lines_series:
  "query_lines pr show (esc pid) qs = concat (map show_series (query_series pr show pid qs))"
  by (simp add: query_lines_def query_series_def show_series_def Let_def)

lemma media_lines_series: "media_lines (esc pid) m = concat (map show_series (media_series pid m))"
  by (simp add: media_lines_def media_series_def show_series_def number_def)

lemma concat_map_concat: "concat (map f (concat xss)) = concat (map (\<lambda>xs. concat (map f xs)) xss)"
  by (induction xss) simp_all

lemma printer_lines_series:
  "printer_lines pr show pid s media = concat (map show_series (printer_series pr show pid s media))"
  by (simp add: printer_lines_def printer_series_def metric_def FAULTS_def fault_of_def
      show_series_def [of "(n, _, _)" for n] Let_def capability_lines_series [abs_def] query_lines_series [abs_def]
      media_lines_series concat_map_concat comp_def split: option.split)

lemma printer_series_writable:
  assumes "\<And>x. LF \<notin> set (show x)"
  shows "list_all writable (printer_series pr show pid s media)"
  using assms
  by (auto simp: printer_series_def capability_series_def query_series_def media_series_def STATE_NAMES_def
      list_all_iff writable_def label_name_def split: option.splits)


text \<open>Text that \<open>esc\<close> leaves alone; the build writes the version and the commit as they are.\<close>

definition plain :: "string \<Rightarrow> bool" where
  "plain s = list_all (\<lambda>c. c \<noteq> BS \<and> c \<noteq> DQ \<and> c \<noteq> LF) s"

lemma esc_plain: "plain s \<Longrightarrow> esc s = s"
  by (induction s) (simp_all add: plain_def)

lemma read_header:
  assumes "plain (ps_version pr)" and "plain (ps_commit pr)"
  shows "read_page (header_lines pr dir up @ t) = map_option (append (process_series pr dir up)) (read_page t)"
proof -
  let ?b = "(''zpl_agent_build_info'', [(''version'', ps_version pr), (''commit'', ps_commit pr)], ''1'')"
  let ?u = "(''zpl_agent_uptime_seconds'', [], show_nat up)"
  let ?f = "(''zpl_agent_filesystem_free_bytes'', [], show_word (filesystem_free dir (ps_statvfs pr)))"
  have "header_lines pr dir up @ t =
      comment_line '' HELP zpl_agent_build_info Build information.'' @
      comment_line '' TYPE zpl_agent_build_info gauge'' @ show_series ?b @
      comment_line '' TYPE zpl_agent_uptime_seconds gauge'' @ show_series ?u @
      comment_line '' TYPE zpl_agent_filesystem_free_bytes gauge'' @ show_series ?f @ t"
    using assms by (simp add: header_lines_def show_series_def esc_plain)
  moreover have "writable ?b" "writable ?u" "writable ?f" by (simp_all add: writable_def label_name_def)
  ultimately show ?thesis
    by (cases "read_page t") (simp_all add: read_page_comment read_page_sample process_series_def)
qed

lemma load_media_shown:
  assumes "quiet w"
  shows "(case fst (load_media pid w) of Inl _ \<Rightarrow> None | Inr m \<Rightarrow> m) = media_of w pid"
proof (cases "media_of w pid")
  case (Some m)
  then show ?thesis
    using media_files.load_quiet [OF assms, of pid m] by (simp add: media_of_Some [THEN iffD1])
next
  case None
  obtain r v where lm: "load_media pid w = (r, v)" by fastforce
  have "r \<noteq> Inr (Some m)" for m using load_media_Some [of pid w m v] lm None media_of_Some [of w pid m] by auto
  then show ?thesis using lm None by (auto split: sum.split) (metis option.exhaust)
qed

lemma read_printers:
  assumes "quiet w" and "\<And>x. LF \<notin> set (show x)"
  shows "read_page (fst (render_printers pr show ps w)) =
     Some (concat (map (\<lambda>(pid, s). printer_series pr show pid s (media_of w pid)) ps))"
  using assms(1)
proof (induction ps arbitrary: w)
  case (Cons p ps)
  obtain pid s where p: "p = (pid, s)" by (cases p)
  obtain r v where lm: "load_media pid w = (r, v)" by fastforce
  have f: "only_files {} w v" using load_media_only [OF lm, of "{}"] .
  then have v: "quiet v" "media_of v = media_of w"
    using Cons.prems by (auto simp: quiet_only_files fun_eq_iff media_of_only)
  have m: "(case r of Inl _ \<Rightarrow> None | Inr m \<Rightarrow> m) = media_of w pid" using load_media_shown [OF Cons.prems, of pid] lm by simp
  show ?case
    using Cons.IH [OF v(1)] printer_series_writable [of "show", OF assms(2)]
    by (simp add: p lm m v(2) split_beta printer_lines_series read_page_samples)
qed simp

text \<open>C37: the metrics page can be read back: whatever the printers, their capabilities and their
  queries are called, even with quotes, backslashes and line breaks in their names, the page
  holds exactly the samples of the process and, in the order of the table, those of each
  printer and of the roll that is stored for it, under their true names.\<close>

theorem metrics_read_back:
  assumes "quiet w" and "\<And>x. LF \<notin> set (show x)" and "plain (ps_version pr)" and "plain (ps_commit pr)"
  shows "read_page (fst (render pr show c ps w)) =
     Some (process_series pr (cf_data_dir c) (uptime_seconds (ps_started pr) (fst (now w))) @
       concat (map (\<lambda>(pid, s). printer_series pr show pid s (media_of w pid)) ps))"
proof -
  have v: "quiet (snd (now w))" "media_of (snd (now w)) = media_of w"
    using assms(1) by (simp_all add: now_def fun_eq_iff)
  show ?thesis
    using read_printers [OF v(1) assms(2), where pr = pr and ps = ps] read_header [OF assms(3,4)]
    by (simp add: render_def split_beta Let_def v(2))
qed


definition sample_process :: process where
  "sample_process = \<lparr>ps_started = 0, ps_version = ''1.0'', ps_commit = ''abc'', ps_statvfs = Some (2, 4096),
     ps_as_f64 = \<lambda>_. f64_zero, ps_thousandth = \<lambda>_. f64_zero\<rparr>"

theorem metrics_read_back_witness:
  "read_page (fst (render sample_process (\<lambda>_. ''0'') sample_config [([DQ, LF, BS], new_snapshot 0 ''p'')] (world_with []))) =
     Some (process_series sample_process (cf_data_dir sample_config) 0 @
       printer_series sample_process (\<lambda>_. ''0'') [DQ, LF, BS] (new_snapshot 0 ''p'') None)"
proof -
  have "fst (now (world_with [])) = 0" by (simp add: now_def world_with_def calm_env_def)
  moreover have "media_of (world_with []) [DQ, LF, BS] = None" by (simp add: media_of_def)
  ultimately show ?thesis
    using metrics_read_back [of "world_with []" "\<lambda>_. ''0''" sample_process sample_config "[([DQ, LF, BS], new_snapshot 0 ''p'')]"]
    by (simp add: plain_def sample_process_def uptime_seconds_def)
qed

end
