(* ===== verification/Pages.thy ===== *)
theory Pages
  imports Metrics Submission_Sample
begin

text \<open>
  What the API shows of the process itself (\<open>agent\<close>, \<open>v2_service\<close> and \<open>prometheus\<close> of
  \<open>src/api.rs\<close>) and the pages of the web interface (\<open>src/webui.rs\<close>). The contents of the pages are
  files in other languages; an answer names the file it is made of.
\<close>

record agent_view =
  av_agent_id :: "string option"
  av_version :: string
  av_commit :: string
  av_started_at :: time
  av_uptime_seconds :: nat
  av_storage_mode :: storage_mode
  av_printers :: nat
  av_webui_enabled :: bool

text \<open>The names in the table of threads, in the order it has them.\<close>

type_synonym threads_table = "string list"

definition agent :: "process \<Rightarrow> service \<Rightarrow> threads_table \<Rightarrow> world \<Rightarrow> agent_view \<times> world" where
  "agent pr sv ids w =
     (case now w of (t, w) \<Rightarrow>
       (\<lparr>av_agent_id = cf_agent_id (sv_config sv), av_version = ps_version pr, av_commit = ps_commit pr,
          av_started_at = ps_started pr, av_uptime_seconds = uptime_seconds (ps_started pr) t,
          av_storage_mode = cf_storage_mode (sv_config sv), av_printers = length ids,
          av_webui_enabled = cf_webui_enabled (sv_config sv)\<rparr>, w))"

record service_view =
  sw_protocol :: "string \<times> nat \<times> nat"
  sw_service_id :: "string option"
  sw_service_type :: string
  sw_display_name :: string
  sw_version :: string
  sw_capabilities :: "string list"
  sw_started_at :: time

definition v2_service :: "process \<Rightarrow> service \<Rightarrow> headers \<Rightarrow> api_error + service_view" where
  "v2_service pr sv hs =
     bindR (v2_authorize (sv_config sv) hs ReadScope) (\<lambda>_.
       Inr \<lparr>sw_protocol = (''printhub-print-service'', 2, 0), sw_service_id = cf_agent_id (sv_config sv),
          sw_service_type = ''zebra_tamer'', sw_display_name = ''ZebraTamer'', sw_version = ps_version pr,
          sw_capabilities = [''catalog'', ''jobs'', ''idempotency_lookup'', ''media'', ''zebra_configuration''],
          sw_started_at = ps_started pr\<rparr>)"

text \<open>The metrics page shows the snapshots the threads keep.\<close>

definition snapshots_of :: "service \<Rightarrow> threads_table \<Rightarrow> (string \<times> printer_snapshot) list" where
  "snapshots_of sv ids =
     concat (map (\<lambda>i. case sv_workers sv i of None \<Rightarrow> [] | Some (x, wk) \<Rightarrow> [(i, wk_snapshot wk)]) ids)"

definition prometheus :: "process \<Rightarrow> platform \<Rightarrow> service \<Rightarrow> threads_table \<Rightarrow> world \<Rightarrow> (string \<times> string) \<times> world" where
  "prometheus pr pf sv ids w =
     (case render pr (nm_show_f64 (pf_numeric pf)) (sv_config sv) (snapshots_of sv ids) w of
        (text, w) \<Rightarrow> ((''text/plain; version=0.0.4; charset=utf-8'', text), w))"

text \<open>Showing them writes nothing.\<close>

lemma render_printers_reads: "only_files {} w (snd (render_printers pr disp ps w))"
proof (induction ps arbitrary: w)
  case (Cons p ps)
  obtain pid s where p: "p = (pid, s)" by (cases p)
  obtain r v where lm: "load_media pid w = (r, v)" by fastforce
  have "only_files {} w v" by (rule load_media_only [OF lm])
  then show ?case using Cons.IH [of v] by (auto simp: p lm split_beta Let_def intro: only_files.trans)
qed (simp add: only_files.refl)

lemma pages_read:
  "only_files {} w (snd (prometheus pr pf sv ids w))" "only_files {} w (snd (agent pr sv ids w))"
proof -
  have "only_files {} w (snd (render pr disp c ps w))" for disp c ps
    using only_files.trans [OF only_files_advance render_printers_reads]
    by (simp add: render_def now_def split_beta Let_def)
  then show "only_files {} w (snd (prometheus pr pf sv ids w))"
    by (simp add: prometheus_def split_beta)
  show "only_files {} w (snd (agent pr sv ids w))" by (simp add: agent_def now_def)
qed

section \<open>The web interface\<close>

datatype asset_file = Webui_html | Webui_js | Webui_css

record asset_page =
  ap_headers :: "(string \<times> string) list"
  ap_body :: asset_file

definition asset :: "string \<Rightarrow> asset_file \<Rightarrow> asset_page" where
  "asset content_type content =
     \<lparr>ap_headers = [(''content-type'', content_type), (''cache-control'', ''no-store''),
        (''x-content-type-options'', ''nosniff''),
        (''content-security-policy'',
         ''default-src 'self'; script-src 'self'; style-src 'self'; img-src 'self' data:; connect-src 'self'; '' @
         ''frame-ancestors 'none'; base-uri 'none'; form-action 'self'' @ [CHR 0x27])],
      ap_body = content\<rparr>"

definition index :: asset_page where
  "index = asset ''text/html; charset=utf-8'' Webui_html"

definition javascript :: asset_page where
  "javascript = asset ''text/javascript; charset=utf-8'' Webui_js"

definition stylesheet :: asset_page where
  "stylesheet = asset ''text/css; charset=utf-8'' Webui_css"

end
