(* ===== verification/System.thy ===== *)
theory System
  imports Submission_Sample "HOL-Library.Multiset"
begin

text \<open>
  The service as a whole: the threads of all printers, the bounded channels their commands
  wait in, the submissions of both API versions, and the starts and ends of the process. Its
  steps are interleaved in any order, the environment may fail any call, and the process may
  end between any two steps; what it had in memory is then lost. The end of the process
  inside a step is the step in which every further call fails.
\<close>

section \<open>Steps of the service\<close>

text \<open>What waits in the channel of a printer: the job of a submission whose handler awaits
  the answer of the thread, or another command. The flag marks version 2.\<close>

datatype request = Submitted bool job | Asked command

fun command_of :: "request \<Rightarrow> command" where
  "command_of (Submitted v j) = Enqueue (job_id j)"
| "command_of (Asked c) = c"

fun is_enqueue :: "command \<Rightarrow> bool" where
  "is_enqueue (Enqueue _) = True"
| "is_enqueue _ = False"

record system =
  sy_world :: world
  sy_service :: "service option"
  sy_channel :: "string \<Rightarrow> request list"
  sy_failing :: "(bool \<times> job \<times> string) list"   \<comment> \<open>handlers whose hand-over failed\<close>

text \<open>\<open>mpsc::sync_channel(64)\<close>, on which the handles use \<open>try_send\<close>.\<close>

definition channel_capacity :: nat where
  "channel_capacity = 64"

definition send :: "string \<Rightarrow> request \<Rightarrow> system \<Rightarrow> system option" where
  "send pid q s =
     (if length (sy_channel s pid) < channel_capacity
      then Some (s\<lparr>sy_channel := (sy_channel s)(pid := sy_channel s pid @ [q])\<rparr>)
      else None)"

text \<open>The hand-over at the end of a submission.\<close>

definition hand_over :: "bool \<Rightarrow> api_error + bool \<times> job \<Rightarrow> system \<Rightarrow> system" where
  "hand_over v r s =
     (case r of
        Inr (True, j) \<Rightarrow>
          (case send (job_printer_id j) (Submitted v j) s of
             Some s' \<Rightarrow> s'
           | None \<Rightarrow> s\<lparr>sy_failing := (v, j, ''worker_queue_full'') # sy_failing s\<rparr>)
      | _ \<Rightarrow> s)"

text \<open>What a handler does when the hand-over has failed.\<close>

definition close_refused :: "bool \<Rightarrow> job \<Rightarrow> string \<Rightarrow> world \<Rightarrow> (api_error + unit) \<times> world" where
  "close_refused v j e w =
     (if v
      then (let (t, w) = now w
            in bindE (mapE v2_internal (save_job (j\<lparr>job_state := Failed, job_updated_at := t, job_error := Some e\<rparr>) w)) (\<lambda>_ w.
                 (Inl (api_error_new 503 ''queue_unavailable'' e), w)))
      else bindE (mapE api_internal (save_job (j\<lparr>job_state := Failed, job_error := Some e\<rparr>) w)) (\<lambda>_ w.
             (Inl (api_unavailable e), w)))"

fun refused :: "request \<Rightarrow> string + answer \<Rightarrow> (bool \<times> job \<times> string) list" where
  "refused (Submitted v j) (Inl e) = [(v, j, e)]"
| "refused _ _ = []"

definition with_worker :: "string \<Rightarrow> worker_context \<Rightarrow> worker \<Rightarrow> world \<Rightarrow> service \<Rightarrow> system \<Rightarrow> system" where
  "with_worker pid x wk w sv s =
     s\<lparr>sy_world := w, sy_service := Some (sv\<lparr>sv_workers := (sv_workers sv)(pid \<mapsto> (x, wk))\<rparr>)\<rparr>"

text \<open>A new process finds the files of the last one, and whatever its printers received.\<close>

definition rebooted :: "world \<Rightarrow> world \<Rightarrow> bool" where
  "rebooted w w' = (w_files w' = w_files w \<and> w_wire w' = w_wire w)"

datatype sys_event = Turned string turn "u8 list" | Silent

inductive sys_step :: "platform \<Rightarrow> system \<Rightarrow> sys_event \<Rightarrow> system \<Rightarrow> bool"
  for pf :: platform where
  served: "sy_service s = Some sv \<Longrightarrow> sv_workers sv pid = Some (x, wk) \<Longrightarrow>
     turn_step x (wk, sy_world s) (Served jid) (wk', w') \<Longrightarrow>
     sys_step pf s (Turned pid (Served jid) (sent_to pid (sy_world s) w')) (with_worker pid x wk' w' sv s)"
| answered: "sy_service s = Some sv \<Longrightarrow> sv_workers sv pid = Some (x, wk) \<Longrightarrow> sy_channel s pid = q # qs \<Longrightarrow>
     turn_step x (wk, sy_world s) (Answered (command_of q) r) (wk', w') \<Longrightarrow>
     sys_step pf s (Turned pid (Answered (command_of q) r) (sent_to pid (sy_world s) w'))
       ((with_worker pid x wk' w' sv s)\<lparr>sy_channel := (sy_channel s)(pid := qs),
         sy_failing := refused q r @ sy_failing s\<rparr>)"
| asked: "sy_service s = Some sv \<Longrightarrow> pid \<in> dom (sv_workers sv) \<Longrightarrow> \<not> is_enqueue c \<Longrightarrow>
     send pid (Asked c) s = Some s' \<Longrightarrow> sys_step pf s Silent s'"
| uploaded: "sy_service s = Some sv \<Longrightarrow> fresh_ids (sy_world s) \<Longrightarrow>
     admit_upload pf sv pid hs body (sy_world s) = (r, w') \<Longrightarrow>
     sys_step pf s Silent (hand_over False r (s\<lparr>sy_world := w'\<rparr>))"
| submitted: "sy_service s = Some sv \<Longrightarrow> fresh_ids (sy_world s) \<Longrightarrow>
     admit_v2 pf sv pid hs q (sy_world s) = (r, w') \<Longrightarrow>
     sys_step pf s Silent (hand_over True r (s\<lparr>sy_world := w'\<rparr>))"
| closed: "sy_failing s = fs @ (v, j, e) # fs' \<Longrightarrow> close_refused v j e (sy_world s) = (r, w') \<Longrightarrow>
     sys_step pf s Silent (s\<lparr>sy_world := w', sy_failing := fs @ fs'\<rparr>)"
| abandoned: "sy_failing s = fs @ (v, j, e) # fs' \<Longrightarrow> sys_step pf s Silent (s\<lparr>sy_failing := fs @ fs'\<rparr>)"
| stopped: "sys_step pf s Silent (s\<lparr>sy_service := None, sy_channel := \<lambda>_. [], sy_failing := []\<rparr>)"
| started: "sy_service s = None \<Longrightarrow> rebooted (sy_world s) w \<Longrightarrow>
     start_service pf boot False c w = (Inr sv, w') \<Longrightarrow>
     sys_step pf s Silent (s\<lparr>sy_world := w', sy_service := Some sv\<rparr>)"
| not_started: "sy_service s = None \<Longrightarrow> rebooted (sy_world s) w \<Longrightarrow>
     start_service pf boot locked c w = (Inl e, w') \<Longrightarrow>
     sys_step pf s Silent (s\<lparr>sy_world := w'\<rparr>)"
| second: "start_service pf boot True c (sy_world s) = (r, w') \<Longrightarrow>
     sys_step pf s Silent (s\<lparr>sy_world := w'\<rparr>)"

inductive sys_runs :: "platform \<Rightarrow> system \<Rightarrow> sys_event list \<Rightarrow> system \<Rightarrow> bool"
  for pf :: platform where
  none: "sys_runs pf s [] s"
| some: "sys_step pf s e s' \<Longrightarrow> sys_runs pf s' es s'' \<Longrightarrow> sys_runs pf s (e # es) s''"

text \<open>The handlers of \<open>Submission\<close> are an admission and a hand-over whose failure is closed.\<close>

lemma handlers_close:
  "create_job enq pf sv pid hs body w =
     bindE (admit_upload pf sv pid hs body w) (\<lambda>(fresh, j) w.
       if \<not> fresh then (Inr j, w)
       else case enq pid (job_id j) w of
         (Inr _, w) \<Rightarrow> (Inr j, w)
       | (Inl e, w) \<Rightarrow> bindE (close_refused False j e w) (\<lambda>_ w. (Inr j, w)))"
  "v2_create_job enq pf sv pid hs r w =
     bindE (admit_v2 pf sv pid hs r w) (\<lambda>(fresh, j) w.
       if \<not> fresh then (Inr (v2_job_value j), w)
       else case enq pid (job_id j) w of
         (Inr _, w) \<Rightarrow> (Inr (v2_job_value j), w)
       | (Inl e, w) \<Rightarrow> bindE (close_refused True j e w) (\<lambda>_ w. (Inr (v2_job_value j), w)))"
proof -
  have assoc: "bindE (bindE m (\<lambda>_ w. (Inl e, w))) k = bindE m (\<lambda>_ w. (Inl e, w))"
    for m :: "(api_error + unit) \<times> world" and e and k :: "unit \<Rightarrow> world \<Rightarrow> (api_error + 'a) \<times> world"
    by (simp add: bindE_def split: prod.splits sum.splits)
  show "create_job enq pf sv pid hs body w =
     bindE (admit_upload pf sv pid hs body w) (\<lambda>(fresh, j) w.
       if \<not> fresh then (Inr j, w)
       else case enq pid (job_id j) w of
         (Inr _, w) \<Rightarrow> (Inr j, w)
       | (Inl e, w) \<Rightarrow> bindE (close_refused False j e w) (\<lambda>_ w. (Inr j, w)))"
    by (simp add: create_job_def close_refused_def bindE_def split: prod.splits sum.splits)
  show "v2_create_job enq pf sv pid hs r w =
     bindE (admit_v2 pf sv pid hs r w) (\<lambda>(fresh, j) w.
       if \<not> fresh then (Inr (v2_job_value j), w)
       else case enq pid (job_id j) w of
         (Inr _, w) \<Rightarrow> (Inr (v2_job_value j), w)
       | (Inl e, w) \<Rightarrow> bindE (close_refused True j e w) (\<lambda>_ w. (Inr (v2_job_value j), w)))"
    by (simp add: v2_create_job_def close_refused_def bindE_def now_def Let_def split: prod.splits sum.splits)
qed

section \<open>The invariant\<close>

text \<open>The jobs on their way to the printing of a printer: those in the queue of its thread,
  those in its channel and those whose hand-over has failed.\<close>

definition thread_queue :: "system \<Rightarrow> string \<Rightarrow> uuid list" where
  "thread_queue s pid =
     (case Option.bind (sy_service s) (\<lambda>sv. sv_workers sv pid) of None \<Rightarrow> [] | Some (x, wk) \<Rightarrow> wk_queue wk)"

fun submitted_job :: "request \<Rightarrow> job list" where
  "submitted_job (Submitted v j) = [j]"
| "submitted_job (Asked c) = []"

definition in_channel :: "system \<Rightarrow> string \<Rightarrow> job list" where
  "in_channel s pid = concat (map submitted_job (sy_channel s pid))"

definition given_up :: "system \<Rightarrow> string \<Rightarrow> job list" where
  "given_up s pid = filter (\<lambda>j. job_printer_id j = pid) (map (fst \<circ> snd) (sy_failing s))"

text \<open>A job in flight is stored as its handler knows it, queued, and it is its own.\<close>

definition in_flight :: "system \<Rightarrow> string \<Rightarrow> job list" where
  "in_flight s pid = in_channel s pid @ given_up s pid"

definition flight_ok :: "world \<Rightarrow> string \<Rightarrow> job \<Rightarrow> bool" where
  "flight_ok w pid j = (jobs_of w (job_id j) = Some j \<and> job_state j = Queued \<and> job_printer_id j = pid)"

definition line :: "system \<Rightarrow> string \<Rightarrow> uuid list" where
  "line s pid = thread_queue s pid @ map job_id (in_flight s pid)"

definition threads_ok :: "system \<Rightarrow> bool" where
  "threads_ok s = (\<forall>sv pid x wk. sy_service s = Some sv \<and> sv_workers sv pid = Some (x, wk) \<longrightarrow>
     wc_pid x = pid \<and> sound_queue pid wk (sy_world s))"

text \<open>Jobs enter a channel through submissions only, and a process that does not run has
  nothing in memory.\<close>

definition channels_ok :: "system \<Rightarrow> bool" where
  "channels_ok s =
     ((\<forall>pid c. Asked c \<in> set (sy_channel s pid) \<longrightarrow> \<not> is_enqueue c) \<and>
      (sy_service s = None \<longrightarrow> sy_channel s = (\<lambda>_. []) \<and> sy_failing s = []))"

definition sys_ok :: "system \<Rightarrow> bool" where
  "sys_ok s =
     (jobs_keyed (sy_world s) \<and> wf_files (sy_world s) \<and> threads_ok s \<and> channels_ok s \<and>
      (\<forall>pid. distinct (line s pid) \<and> (\<forall>j \<in> set (in_flight s pid). flight_ok (sy_world s) pid j)))"

lemma distinct_added: "mset ys = mset xs + {#x#} \<Longrightarrow> distinct ys \<longleftrightarrow> x \<notin> set xs \<and> distinct xs"
  using mset_eq_imp_distinct_iff [of ys "x # xs"] by simp

lemma sys_okI:
  assumes "jobs_keyed (sy_world s)" and "wf_files (sy_world s)" and "threads_ok s" and "channels_ok s"
    and "\<And>pid. distinct (line s pid)" and "\<And>pid j. j \<in> set (in_flight s pid) \<Longrightarrow> flight_ok (sy_world s) pid j"
  shows "sys_ok s"
  using assms by (simp add: sys_ok_def)

text \<open>Every identifier in a line is that of a stored job of the printer.\<close>

lemma thread_queue_mem:
  "i \<in> set (thread_queue s pid) \<longleftrightarrow>
     (\<exists>sv x wk. sy_service s = Some sv \<and> sv_workers sv pid = Some (x, wk) \<and> i \<in> set (wk_queue wk))"
proof (cases "sy_service s")
  case None
  then show ?thesis by (simp add: thread_queue_def)
next
  case (Some sv)
  then show ?thesis by (cases "sv_workers sv pid") (auto simp: thread_queue_def)
qed

lemma sys_ok_thread:
  assumes "sys_ok s" and "sy_service s = Some sv" and "sv_workers sv pid = Some (x, wk)"
  shows "wc_pid x = pid" "sound_queue pid wk (sy_world s)"
  using assms unfolding sys_ok_def threads_ok_def by blast+

lemma line_stored:
  assumes "sys_ok s" and "i \<in> set (line s pid)"
  shows "\<exists>j. jobs_of (sy_world s) i = Some j \<and> job_printer_id j = pid"
proof (cases "i \<in> set (thread_queue s pid)")
  case True
  then obtain sv x wk where "sy_service s = Some sv" "sv_workers sv pid = Some (x, wk)" "i \<in> set (wk_queue wk)"
    by (auto simp: thread_queue_mem)
  with sys_ok_thread [OF assms(1)] show ?thesis unfolding sound_queue_def waits_def by blast
next
  case False
  then obtain j where "j \<in> set (in_flight s pid)" "i = job_id j" using assms(2) by (auto simp: line_def)
  with assms(1) show ?thesis by (auto simp: sys_ok_def flight_ok_def)
qed

text \<open>A step that keeps the lines and the stored jobs that matter keeps the invariant.\<close>

lemma sound_queue_cong:
  assumes "sound_queue pid wk w" and "jobs_keyed w'" and "\<And>i. i \<in> set (wk_queue wk) \<Longrightarrow> jobs_of w' i = jobs_of w i"
  shows "sound_queue pid wk w'"
  using assms by (auto simp: sound_queue_def waits_def)

lemma sys_ok_world:
  assumes "sys_ok s" and "jobs_keyed w" and "wf_files w"
    and "\<And>pid i. i \<in> set (line s pid) \<Longrightarrow> jobs_of w i = jobs_of (sy_world s) i"
  shows "sys_ok (s\<lparr>sy_world := w\<rparr>)"
proof (rule sys_okI)
  have same: "thread_queue (s\<lparr>sy_world := w\<rparr>) = thread_queue s" "in_flight (s\<lparr>sy_world := w\<rparr>) = in_flight s"
    "line (s\<lparr>sy_world := w\<rparr>) = line s"
    by (simp_all add: fun_eq_iff thread_queue_def in_flight_def in_channel_def given_up_def line_def)
  show "threads_ok (s\<lparr>sy_world := w\<rparr>)"
    unfolding threads_ok_def
  proof (intro allI impI, elim conjE)
    fix sv pid x wk
    assume *: "sy_service (s\<lparr>sy_world := w\<rparr>) = Some sv" "sv_workers sv pid = Some (x, wk)"
    then have ok: "wc_pid x = pid" "sound_queue pid wk (sy_world s)"
      using sys_ok_thread [OF assms(1)] by simp_all
    have "i \<in> set (line s pid)" if "i \<in> set (wk_queue wk)" for i
      using that * by (simp add: line_def thread_queue_def)
    with ok assms(2,4) show "wc_pid x = pid \<and> sound_queue pid wk (sy_world (s\<lparr>sy_world := w\<rparr>))"
      by (auto intro: sound_queue_cong)
  qed
  show "channels_ok (s\<lparr>sy_world := w\<rparr>)" using assms(1) by (simp add: sys_ok_def channels_ok_def)
  show "distinct (line (s\<lparr>sy_world := w\<rparr>) pid)" for pid using assms(1) same by (simp add: sys_ok_def)
  show "flight_ok (sy_world (s\<lparr>sy_world := w\<rparr>)) pid j" if "j \<in> set (in_flight (s\<lparr>sy_world := w\<rparr>) pid)" for pid j
  proof -
    have j: "j \<in> set (in_flight s pid)" using that same by simp
    then have "job_id j \<in> set (line s pid)" by (simp add: line_def)
    with j assms(1,4) show ?thesis by (simp add: sys_ok_def flight_ok_def)
  qed
qed (simp_all add: assms)

section \<open>Turns of the threads\<close>

lemma cancel_files:
  assumes "handle_cancel x jid wk w = (r, wk', w')"
  shows "only_files UNIV w w'"
proof -
  obtain lr w1 where ld: "load_job jid w = (lr, w1)" by fastforce
  have f1: "only_files UNIV w (advance w1)"
    using only_files_loads(1) [of UNIV w jid] ld by (simp add: only_files_def)
  have sv: "only_files UNIV v (snd (save_job j v))" for j v by (rule any_files [OF only_files_save_job])
  have sq: "only_files UNIV v (snd (save_queue pid q v))" for pid q v by (rule any_files [OF queues.save_only]) simp
  have em: "only_files UNIV v (emit k pid i d v)" for k pid i d v by (rule any_files [OF only_files_emit])
  show ?thesis
  proof (cases lr)
    case (Inl e)
    with assms ld only_files_loads(1) [of UNIV w jid] show ?thesis
      by (auto simp: handle_cancel_def only_files.refl split: if_splits)
  next
    case (Inr j)
    define jc where "jc = j\<lparr>job_state := Cancelled, job_updated_at := env_utc (w_env w1) (w_tick w1), job_error := None\<rparr>"
    obtain sr w2 where sj: "save_job jc (advance w1) = (sr, w2)" by fastforce
    obtain qr w3 where qu: "save_queue (wc_pid x) (remove1 jid (wk_queue wk)) w2 = (qr, w3)" by fastforce
    have f2: "only_files UNIV w w2" using only_files.trans [OF f1 sv [where j = jc]] sj by simp
    have f3: "only_files UNIV w w3" using only_files.trans [OF f2 sq] qu by (metis snd_conv)
    have "w' \<in> {w, w2, w3, emit ''job_cancelled'' (wc_pid x) jid (JObject []) w3}"
      using assms ld Inr sj qu
      by (auto simp: handle_cancel_def now_def Let_def jc_def [symmetric] split: if_splits sum.splits)
    with f2 f3 only_files.trans [OF f3 em] show ?thesis by (auto simp: only_files.refl)
  qed
qed

lemma turn_wf:
  assumes "turn_step x (wk, w) t (wk', w')" and "jobs_keyed w" and "wf_files w"
  shows "wf_files w'"
  using assms(1)
proof cases
  case (serve jid rest)
  then have run: "serve x jid rest wk w = (wk', w')" "wk_queue wk = jid # rest" by simp_all
  from run show ?thesis
  proof (cases rule: serve_cases)
    case kept
    with assms(3) show ?thesis by (simp add: only_files_def)
  next
    case (popped w1 s0 s t)
    have "jobs_of w1 = jobs_of w" by (rule only_files_jobs [OF popped(3)]) simp
    then have "touches (job_paths jid (wc_pid x)) w1 w'"
      using touches_process_job [OF popped(5)] assms(2) keyed_same by blast
    with popped(3) assms(3) show ?thesis by (simp add: touches_def only_files_def)
  qed
next
  case (receive cmd r)
  then have run: "handle x cmd wk w = Some (r, wk', w')" by simp
  show ?thesis
  proof (cases cmd)
    case (Control c)
    with run have "steady x wk w wk' w'" by (auto intro: control_steady)
    with assms(3) show ?thesis by (simp add: steady_def touches_def)
  next
    case (Probe b)
    with run have "steady x wk w wk' w'" by (auto intro: handle_probe_steady)
    with assms(3) show ?thesis by (simp add: steady_def touches_def)
  next
    case (Enqueue jid)
    with run have "handle_enqueue x jid wk w = (r, wk', w')" by simp
    then show ?thesis by (cases rule: enqueue_cases) (use assms(3) in \<open>simp_all add: only_files_def\<close>)
  next
    case (SetQueuePaused b)
    with run have "handle_pause x b wk w = (r, wk', w')" by simp
    then show ?thesis by (cases rule: pause_cases) (use assms(3) in \<open>simp_all add: only_files_def\<close>)
  next
    case (Cancel jid)
    with run have "handle_cancel x jid wk w = (r, wk', w')" by simp
    from cancel_files [OF this] assms(3) show ?thesis by (simp add: only_files_def)
  qed
qed

text \<open>What a turn of the thread of a printer does to the rest of the service.\<close>

lemma turn_elsewhere:
  assumes "sys_ok s" and "sy_service s = Some sv" and "sv_workers sv pid = Some (x, wk)"
    and "turn_step x (wk, sy_world s) t (wk', w')" and "admitted pid wk (sy_world s) t"
  shows "sound_queue pid wk' w' \<and> evolves (sy_world s) w' \<and> wf_files w' \<and>
     (\<forall>i. i \<notin> set (thread_queue s pid) \<longrightarrow> jobs_of w' i = jobs_of (sy_world s) i)"
proof -
  have ok: "wc_pid x = pid" "sound_queue pid wk (sy_world s)" "jobs_keyed (sy_world s)" "wf_files (sy_world s)"
    using sys_ok_thread [OF assms(1-3)] assms(1) by (simp_all add: sys_ok_def)
  have "turn_ok pid wk (sy_world s) wk' w'" using turn_keeps [OF assms(4)] ok(1,2) assms(5) by simp
  moreover have "thread_queue s pid = wk_queue wk" using assms(2,3) by (simp add: thread_queue_def)
  ultimately show ?thesis using turn_wf [OF assms(4) ok(3,4)] by (simp add: turn_ok_def)
qed

lemma with_worker_ok:
  assumes ok: "sys_ok s" and sv: "sy_service s = Some sv" and wk: "sv_workers sv pid = Some (x, wk)"
    and turn: "sound_queue pid wk' w'" "wf_files w'"
      "\<And>i. i \<notin> set (thread_queue s pid) \<Longrightarrow> jobs_of w' i = jobs_of (sy_world s) i"
    and line: "\<And>p. p \<noteq> pid \<Longrightarrow> sy_channel s' p = sy_channel s p"
      "\<And>p. p \<noteq> pid \<Longrightarrow> given_up s' p = given_up s p" "set (sy_channel s' pid) \<subseteq> set (sy_channel s pid)"
      "distinct (line s' pid)" "set (in_flight s' pid) \<subseteq> set (in_flight s pid)"
    and s': "sy_world s' = w'" "sy_service s' = Some (sv\<lparr>sv_workers := (sv_workers sv)(pid \<mapsto> (x, wk'))\<rparr>)"
  shows "sys_ok s'"
proof (rule sys_okI)
  show "jobs_keyed (sy_world s')" using turn(1) s' by (simp add: sound_queue_def)
  show "wf_files (sy_world s')" using turn(2) s' by simp
  have "Asked c \<in> set (sy_channel s p)" if "Asked c \<in> set (sy_channel s' p)" for c p
    using line(1) [of p] line(3) that by (cases "p = pid") auto
  then show "channels_ok s'" using ok s'(2) by (auto simp: sys_ok_def channels_ok_def)
  have other: "jobs_of w' i = jobs_of (sy_world s) i" if "i \<in> set (line s p)" "p \<noteq> pid" for i p
  proof (rule turn(3))
    show "i \<notin> set (thread_queue s pid)"
      using line_stored [OF ok, of i p] line_stored [OF ok, of i pid] that by (auto simp: line_def)
  qed
  have own: "jobs_of w' (job_id j) = jobs_of (sy_world s) (job_id j)" if "j \<in> set (in_flight s pid)" for j
  proof (rule turn(3))
    have "distinct (line s pid)" using ok by (simp add: sys_ok_def)
    with that show "job_id j \<notin> set (thread_queue s pid)" by (auto simp: line_def)
  qed
  have same: "thread_queue s' p = thread_queue s p" "in_flight s' p = in_flight s p" if "p \<noteq> pid" for p
    using that line sv s' by (simp_all add: thread_queue_def in_flight_def in_channel_def)
  show "distinct (line s' p)" for p
    using line(4) same [of p] ok by (cases "p = pid") (simp_all add: line_def sys_ok_def)
  show "flight_ok (sy_world s') p j" if j: "j \<in> set (in_flight s' p)" for p j
  proof (cases "p = pid")
    case True
    with j line(5) have "j \<in> set (in_flight s pid)" by auto
    with ok own [OF this] True s'(1) show ?thesis by (simp add: sys_ok_def flight_ok_def)
  next
    case False
    with j same have "j \<in> set (in_flight s p)" by simp
    moreover from this have "job_id j \<in> set (line s p)" by (simp add: line_def)
    ultimately show ?thesis using ok other False s'(1) by (simp add: sys_ok_def flight_ok_def)
  qed
  show "threads_ok s'"
    unfolding threads_ok_def
  proof (intro allI impI, elim conjE)
    fix sv' p y k
    assume *: "sy_service s' = Some sv'" "sv_workers sv' p = Some (y, k)"
    show "wc_pid y = p \<and> sound_queue p k (sy_world s')"
    proof (cases "p = pid")
      case True
      with * s' turn(1) sys_ok_thread [OF ok sv wk] show ?thesis by auto
    next
      case False
      with * s' have k: "sv_workers sv p = Some (y, k)" by auto
      then have "wc_pid y = p" "sound_queue p k (sy_world s)"
        using sys_ok_thread [OF ok sv] by simp_all
      moreover have "i \<in> set (line s p)" if "i \<in> set (wk_queue k)" for i
        using that sv k by (simp add: line_def thread_queue_def)
      moreover have "jobs_keyed w'" using turn(1) by (simp add: sound_queue_def)
      ultimately show ?thesis using other False s'(1) by (auto intro: sound_queue_cong)
    qed
  qed
qed

section \<open>Every step keeps the invariant\<close>

text \<open>What a turn does to the queue.\<close>

lemma turn_queue:
  assumes "turn_step x (wk, w) t (wk', w')" and "jobs_keyed w"
  shows "(\<exists>jid a. t = Answered (Enqueue jid) (Inr a) \<and> wk_queue wk' = wk_queue wk @ [jid]) \<or>
     (\<nexists>jid a. t = Answered (Enqueue jid) (Inr a)) \<and> set (wk_queue wk') \<subseteq> set (wk_queue wk)"
proof -
  have "refined_turn (wc_pid x) t wk wk' w'"
    using assms by (auto elim!: turn_stepE dest: serve_refines [OF sym] handle_refines)
  then have f: "fifo_step t (wk_queue wk, wk_paused wk) (wk_queue wk', wk_paused wk')"
    by (simp add: refined_turn_def queue_view_def)
  show ?thesis
  proof (cases t)
    case (Served jid)
    with f show ?thesis by (auto split: list.splits)
  next
    case (Answered cmd r)
    with f show ?thesis
      by (cases cmd; cases r) (auto simp: is_ok_def dest: set_remove1_subset [THEN subsetD] split: if_splits)
  qed
qed

lemma turned_ok:
  assumes ok: "sys_ok s" and sv: "sy_service s = Some sv" and wk: "sv_workers sv pid = Some (x, wk)"
    and turn: "turn_step x (wk, sy_world s) t (wk', w')" and adm: "admitted pid wk (sy_world s) t"
    and rest: "\<And>p. p \<noteq> pid \<Longrightarrow> sy_channel s' p = sy_channel s p"
      "\<And>p. p \<noteq> pid \<Longrightarrow> given_up s' p = given_up s p" "set (sy_channel s' pid) \<subseteq> set (sy_channel s pid)"
      "set (in_flight s' pid) \<subseteq> set (in_flight s pid)"
    and line: "distinct (wk_queue wk' @ map job_id (in_flight s' pid))"
    and s': "sy_world s' = w'" "sy_service s' = Some (sv\<lparr>sv_workers := (sv_workers sv)(pid \<mapsto> (x, wk'))\<rparr>)"
  shows "sys_ok s' \<and> evolves (sy_world s) (sy_world s')"
proof -
  note t = turn_elsewhere [OF ok sv wk turn adm]
  have "line s' pid = wk_queue wk' @ map job_id (in_flight s' pid)"
    using s'(2) by (simp add: line_def thread_queue_def)
  then have "distinct (line s' pid)" using line by simp
  then have "sys_ok s'"
    using t by (intro with_worker_ok [OF ok sv wk _ _ _ rest(1-3) _ rest(4) s']) auto
  with t s'(1) show ?thesis by simp
qed

lemma own_line:
  assumes "sys_ok s" and "sy_service s = Some sv" and "sv_workers sv pid = Some (x, wk)"
  shows "distinct (wk_queue wk @ map job_id (in_flight s pid))" "jobs_keyed (sy_world s)" "wc_pid x = pid"
    "sound_queue pid wk (sy_world s)"
proof -
  have "line s pid = wk_queue wk @ map job_id (in_flight s pid)"
    using assms(2,3) by (simp add: line_def thread_queue_def)
  with assms show "distinct (wk_queue wk @ map job_id (in_flight s pid))" by (metis sys_ok_def)
  show "jobs_keyed (sy_world s)" using assms(1) by (simp add: sys_ok_def)
  show "wc_pid x = pid" "sound_queue pid wk (sy_world s)" using sys_ok_thread [OF assms] .
qed

lemma served_ok:
  assumes "sys_ok s" and "sy_service s = Some sv" and "sv_workers sv pid = Some (x, wk)"
    and "turn_step x (wk, sy_world s) (Served jid) (wk', w')"
  shows "sys_ok (with_worker pid x wk' w' sv s) \<and> evolves (sy_world s) w'"
proof -
  let ?s = "with_worker pid x wk' w' sv s"
  have same: "in_flight ?s = in_flight s" "sy_channel ?s = sy_channel s" "given_up ?s = given_up s"
    by (simp_all add: fun_eq_iff with_worker_def in_flight_def in_channel_def given_up_def)
  note own = own_line [OF assms(1-3)]
  have "distinct (wk_queue wk')"
    using turn_elsewhere [OF assms] by (simp add: sound_queue_def)
  with own(1) turn_queue [OF assms(4) own(2)] have "distinct (wk_queue wk' @ map job_id (in_flight ?s pid))"
    by (auto simp: same)
  with turned_ok [OF assms, of ?s] show ?thesis by (simp add: same) (simp add: with_worker_def)
qed

lemma answered_ok:
  assumes ok: "sys_ok s" and sv: "sy_service s = Some sv" and wk: "sv_workers sv pid = Some (x, wk)"
    and ch: "sy_channel s pid = q # qs" and turn: "turn_step x (wk, sy_world s) (Answered (command_of q) r) (wk', w')"
  shows "sys_ok ((with_worker pid x wk' w' sv s)\<lparr>sy_channel := (sy_channel s)(pid := qs),
     sy_failing := refused q r @ sy_failing s\<rparr>) \<and> evolves (sy_world s) w'"
proof -
  let ?s = "(with_worker pid x wk' w' sv s)\<lparr>sy_channel := (sy_channel s)(pid := qs), sy_failing := refused q r @ sy_failing s\<rparr>"
  note own = own_line [OF ok sv wk]
  have inch: "in_channel s pid = submitted_job q @ in_channel ?s pid"
    using ch by (simp add: in_channel_def)
  have gu: "given_up ?s p = filter (\<lambda>j. job_printer_id j = p) (map (fst \<circ> snd) (refused q r)) @ given_up s p" for p
    by (simp add: given_up_def)
  show ?thesis
  proof (cases q)
    case (Asked c)
    have "Asked c \<in> set (sy_channel s pid)" using ch Asked by simp
    then have c: "\<not> is_enqueue c" using ok unfolding sys_ok_def channels_ok_def by blast
    then have adm: "admitted pid wk (sy_world s) (Answered (command_of q) r)" using Asked by (cases c) auto
    have same: "in_flight ?s pid = in_flight s pid" "given_up ?s = given_up s"
      using inch gu Asked by (simp_all add: in_flight_def fun_eq_iff)
    have "set (wk_queue wk') \<subseteq> set (wk_queue wk)"
      using turn_queue [OF turn own(2)] c Asked by auto
    moreover have "distinct (wk_queue wk')"
      using turn_elsewhere [OF ok sv wk turn adm] by (simp add: sound_queue_def)
    ultimately have line: "distinct (wk_queue wk' @ map job_id (in_flight ?s pid))" using own(1) by (auto simp: same)
    have "sys_ok ?s \<and> evolves (sy_world s) (sy_world ?s)"
      by (rule turned_ok [OF ok sv wk turn adm _ _ _ _ line]) (use ch same in \<open>auto simp: with_worker_def\<close>)
    then show ?thesis by (simp add: with_worker_def)
  next
    case (Submitted v j)
    have j: "j \<in> set (in_flight s pid)" using inch Submitted by (simp add: in_flight_def)
    then have fl: "flight_ok (sy_world s) pid j" using ok by (simp add: sys_ok_def)
    have adm: "admitted pid wk (sy_world s) (Answered (command_of q) r)"
      using own(1) j fl Submitted by (auto simp: flight_ok_def)
    have sq: "distinct (wk_queue wk')" using turn_elsewhere [OF ok sv wk turn adm] by (simp add: sound_queue_def)
    have line: "distinct (wk_queue wk' @ map job_id (in_flight ?s pid)) \<and> set (in_flight ?s pid) \<subseteq> set (in_flight s pid)"
    proof (cases r)
      case (Inl e)
      then have "set (wk_queue wk') \<subseteq> set (wk_queue wk)" using turn_queue [OF turn own(2)] by auto
      then show ?thesis
        using own(1) sq inch gu [of pid] Submitted Inl fl by (auto simp: in_flight_def flight_ok_def)
    next
      case (Inr a)
      then have "wk_queue wk' = wk_queue wk @ [job_id j]" using turn_queue [OF turn own(2)] Submitted by auto
      then show ?thesis
        using own(1) inch gu [of pid] Submitted Inr by (auto simp: in_flight_def)
    qed
    have "given_up ?s p = given_up s p" if "p \<noteq> pid" for p
      using gu [of p] Submitted fl that by (cases r) (auto simp: flight_ok_def)
    then have "sys_ok ?s \<and> evolves (sy_world s) (sy_world ?s)"
      by (intro turned_ok [OF ok sv wk turn adm _ _ _ _ line [THEN conjunct1]])
         (use ch line in \<open>auto simp: with_worker_def\<close>)
    then show ?thesis by (simp add: with_worker_def)
  qed
qed

section \<open>Submissions\<close>

text \<open>An admission leaves every stored job alone, and the job it admits is a new one.\<close>

definition admits :: "string \<Rightarrow> world \<Rightarrow> api_error + bool \<times> job \<Rightarrow> world \<Rightarrow> bool" where
  "admits pid w r w' =
     (evolves w w' \<and> only_files UNIV w w' \<and> (\<forall>i. jobs_of w i \<noteq> None \<longrightarrow> jobs_of w' i = jobs_of w i) \<and>
      (\<forall>j. r = Inr (True, j) \<longrightarrow> flight_ok w' pid j \<and> jobs_of w (job_id j) = None))"

lemma submits_admits:
  assumes "submits i (own i pid) w w'" and "jobs_of w i = None"
    and "\<And>j. r = Inr (True, j) \<Longrightarrow> flight_ok w' pid j \<and> job_id j = i"
  shows "admits pid w r w'"
proof -
  have "jobs_of w' k = jobs_of w k" if "jobs_of w k \<noteq> None" for k
    using submits_other [OF assms(1), of k] assms(2) that by (cases "k = i") simp_all
  moreover have "only_files UNIV w w'" using assms(1) by (auto simp: submits_def intro: any_files)
  ultimately show ?thesis
    using submits_evolves [OF assms(1,2)] assms(2,3) by (auto simp: admits_def)
qed

lemma upload_admission:
  assumes "admit_upload pf sv pid hs body w = (r, w')" and "fresh_ids w"
  shows "admits pid w r w'"
proof (rule submits_admits)
  show "submits (drawn w) (own (drawn w) pid) w w'"
    using admit_upload_submits [of w pid pf sv hs body] assms(1) by simp
  show "jobs_of w (drawn w) = None" using assms(2) by (simp add: fresh_ids_def)
  fix j assume "r = Inr (True, j)"
  with upload_admitted [of pf sv pid hs body w j w'] assms(1) show "flight_ok w' pid j \<and> job_id j = drawn w"
    by (auto simp: flight_ok_def own_def)
qed

lemma v2_admission:
  assumes "admit_v2 pf sv pid hs q w = (r, w')" and "fresh_ids w"
  shows "admits pid w r w'"
  using assms(1)
proof (cases rule: admit_v2_cases)
  case (refused e)
  have "reads w w'" by fact
  then have "only_files {} w w'" by (simp add: reads_def)
  then show ?thesis
    using refused only_files_none_jobs [of w w'] evolves_same [of w' w] by (auto simp: admits_def any_files)
next
  case (existing x wk p e v)
  have "reads w w'"
    using reads.trans [OF existing(2) reads_keys(1)] existing(5) by (simp add: find_job_by_idempotency_key_any_def)
  then have "only_files {} w w'" by (simp add: reads_def)
  then show ?thesis
    using existing only_files_none_jobs [of w w'] evolves_same [of w' w] by (auto simp: admits_def any_files)
next
  case (stored x wk p held v v1 a v2 j v3)
  note j = new_v2_job_own [OF stored(8)]
  have wv2: "reads w v2"
    using reads.trans [OF reads_revision [OF stored(3)] reads.trans [OF reads_keys(1) reads_keys(2) [OF stored(6)]]]
      stored(5) by (simp add: find_job_by_idempotency_key_any_def)
  have fresh: "jobs_of w (drawn v2) = None"
    using assms(2) wv2 reads_simps(4) [OF wv2] by (simp add: fresh_ids_def reads_def)
  have "only_files {} w v3" using only_files.trans [OF _ j(3)] wv2 by (simp add: reads_def)
  then have sub: "submits (drawn v2) (own (drawn v2) pid) w w'"
    using submits.trans [OF submits_none] kept_v2.submits_store_v2 [OF j(1), of v3 held "pj_bytes p"] stored(9)
    by fastforce
  show ?thesis
  proof (rule submits_admits [OF sub fresh])
    fix i assume "r = Inr (True, i)"
    with store_v2_Inr [of held j "pj_bytes p" v3 True i w'] stored(9) j(1) own_id [OF j(1)]
    show "flight_ok w' pid i \<and> job_id i = drawn v2" by (auto simp: flight_ok_def own_def stored_v2_job_def)
  qed
qed

lemma admitted_world:
  assumes "sys_ok s" and "admits pid (sy_world s) r w'"
  shows "sys_ok (s\<lparr>sy_world := w'\<rparr>)"
proof (rule sys_ok_world [OF assms(1)])
  have a: "evolves (sy_world s) w'" "only_files UNIV (sy_world s) w'"
      "\<forall>i. jobs_of (sy_world s) i \<noteq> None \<longrightarrow> jobs_of w' i = jobs_of (sy_world s) i"
    using assms(2) by (simp_all add: admits_def)
  show "jobs_keyed w'" using a(1) assms(1) by (simp add: evolves_def sys_ok_def)
  show "wf_files w'" using a(2) assms(1) by (simp add: only_files_def sys_ok_def)
  show "jobs_of w' i = jobs_of (sy_world s) i" if "i \<in> set (line s p)" for p i
    using line_stored [OF assms(1) that] a(3) by auto
qed

lemma hand_over_ok:
  assumes ok: "sys_ok s" and running: "sy_service s \<noteq> None"
    and new: "\<And>j. r = Inr (True, j) \<Longrightarrow> flight_ok (sy_world s) (job_printer_id j) j \<and> (\<forall>p. job_id j \<notin> set (line s p))"
  shows "sys_ok (hand_over v r s)"
proof (cases "\<exists>j. r = Inr (True, j)")
  case False
  then have "hand_over v r s = s" by (auto simp: hand_over_def split: sum.splits bool.splits)
  with ok show ?thesis by simp
next
  case True
  then obtain j where r: "r = Inr (True, j)" by blast
  let ?p = "job_printer_id j" and ?s = "hand_over v r s"
  have tq: "thread_queue ?s = thread_queue s" and w: "sy_world ?s = sy_world s" "sy_service ?s = sy_service s"
    and ch: "\<And>p c. Asked c \<in> set (sy_channel ?s p) \<Longrightarrow> Asked c \<in> set (sy_channel s p)"
    using r by (auto simp: hand_over_def send_def thread_queue_def fun_eq_iff split: if_splits)
  have fl: "mset (in_flight ?s p) = mset (in_flight s p) + (if p = ?p then {#j#} else {#})" for p
    using r by (auto simp: hand_over_def send_def in_flight_def in_channel_def given_up_def split: if_splits)
  show ?thesis
  proof (rule sys_okI)
    show "threads_ok ?s" using ok by (auto simp: w sys_ok_def threads_ok_def)
    show "channels_ok ?s" using ok w running ch by (auto simp: sys_ok_def channels_ok_def)
    fix p
    have "mset (line ?s p) = mset (line s p) + (if p = ?p then {#job_id j#} else {#})"
      using fl [of p] tq by (simp add: line_def mset_map)
    moreover have "distinct (line s p)" using ok by (simp add: sys_ok_def)
    moreover have "job_id j \<notin> set (line s p)" using new [OF r] by blast
    ultimately show "distinct (line ?s p)"
      using distinct_added [of "line ?s p" "line s p" "job_id j"] mset_eq_imp_distinct_iff [of "line ?s p" "line s p"]
      by (simp split: if_splits)
    show "flight_ok (sy_world ?s) p i" if "i \<in> set (in_flight ?s p)" for i
    proof -
      have "i \<in># mset (in_flight s p) + (if p = ?p then {#j#} else {#})" using that fl [of p] by (metis set_mset_mset)
      then have "i \<in> set (in_flight s p) \<or> i = j \<and> p = ?p" by (auto split: if_splits)
      with ok new [OF r] w show ?thesis by (auto simp: sys_ok_def)
    qed
  qed (use ok w in \<open>simp_all add: sys_ok_def\<close>)
qed

lemma admission_ok:
  assumes ok: "sys_ok s" and running: "sy_service s \<noteq> None" and adm: "admits pid (sy_world s) r w'"
  shows "sys_ok (hand_over v r (s\<lparr>sy_world := w'\<rparr>)) \<and> evolves (sy_world s) (sy_world (hand_over v r (s\<lparr>sy_world := w'\<rparr>)))"
proof
  show "sys_ok (hand_over v r (s\<lparr>sy_world := w'\<rparr>))"
  proof (rule hand_over_ok [OF admitted_world [OF ok adm]])
    fix j assume "r = Inr (True, j)"
    with adm have j: "flight_ok w' pid j" "jobs_of (sy_world s) (job_id j) = None" by (auto simp: admits_def)
    have "job_id j \<notin> set (line (s\<lparr>sy_world := w'\<rparr>) p)" for p
    proof -
      have "line (s\<lparr>sy_world := w'\<rparr>) p = line s p"
        by (simp add: line_def thread_queue_def in_flight_def in_channel_def given_up_def)
      with line_stored [OF ok, of "job_id j" p] j(2) show ?thesis by auto
    qed
    with j(1) show "flight_ok (sy_world (s\<lparr>sy_world := w'\<rparr>)) (job_printer_id j) j \<and>
        (\<forall>p. job_id j \<notin> set (line (s\<lparr>sy_world := w'\<rparr>) p))" by (auto simp: flight_ok_def)
  qed (use running in simp)
  have "sy_world (hand_over v r (s\<lparr>sy_world := w'\<rparr>)) = w'"
    by (auto simp: hand_over_def send_def split: sum.split bool.split option.split)
  with adm show "evolves (sy_world s) (sy_world (hand_over v r (s\<lparr>sy_world := w'\<rparr>)))" by (simp add: admits_def)
qed

section \<open>Handlers whose hand-over failed\<close>

lemma abandoned_ok:
  assumes "sys_ok s" and "sy_failing s = fs @ (v, j, e) # fs'"
  shows "sys_ok (s\<lparr>sy_failing := fs @ fs'\<rparr>) \<and> flight_ok (sy_world s) (job_printer_id j) j \<and>
     (\<forall>p. job_id j \<notin> set (line (s\<lparr>sy_failing := fs @ fs'\<rparr>) p))"
proof -
  let ?s = "s\<lparr>sy_failing := fs @ fs'\<rparr>" and ?p = "job_printer_id j"
  have fl: "mset (in_flight s p) = mset (in_flight ?s p) + (if p = ?p then {#j#} else {#})" for p
    using assms(2) by (auto simp: in_flight_def in_channel_def given_up_def)
  have li: "mset (line s p) = mset (line ?s p) + (if p = ?p then {#job_id j#} else {#})" for p
    using fl [of p] by (simp add: line_def thread_queue_def mset_map)
  have d: "distinct (line s p)" for p using assms(1) by (simp add: sys_ok_def)
  have own: "job_id j \<notin> set (line ?s ?p) \<and> distinct (line ?s ?p)"
    using d [of ?p] li [of ?p] distinct_added [of "line s ?p" "line ?s ?p" "job_id j"] by simp
  have sub: "set (in_flight ?s p) \<subseteq> set (in_flight s p)" for p
    using fl [of p] by (metis mset_subset_eq_add_left set_mset_mono set_mset_mset)
  have dis: "distinct (line ?s p)" for p
    using own d [of p] li [of p] mset_eq_imp_distinct_iff [of "line s p" "line ?s p"] by (cases "p = ?p") simp_all
  have j: "flight_ok (sy_world s) ?p j"
  proof -
    have "j \<in> set (in_flight s ?p)" using assms(2) by (simp add: in_flight_def given_up_def)
    with assms(1) show ?thesis by (simp add: sys_ok_def)
  qed
  have ok: "sys_ok ?s"
  proof (rule sys_okI)
    show "threads_ok ?s" using sys_ok_thread [OF assms(1)] by (simp add: threads_ok_def)
    show "channels_ok ?s" using assms by (auto simp: sys_ok_def channels_ok_def)
    show "flight_ok (sy_world ?s) p i" if "i \<in> set (in_flight ?s p)" for p i
      using that sub assms(1) by (auto simp: sys_ok_def)
  qed (use assms(1) dis in \<open>simp_all add: sys_ok_def\<close>)
  have "job_id j \<notin> set (line ?s p)" for p
  proof (cases "p = ?p")
    case True
    with own show ?thesis by simp
  next
    case False
    have "jobs_of (sy_world s) (job_id j) = Some j" using j by (simp add: flight_ok_def)
    with False line_stored [OF ok, of "job_id j" p] show ?thesis by auto
  qed
  with ok j show ?thesis by blast
qed

lemma close_refused_files:
  assumes "close_refused v j e w = (r, w')"
  shows "\<exists>j'. same_identity j j' \<and> (payload_ok j \<longrightarrow> payload_ok j') \<and> job_state j' = Failed \<and> job_id j' = job_id j \<and>
     jobs_of w' \<in> {jobs_of w, (jobs_of w)(job_id j \<mapsto> j')} \<and> only_files UNIV w w'"
proof -
  have save: "jobs_of u \<in> {jobs_of w0, (jobs_of w0)(job_id i \<mapsto> i)} \<and> only_files UNIV w0 u"
    if "save_job i w0 = (q, u)" for i w0 q u
    using jobs_of_save_in [of i w0] any_files [OF only_files_save_job [of i w0]] that by simp
  show ?thesis
  proof (cases v)
    case True
    let ?j = "j\<lparr>job_state := Failed, job_updated_at := env_utc (w_env w) (w_tick w), job_error := Some e\<rparr>"
    obtain q u where q: "save_job ?j (advance w) = (q, u)" by fastforce
    then have "w' = u" using assms True by (cases q) (auto simp: close_refused_def now_def Let_def)
    moreover have "only_files UNIV w u" using save [OF q] by (simp add: only_files_def)
    ultimately show ?thesis
      using save [OF q] by (intro exI [of _ ?j]) (auto simp: same_identity_def payload_ok_def)
  next
    case False
    let ?j = "j\<lparr>job_state := Failed, job_error := Some e\<rparr>"
    obtain q u where q: "save_job ?j w = (q, u)" by fastforce
    then have "w' = u" using assms False by (cases q) (auto simp: close_refused_def)
    with save [OF q] show ?thesis
      by (intro exI [of _ ?j]) (auto simp: same_identity_def payload_ok_def)
  qed
qed

lemma closed_ok:
  assumes ok: "sys_ok s" and fs: "sy_failing s = fs @ (v, j, e) # fs'"
    and run: "close_refused v j e (sy_world s) = (r, w')"
  shows "sys_ok (s\<lparr>sy_world := w', sy_failing := fs @ fs'\<rparr>) \<and> evolves (sy_world s) w'"
proof -
  let ?s = "s\<lparr>sy_failing := fs @ fs'\<rparr>"
  note ab = abandoned_ok [OF ok fs]
  have j: "jobs_of (sy_world s) (job_id j) = Some j" "job_state j = Queued" using ab by (simp_all add: flight_ok_def)
  have keyed: "jobs_keyed (sy_world s)" "wf_files (sy_world s)" using ok by (simp_all add: sys_ok_def)
  then have "payload_ok j" using j(1) by (simp add: jobs_keyed_def)
  obtain j' where j': "same_identity j j'" "payload_ok j'" "job_state j' = Failed" "job_id j' = job_id j"
      "jobs_of w' \<in> {jobs_of (sy_world s), (jobs_of (sy_world s))(job_id j \<mapsto> j')}" "only_files UNIV (sy_world s) w'"
    using close_refused_files [OF run] \<open>payload_ok j\<close> by blast
  have ev: "evolves (sy_world s) w'"
    using j'(5)
  proof (elim insertE emptyE)
    assume "jobs_of w' = jobs_of (sy_world s)"
    then show ?thesis by (rule evolves_same)
  next
    assume w': "jobs_of w' = (jobs_of (sy_world s))(job_id j \<mapsto> j')"
    show ?thesis
      by (rule evolves_update [OF w' j'(4,2)]) (use j j' in \<open>simp add: job_moves_def\<close>)
  qed
  have "sys_ok (?s\<lparr>sy_world := w'\<rparr>)"
  proof (rule sys_ok_world)
    show "jobs_keyed w'" using ev keyed by (simp add: evolves_def)
    show "wf_files w'" using j'(6) keyed by (simp add: only_files_def)
    fix p i assume "i \<in> set (line ?s p)"
    with ab have "i \<noteq> job_id j" by auto
    with j'(5) show "jobs_of w' i = jobs_of (sy_world ?s) i" by auto
  qed (use ab in blast)
  moreover have "?s\<lparr>sy_world := w'\<rparr> = s\<lparr>sy_world := w', sy_failing := fs @ fs'\<rparr>" by simp
  ultimately show ?thesis using ev by metis
qed

section \<open>Starts and ends of the process\<close>

lemma idle_line: "sy_service s = None \<Longrightarrow> channels_ok s \<Longrightarrow> line s p = [] \<and> in_flight s p = []"
  by (simp add: channels_ok_def line_def thread_queue_def in_flight_def in_channel_def given_up_def)

lemma rebooted_jobs: "rebooted w w' \<Longrightarrow> jobs_of w' = jobs_of w \<and> wf_files w' = wf_files w"
  by (simp add: rebooted_def jobs_of_def lookup_def wf_files_def fun_eq_iff)

lemma idle_world_ok:
  assumes "sys_ok s" and "sy_service s = None" and "jobs_keyed w" and "wf_files w"
  shows "sys_ok (s\<lparr>sy_world := w\<rparr>)"
proof (rule sys_ok_world [OF assms(1,3,4)])
  show "jobs_of w i = jobs_of (sy_world s) i" if "i \<in> set (line s p)" for p i
    using that idle_line [OF assms(2), of p] assms(1) by (simp add: sys_ok_def)
qed

lemma started_ok:
  assumes ok: "sys_ok s" and idle: "sy_service s = None" and "rebooted (sy_world s) w"
    and run: "start_service pf boot locked c w = (r, w')"
  shows "evolves (sy_world s) w' \<and> sys_ok (s\<lparr>sy_world := w'\<rparr>) \<and>
     (\<forall>sv. r = Inr sv \<longrightarrow> sys_ok (s\<lparr>sy_world := w', sy_service := Some sv\<rparr>))"
proof -
  have w: "jobs_of w = jobs_of (sy_world s)" "wf_files w" "jobs_keyed w"
    using rebooted_jobs [OF assms(3)] ok keyed_same [of w "sy_world s"] by (simp_all add: sys_ok_def)
  have g: "grows w w'" using start_service_grows [of w pf boot locked c] run by simp
  have ev: "evolves (sy_world s) w'"
    using evolves.trans [OF evolves_same [OF w(1)]] g by (simp add: grows_def)
  have w': "jobs_keyed w'" "wf_files w'" using grows_keyed [OF g w(3)] grows_wf [OF g w(2)] .
  have sv: "sys_ok (s\<lparr>sy_world := w', sy_service := Some sv\<rparr>)" if "r = Inr sv" for sv
  proof -
    let ?s = "s\<lparr>sy_world := w', sy_service := Some sv\<rparr>"
    have so: "service_ok sv w'" using start_service_ok [of pf boot locked c w sv w'] run that w(2,3) by simp
    have th: "threads_ok ?s" using so by (simp add: threads_ok_def service_ok_def)
    have ch: "channels_ok ?s" using ok idle by (simp add: sys_ok_def channels_ok_def)
    have fl: "in_flight ?s p = []" for p
      using idle_line [OF idle, of p] ok by (simp add: sys_ok_def in_flight_def in_channel_def given_up_def)
    have "distinct (line ?s p)" for p
      using so fl [of p] by (auto simp: line_def thread_queue_def service_ok_def sound_queue_def split: option.split)
    with th ch fl w' show ?thesis by (intro sys_okI) simp_all
  qed
  with ev idle_world_ok [OF ok idle w'] show ?thesis by blast
qed

lemma stopped_ok: "sys_ok s \<Longrightarrow> sys_ok (s\<lparr>sy_service := None, sy_channel := \<lambda>_. [], sy_failing := []\<rparr>)"
  by (auto simp: sys_ok_def threads_ok_def channels_ok_def line_def thread_queue_def in_flight_def
      in_channel_def given_up_def)

lemma second_ok:
  assumes "sys_ok s" and "start_service pf boot True c (sy_world s) = (r, w')"
  shows "sys_ok (s\<lparr>sy_world := w'\<rparr>) \<and> evolves (sy_world s) w'"
proof -
  have f: "only_files {AgentIdFile} (sy_world s) w'" using locked_start [OF assms(2)] by blast
  then have jobs: "jobs_of w' = jobs_of (sy_world s)" by (rule only_files_jobs) simp
  have "wf_files w'" "jobs_keyed w'"
    using f assms(1) keyed_same [OF jobs] by (simp_all add: only_files_def sys_ok_def)
  with jobs assms(1) evolves_same [OF jobs] show ?thesis by (auto intro: sys_ok_world)
qed

lemma asked_ok:
  assumes "sys_ok s" and "sy_service s \<noteq> None" and "\<not> is_enqueue c" and "send pid (Asked c) s = Some s'"
  shows "sys_ok s' \<and> sy_world s' = sy_world s"
proof -
  have s': "s' = s\<lparr>sy_channel := (sy_channel s)(pid := sy_channel s pid @ [Asked c])\<rparr>"
    using assms(4) by (simp add: send_def split: if_splits)
  have fl: "in_flight s' = in_flight s" and tq: "thread_queue s' = thread_queue s"
    by (simp_all add: s' fun_eq_iff in_flight_def in_channel_def given_up_def thread_queue_def)
  have "line s' = line s" using fl tq by (simp add: fun_eq_iff line_def)
  moreover have "threads_ok s'" "channels_ok s'"
    using assms(1-3) by (auto simp: s' sys_ok_def threads_ok_def channels_ok_def split: if_splits)
  ultimately show ?thesis using assms(1) fl by (simp add: sys_ok_def s')
qed

section \<open>Runs of the service\<close>

lemma sys_step_ok:
  assumes "sys_step pf s e s'" and "sys_ok s"
  shows "sys_ok s' \<and> evolves (sy_world s) (sy_world s')"
  using assms
proof (induction rule: sys_step.induct)
  case (served s sv pid x wk jid wk' w')
  from served_ok [OF served.prems served.hyps] show ?case by (simp add: with_worker_def)
next
  case (answered s sv pid x wk q qs r wk' w')
  from answered_ok [OF answered.prems answered.hyps] show ?case by (simp add: with_worker_def)
next
  case (asked s sv pid c s')
  from asked_ok [of s c pid s'] asked show ?case by (simp add: evolves.refl)
next
  case (uploaded s sv pid hs body r w')
  from admission_ok [OF uploaded.prems _ upload_admission [OF uploaded.hyps(3,2)]] uploaded.hyps(1)
  show ?case by simp
next
  case (submitted s sv pid hs q r w')
  from admission_ok [OF submitted.prems _ v2_admission [OF submitted.hyps(3,2)]] submitted.hyps(1)
  show ?case by simp
next
  case (closed s fs v j e fs' r w')
  from closed_ok [OF closed.prems closed.hyps] show ?case by simp
next
  case (abandoned s fs v j e fs')
  from abandoned_ok [OF abandoned.prems abandoned.hyps] show ?case by (simp add: evolves.refl)
next
  case (stopped s)
  from stopped_ok [OF stopped] show ?case by (simp add: evolves.refl)
next
  case (started s w boot c sv w')
  from started_ok [OF started.prems started.hyps] show ?case by simp
next
  case (not_started s w boot locked c e w')
  from started_ok [OF not_started.prems not_started.hyps] show ?case by simp
next
  case (second boot c s r w')
  from second_ok [OF second.prems second.hyps] show ?case by simp
qed

lemma sys_runs_ok:
  assumes "sys_runs pf s es s'" and "sys_ok s"
  shows "sys_ok s' \<and> evolves (sy_world s) (sy_world s')"
  using assms
proof (induction rule: sys_runs.induct)
  case (none s)
  then show ?case by (simp add: evolves.refl)
next
  case (some s e s' es s'')
  with sys_step_ok [OF some.hyps(1)] show ?case by (blast intro: evolves.trans)
qed

text \<open>The events in which bytes of a job are handed to a printer.\<close>

definition printings :: "uuid \<Rightarrow> sys_event list \<Rightarrow> sys_event list" where
  "printings jid es =
     filter (\<lambda>e. case e of Turned pid (Served i) bs \<Rightarrow> i = jid \<and> bs \<noteq> [] | _ \<Rightarrow> False) es"

lemma step_closes:
  assumes "sys_step pf s e s'" and "sys_ok s" and "printings jid [e] \<noteq> []"
  shows "\<not> closed (sy_world s) jid \<and> closed (sy_world s') jid"
  using assms(1)
proof cases
  case (served sv pid x wk i wk' w')
  then have i: "i = jid" "sent_to pid (sy_world s) w' \<noteq> []"
    using assms(3) by (auto simp: printings_def split: if_splits)
  have "wc_pid x = pid" "sound_queue pid wk (sy_world s)"
    using sys_ok_thread [OF assms(2)] served by blast+
  with served_sends [of x wk "sy_world s" i wk' w'] served i show ?thesis by (simp add: with_worker_def)
qed (use assms(3) in \<open>simp_all add: printings_def split: if_splits\<close>)

lemma closed_not_printed:
  assumes "sys_runs pf s es s'" and "sys_ok s" and "closed (sy_world s) jid"
  shows "printings jid es = []"
  using assms
proof (induction rule: sys_runs.induct)
  case (none s)
  then show ?case by (simp add: printings_def)
next
  case (some s e s' es s'')
  note ok = sys_step_ok [OF some.hyps(1) some.prems(1)]
  have "closed (sy_world s') jid"
    using evolves_closed [of "sy_world s" "sy_world s'" jid] ok some.prems by (simp add: sys_ok_def)
  then have "printings jid es = []" using some.IH ok by blast
  moreover have "printings jid [e] = []" using step_closes [OF some.hyps(1) some.prems(1)] some.prems(2) by blast
  ultimately show ?case by (simp add: printings_def split: if_splits)
qed

lemma printed_once:
  assumes "sys_runs pf s es s'" and "sys_ok s"
  shows "length (printings jid es) \<le> 1"
  using assms
proof (induction rule: sys_runs.induct)
  case (none s)
  then show ?case by (simp add: printings_def)
next
  case (some s e s' es s'')
  note ok = sys_step_ok [OF some.hyps(1) some.prems]
  show ?case
  proof (cases "printings jid [e] = []")
    case True
    with some.IH ok show ?thesis by (auto simp: printings_def split: if_splits)
  next
    case False
    then have "closed (sy_world s') jid" using step_closes [OF some.hyps(1) some.prems] by blast
    then have "printings jid es = []" using closed_not_printed [OF some.hyps(2)] ok by blast
    then show ?thesis by (auto simp: printings_def)
  qed
qed

text \<open>C3: the service keeps its order: along every interleaving of submissions of both versions,
  commands and turns of all threads, hand-overs and their closing, and ends and starts of the
  process, in which no printer is replaced, the waiting jobs of a printer are distinct,
  stored for it and not started, those on their way to its thread are stored as queued, and
  every job only moves along its life cycle.\<close>

theorem system_stays_sound:
  assumes "sys_runs pf s es s'" and "sys_ok s"
  shows "sys_ok s' \<and> evolves (sy_world s) (sy_world s')"
  by (rule sys_runs_ok [OF assms])

text \<open>C2: no job is printed twice: however the service runs, fails and is restarted, the bytes
  of a job are handed to a printer in at most one turn of one thread, and never once its
  state is a final one.\<close>

theorem printed_at_most_once:
  assumes "sys_runs pf s es s'" and "sys_ok s"
  shows "length (printings jid es) \<le> 1 \<and> (closed (sy_world s) jid \<longrightarrow> printings jid es = [])"
  using printed_once [OF assms] closed_not_printed [OF assms] by blast

section \<open>A concrete run\<close>

definition sample_system :: system where
  "sample_system = \<lparr>sy_world = queued_world,
     sy_service = Some (sample_service\<lparr>sv_workers := [''p'' \<mapsto> (sample_context, sample_worker [7] False)]\<rparr>),
     sy_channel = \<lambda>_. [], sy_failing = []\<rparr>"

lemma sample_system_ok: "sys_ok sample_system"
proof (rule sys_okI)
  show "jobs_keyed (sy_world sample_system)" by (simp add: sample_system_def)
  show "wf_files (sy_world sample_system)" by (simp add: sample_system_def queued_world_def)
  have "sound_queue ''p'' (sample_worker [7] False) queued_world"
    by (simp add: sound_queue_def waits_def queued_world_jobs sample_worker_def) (simp add: sample_job_def)
  then show "threads_ok sample_system"
    by (simp add: threads_ok_def sample_system_def sample_context_def sample_printer_def)
  show "channels_ok sample_system" by (simp add: channels_ok_def sample_system_def)
  have fl: "in_flight sample_system p = []" for p
    by (simp add: in_flight_def in_channel_def given_up_def sample_system_def)
  then show "distinct (line sample_system p)" for p
    by (simp add: line_def thread_queue_def sample_system_def sample_worker_def)
  show "flight_ok (sy_world sample_system) p j" if "j \<in> set (in_flight sample_system p)" for p j
    using that fl by simp
qed

lemma sample_run:
  "\<exists>bs s'. sys_runs sample_platform sample_system [Turned ''p'' (Served 7) bs, Silent] s'"
proof -
  let ?sv = "sample_service\<lparr>sv_workers := [''p'' \<mapsto> (sample_context, sample_worker [7] False)]\<rparr>"
  obtain wk' w' where "serve sample_context 7 [] (sample_worker [7] False) queued_world = (wk', w')"
    by fastforce
  then have "turn_step sample_context (sample_worker [7] False, sy_world sample_system) (Served 7) (wk', w')"
    using turn_step.serve [of "sample_worker [7] False" 7 "[]" sample_context queued_world]
    by (simp add: sample_system_def)
  from sys_step.served [of sample_system ?sv "''p''" sample_context, OF _ _ this, of sample_platform]
  have "sys_step sample_platform sample_system (Turned ''p'' (Served 7) (sent_to ''p'' (sy_world sample_system) w'))
      (with_worker ''p'' sample_context wk' w' ?sv sample_system)"
    by (simp add: sample_system_def)
  from sys_runs.some [OF this sys_runs.some [OF sys_step.stopped sys_runs.none]] show ?thesis by blast
qed

theorem system_stays_sound_witness:
  "\<exists>bs s'. sys_runs sample_platform sample_system [Turned ''p'' (Served 7) bs, Silent] s' \<and> sys_ok s'"
proof -
  obtain bs s' where run: "sys_runs sample_platform sample_system [Turned ''p'' (Served 7) bs, Silent] s'"
    using sample_run by blast
  with system_stays_sound [OF run sample_system_ok] show ?thesis by blast
qed

theorem printed_at_most_once_witness:
  "\<exists>bs s'. sys_runs sample_platform sample_system [Turned ''p'' (Served 7) bs, Silent] s' \<and>
     length (printings 7 [Turned ''p'' (Served 7) bs, Silent]) \<le> 1"
proof -
  obtain bs s' where run: "sys_runs sample_platform sample_system [Turned ''p'' (Served 7) bs, Silent] s'"
    using sample_run by blast
  with printed_at_most_once [OF run sample_system_ok] show ?thesis by blast
qed

end
