(* ===== verification/Discovery.thy ===== *)
theory Discovery
  imports Startup_Recovery
begin

text \<open>
  The announcement of the service and its printers by DNS-SD (\<open>src/mdns.rs\<close>). The daemon of the
  \<open>mdns-sd\<close> crate, SHA-256 and the environment variable \<open>HOSTNAME\<close> are parameters.
\<close>

section \<open>Announcements\<close>

record service_info =
  si_type :: string
  si_instance :: string
  si_host :: string
  si_address :: string
  si_port :: u16
  si_props :: "string \<rightharpoonup> string"
  si_addr_auto :: bool

text \<open>What the crate answers to \<open>ServiceDaemon::new\<close>, \<open>ServiceInfo::new\<close> and \<open>register\<close>.\<close>

record mdns_daemon =
  md_start :: "string + unit"
  md_new :: "service_info \<Rightarrow> string + unit"
  md_register :: "service_info \<Rightarrow> string + unit"

definition instance_name :: "(u8 list \<Rightarrow> u8 list) \<Rightarrow> string \<Rightarrow> string \<Rightarrow> string" where
  "instance_name sha prefix identity =
     prefix @ ''-'' @ concat (map (hex_byte False) (take 16 (sha (bytes_of identity))))"

definition hostname :: "(u8 list \<Rightarrow> u8 list) \<Rightarrow> string option \<Rightarrow> string \<Rightarrow> string" where
  "hostname sha variable agent =
     (let name = (case variable of
            None \<Rightarrow> instance_name sha ''print-agent'' agent
          | Some s \<Rightarrow> if s \<noteq> [] then s else instance_name sha ''print-agent'' agent)
      in if ends_with ''.'' name then name
         else if ends_with ''.local'' name then name @ ''.''
         else name @ ''.local.'')"

definition agent_info :: "(u8 list \<Rightarrow> u8 list) \<Rightarrow> string \<Rightarrow> u16 \<Rightarrow> string \<Rightarrow> service_info" where
  "agent_info sha host port agent =
     \<lparr>si_type = ''_print-agent._tcp.local.'', si_instance = instance_name sha ''print-agent'' agent,
      si_host = host, si_address = ''0.0.0.0'', si_port = port,
      si_props = [''agent_id'' \<mapsto> agent, ''api_version'' \<mapsto> ''v1'', ''rest_path'' \<mapsto> ''/v1'',
        ''metrics_path'' \<mapsto> ''/metrics''],
      si_addr_auto = True\<rparr>"

definition printer_info :: "(u8 list \<Rightarrow> u8 list) \<Rightarrow> string \<Rightarrow> u16 \<Rightarrow> string \<Rightarrow> printer_config \<Rightarrow> service_info" where
  "printer_info sha host port agent p =
     \<lparr>si_type = ''_print-agent-printer._tcp.local.'',
      si_instance = instance_name sha ''print-agent-printer'' (agent @ '':'' @ pc_id p),
      si_host = host, si_address = ''0.0.0.0'', si_port = port,
      si_props = [''agent_id'' \<mapsto> agent, ''api_version'' \<mapsto> ''v1'', ''rest_path'' \<mapsto> ''/v1/printers/'' @ pc_id p,
        ''snapshot_path'' \<mapsto> ''/v1/printers/'' @ pc_id p @ ''/snapshot'', ''metrics_path'' \<mapsto> ''/metrics'',
        ''printer_id'' \<mapsto> pc_id p, ''transport'' \<mapsto> pc_transport p, ''driver'' \<mapsto> pc_driver p],
      si_addr_auto = True\<rparr>"

definition register_info :: "mdns_daemon \<Rightarrow> service_info \<Rightarrow> string + service_info" where
  "register_info md i = bindR (md_new md i) (\<lambda>_. bindR (md_register md i) (\<lambda>_. Inr i))"

fun register_printers :: "mdns_daemon \<Rightarrow> (printer_config \<Rightarrow> service_info) \<Rightarrow> printer_config list \<Rightarrow>
    string + service_info list" where
  "register_printers md mk [] = Inr []"
| "register_printers md mk (p # ps) =
     bindR (register_info md (mk p)) (\<lambda>i. bindR (register_printers md mk ps) (\<lambda>is. Inr (i # is)))"

definition announce :: "mdns_daemon \<Rightarrow> (u8 list \<Rightarrow> u8 list) \<Rightarrow> string option \<Rightarrow> u16 \<Rightarrow> config \<Rightarrow>
    string + service_info list option" where
  "announce md sha variable port c =
     (if \<not> cf_mdns_enabled c then Inr None
      else
        bindR (md_start md) (\<lambda>_.
        bindR (or_error ''agent identity must be initialized before mDNS'' (cf_agent_id c)) (\<lambda>agent.
        let host = hostname sha variable agent in
        bindR (register_info md (agent_info sha host port agent)) (\<lambda>a.
        bindR (register_printers md (printer_info sha host port agent) (cf_printers c)) (\<lambda>ps.
          Inr (Some (a # ps)))))))"

section \<open>What is announced\<close>

lemma register_info_Inr: "register_info md i = Inr j \<Longrightarrow> j = i"
  by (auto simp: register_info_def bindR_Inr)

lemma register_printers_Inr: "register_printers md mk ps = Inr is \<Longrightarrow> is = map mk ps"
  by (induction ps arbitrary: "is") (auto simp: bindR_Inr dest: register_info_Inr)

lemma length_instance: "length (sha (bytes_of s)) = 32 \<Longrightarrow> length (instance_name sha prefix s) = length prefix + 33"
  by (simp add: instance_name_def length_concat comp_def hex_byte_def sum_list_triv)

lemma hex_bytes_inject: "concat (map (hex_byte False) xs) = concat (map (hex_byte False) ys) \<Longrightarrow> xs = ys"
  using hex_lower.enc_inject [of xs ys] by (simp add: encode_hex_def)

lemma instance_inject:
  "instance_name sha prefix s = instance_name sha prefix t \<Longrightarrow> take 16 (sha (bytes_of s)) = take 16 (sha (bytes_of t))"
  by (auto simp: instance_name_def dest: hex_bytes_inject)

text \<open>C38: the announcements are what the network can hold and clients need: the service and every
  configured printer are announced, in order, each under an instance name of at most 63 octets
  however long the names are, with the path of its REST resource; and as long as the shortened
  digests of the names differ, so do the instance names.\<close>

theorem announced_names:
  assumes "announce md sha variable port c = Inr (Some infos)" and "cf_agent_id c = Some agent"
    and "\<And>x. length (sha x) = 32" and "distinct (map pc_id (cf_printers c))"
  shows "map (\<lambda>i. si_props i ''printer_id'') infos = None # map (\<lambda>p. Some (pc_id p)) (cf_printers c) \<and>
     (\<forall>i \<in> set infos. length (si_instance i) \<le> 63 \<and>
        si_props i ''rest_path'' = Some (case si_props i ''printer_id'' of None \<Rightarrow> ''/v1'' | Some p \<Rightarrow> ''/v1/printers/'' @ p)) \<and>
     (inj_on (\<lambda>s. take 16 (sha (bytes_of s))) ((\<lambda>p. agent @ '':'' @ pc_id p) ` set (cf_printers c)) \<longrightarrow>
        distinct (map si_instance infos))"
proof -
  let ?h = "hostname sha variable agent"
  have infos: "infos = agent_info sha ?h port agent # map (printer_info sha ?h port agent) (cf_printers c)"
    using assms(1,2)
    by (auto simp: announce_def Let_def bindR_Inr or_error_Inr dest!: register_info_Inr register_printers_Inr split: if_splits)
  have "distinct (map si_instance infos)"
    if inj: "inj_on (\<lambda>s. take 16 (sha (bytes_of s))) ((\<lambda>p. agent @ '':'' @ pc_id p) ` set (cf_printers c))"
  proof -
    have "inj_on (\<lambda>p. instance_name sha ''print-agent-printer'' (agent @ '':'' @ pc_id p)) (set (cf_printers c))"
    proof (rule inj_onI)
      fix p q
      assume pq: "p \<in> set (cf_printers c)" "q \<in> set (cf_printers c)"
        and same: "instance_name sha ''print-agent-printer'' (agent @ '':'' @ pc_id p) =
          instance_name sha ''print-agent-printer'' (agent @ '':'' @ pc_id q)"
      have "agent @ '':'' @ pc_id p = agent @ '':'' @ pc_id q"
        by (rule inj_onD [OF inj]) (use instance_inject [OF same] pq in simp_all)
      then have "pc_id p = pc_id q" by simp
      then show "p = q" using assms(4) pq by (simp add: distinct_map inj_on_def)
    qed
    moreover have "instance_name sha ''print-agent'' agent \<noteq> instance_name sha ''print-agent-printer'' t" for t
      using length_instance [of sha agent "''print-agent''"] length_instance [of sha t "''print-agent-printer''"] assms(3)
      by (auto dest: arg_cong [where f = length])
    ultimately show ?thesis
      using assms(4) unfolding infos
      by (auto simp: agent_info_def printer_info_def comp_def distinct_map)
  qed
  then show ?thesis
    unfolding infos using assms(3)
    by (auto simp: agent_info_def printer_info_def length_instance)
qed


definition sample_daemon :: mdns_daemon where
  "sample_daemon = \<lparr>md_start = Inr (), md_new = \<lambda>_. Inr (), md_register = \<lambda>_. Inr ()\<rparr>"

theorem announced_names_witness:
  "\<exists>a p. announce sample_daemon (\<lambda>_. replicate 32 0) None 8080 (sample_config\<lparr>cf_printers := [sample_printer]\<rparr>) =
       Inr (Some [a, p]) \<and> length (si_instance p) \<le> 63 \<and> si_props p ''printer_id'' = Some (pc_id sample_printer)"
proof -
  let ?c = "sample_config\<lparr>cf_printers := [sample_printer]\<rparr>"
  have id: "cf_agent_id ?c = Some ''agent''" "cf_printers ?c = [sample_printer]" "cf_mdns_enabled ?c"
    by (simp_all add: sample_config_def default_config_def)
  then obtain a p where run: "announce sample_daemon (\<lambda>_. replicate 32 0) None 8080 ?c = Inr (Some [a, p])"
    by (simp add: announce_def sample_daemon_def register_info_def Let_def)
  show ?thesis using announced_names [OF run id(1)] run id(2) by auto
qed

end
