(* ===== verification/Launch.thy ===== *)
theory Launch
  imports System Discovery
begin

text \<open>
  The rest of \<open>src/main.rs\<close>: what the process does with its arguments, the health check a
  container runs, and the probes that timers send to the threads. The file and the network
  are reached through parameters: \<open>load\<close> is \<open>Config::load\<close> (modelled by \<open>load_config\<close>),
  \<open>exchange\<close> connects to an address, sends a text and answers with the bytes of one read,
  \<open>bind\<close> opens the listener.
\<close>

section \<open>Health check\<close>

text \<open>\<open>split_once('/')\<close>\<close>

fun split_once :: "char \<Rightarrow> string \<Rightarrow> (string \<times> string) option" where
  "split_once c [] = None"
| "split_once c (x # s) = (if x = c then Some ([], s) else map_option (apfst (Cons x)) (split_once c s))"

definition health_request :: "string \<Rightarrow> string \<Rightarrow> string" where
  "health_request authority p =
     ''GET /'' @ p @ '' HTTP/1.1'' @ crlf @ ''Host: '' @ authority @ crlf @ ''Connection: close'' @ crlf @ crlf"

definition http_healthcheck :: "(string \<Rightarrow> string \<Rightarrow> string + u8 list) \<Rightarrow> string \<Rightarrow> string + unit" where
  "http_healthcheck exchange url =
     bindR (or_error ''healthcheck URL must use http://'' (strip_prefix ''http://'' url)) (\<lambda>target.
     let (authority, p) = (case split_once (CHR ''/'') target of None \<Rightarrow> (target, []) | Some x \<Rightarrow> x) in
     bindR (exchange authority (health_request authority p)) (\<lambda>received.
       let response = string_of_bytes (take 64 received) in
       check (starts_with ''HTTP/1.1 200'' response \<or> starts_with ''HTTP/1.0 200'' response)
         ''healthcheck endpoint is not ready''))"

lemma split_once_first: "c \<notin> set a \<Longrightarrow> split_once c (a @ c # b) = Some (a, b)"
  by (induction a) auto

text \<open>A health check talks to the address its URL names, and asks for the path it names.\<close>

lemma health_target:
  "CHR ''/'' \<notin> set authority \<Longrightarrow> http_healthcheck exchange (''http://'' @ authority @ ''/'' @ p) =
     bindR (exchange authority (health_request authority p)) (\<lambda>received.
       check (starts_with ''HTTP/1.1 200'' (string_of_bytes (take 64 received)) \<or>
              starts_with ''HTTP/1.0 200'' (string_of_bytes (take 64 received)))
         ''healthcheck endpoint is not ready'')"
  using split_once_first [of "CHR ''/''" authority p]
  by (simp add: http_healthcheck_def strip_prefix_def starts_with_def Let_def)

section \<open>The process\<close>

record args =
  ar_config :: string
  ar_check_config :: bool
  ar_healthcheck :: "string option"

datatype launched = Healthy | Valid_configuration | Serving service "service_info list option"

text \<open>What \<open>main\<close> is given by its surroundings.\<close>

record surroundings =
  su_platform :: platform
  su_exchange :: "string \<Rightarrow> string \<Rightarrow> string + u8 list"
  su_load :: "string \<Rightarrow> string + config"
  su_boot :: "string option"
  su_locked :: bool
  su_daemon :: mdns_daemon
  su_hostname :: "string option"
  su_port :: "string \<Rightarrow> u16"
  su_bind :: "string \<Rightarrow> string + unit"

definition launch :: "surroundings \<Rightarrow> args \<Rightarrow> world \<Rightarrow> (string + launched) \<times> world" where
  "launch su a w =
     (case ar_healthcheck a of
        Some url \<Rightarrow> bindE (http_healthcheck (su_exchange su) url, w) (\<lambda>_ w. (Inr Healthy, w))
      | None \<Rightarrow>
          bindE (su_load su (ar_config a), w) (\<lambda>c w.
            if ar_check_config a then (Inr Valid_configuration, w)
            else
              bindE (start_service (su_platform su) (su_boot su) (su_locked su) c w) (\<lambda>sv w.
              let c = sv_config sv in
              bindE (announce (su_daemon su) (cd_sha256 (pf_codecs (su_platform su))) (su_hostname su)
                (su_port su (cf_listen c)) c, w) (\<lambda>infos w.
              bindE (su_bind su (cf_listen c), w) (\<lambda>_ w. (Inr (Serving sv infos), w))))))"

text \<open>A check of the configuration and a health check leave the data directory of a running
  service alone.\<close>

lemma launch_checks: "ar_check_config a \<or> ar_healthcheck a \<noteq> None \<Longrightarrow> snd (launch su a w) = w"
  by (auto simp: launch_def bindE_def split: option.splits sum.splits)

section \<open>Timers\<close>

text \<open>One request to every thread in the table, each by a task of its own; a full channel
  refuses it and the error is dropped.\<close>

definition request_probe :: "bool \<Rightarrow> string \<Rightarrow> system \<Rightarrow> system" where
  "request_probe capabilities pid s =
     (case send pid (Asked (Probe capabilities)) s of None \<Rightarrow> s | Some s' \<Rightarrow> s')"

definition startup_probes :: "string list \<Rightarrow> system \<Rightarrow> system" where
  "startup_probes ids s = fold (request_probe True) ids s"

definition poll_status_tick :: "string list \<Rightarrow> system \<Rightarrow> system" where
  "poll_status_tick ids s = fold (request_probe False) ids s"

definition capability_tick :: "string list \<Rightarrow> system \<Rightarrow> system" where
  "capability_tick ids s = fold (request_probe True) ids s"

text \<open>\<open>interval.max(1)\<close>, in seconds.\<close>

definition timer_period :: "u64 \<Rightarrow> u64" where
  "timer_period interval = max interval 1"

lemma timer_period_pos: "0 < timer_period i"
  by (auto simp: timer_period_def max_def word_le_nat_alt word_less_nat_alt)

text \<open>What the timers do is a run of the service as modelled in \<open>System\<close>.\<close>

lemma request_probe_run:
  assumes "sy_service s = Some sv" and "pid \<in> dom (sv_workers sv)"
  shows "\<exists>es. sys_runs pf s es (request_probe b pid s) \<and> set es \<subseteq> {Silent}"
proof (cases "send pid (Asked (Probe b)) s")
  case None
  then show ?thesis
    by (intro exI [of _ "[]"]) (simp add: request_probe_def sys_runs.none)
next
  case (Some s')
  have "sys_step pf s Silent s'" by (rule sys_step.asked [OF assms _ Some]) simp
  with Some show ?thesis
    by (intro exI [of _ "[Silent]"]) (auto simp: request_probe_def intro: sys_runs.intros)
qed

lemma request_probe_service: "sy_service (request_probe b pid s) = sy_service s"
  by (simp add: request_probe_def send_def)

lemma timers_run:
  assumes "sy_service s = Some sv" and "set ids \<subseteq> dom (sv_workers sv)"
  shows "\<exists>es. sys_runs pf s es (fold (request_probe b) ids s) \<and> set es \<subseteq> {Silent}"
  using assms
proof (induction ids arbitrary: s)
  case Nil
  show ?case by (intro exI [of _ "[]"]) (simp add: sys_runs.none)
next
  case (Cons pid ids)
  obtain es where es: "sys_runs pf s es (request_probe b pid s)" "set es \<subseteq> {Silent}"
    using request_probe_run [OF Cons.prems(1), of pid pf b] Cons.prems(2) by auto
  obtain es' where es': "sys_runs pf (request_probe b pid s) es' (fold (request_probe b) ids (request_probe b pid s))"
      "set es' \<subseteq> {Silent}"
    using Cons.IH [of "request_probe b pid s"] Cons.prems by (auto simp: request_probe_service)
  have "sys_runs pf s (es @ es') (fold (request_probe b) ids (request_probe b pid s))"
    using es(1) es'(1) by (induction rule: sys_runs.induct) (auto intro: sys_runs.intros)
  with es(2) es'(2) show ?case by (intro exI [of _ "es @ es'"]) auto
qed

end
