(* ===== verification/Router.thy ===== *)
theory Router
  imports Api Pages Launch
begin

text \<open>
  The router of \<open>src/api.rs\<close>: every route with its handler and its guards, and what holds of
  every request, also of one that the framework cannot decode. The two aliases under \<open>/v2/extensions/zebra\<close> name handlers that are here
  already.
\<close>

section \<open>Routes\<close>

datatype route =
    V1_root | V1_health | V1_metrics | V1_agent | V1_drivers
  | V1_printers | V1_printer string | V1_snapshot string | V1_capabilities string | V1_probe string
  | V1_create_job string body | V1_jobs page | V1_job uuid | V1_job_events uuid page | V1_payload uuid
  | V1_events page | V1_media string | V1_put_media string media_definition
  | V1_edit_media string string media_definition | V1_unload_media string | V1_adjust_media string media_adjustment
  | V1_configuration string | V1_read_configuration string | V1_save_configuration string save_request
  | V2_service | V2_printers | V2_printer string | V2_pause string | V2_resume string | V2_create_job string submit_job
  | V2_job uuid | V2_jobs page | V2_cancel_job uuid | V2_job_by_key string
  | V2_admin_printers | V2_admin_usb | V2_admin_save_printer string printer_config
  | V2_admin_load_media string media_definition | V2_admin_maintenance string string
  | Ui asset_file

datatype response =
    Of_root | Of_health | Of_metrics string string | Of_agent agent_view | Of_service service_view | Of_asset asset_page
  | Answered_by answer | Of_job job | Of_jobs "job list" nat | Of_events "event list" nat
  | Of_bytes "u8 list" | Of_snapshot printer_snapshot | Of_capabilities "(string \<times> bool observed) list"
  | Of_items "printer_item list" | Of_printer printer_view | Of_media "media_state observed"
  | Of_configuration configuration_view | Of_v2_printer v2_printer | Of_v2_printers "v2_printer list"
  | Of_v2_job v2_job | Of_v2_jobs "v2_job list" nat | Of_queue string bool
  | Of_drivers "driver_descriptor list" | Of_configs "printer_config list" | Of_usb "usb_found list" | Of_config printer_config

text \<open>What the handlers are given beside the request: the platform, what the process knows of
  itself, the order of the table of threads, and the two ways to the threads.\<close>

record gateway =
  gw_platform :: platform
  gw_process :: process
  gw_table :: threads_table
  gw_ask :: asking
  gw_enqueue :: "string \<Rightarrow> uuid \<Rightarrow> world \<Rightarrow> (string + unit) \<times> world"

fun legacy_route :: "gateway \<Rightarrow> service \<Rightarrow> headers \<Rightarrow> route \<Rightarrow> world \<Rightarrow> ((api_error + response) \<times> world) option" where
  "legacy_route g sv hs V1_metrics w =
     Some (apfst (\<lambda>(t, text). Inr (Of_metrics t text)) (prometheus (gw_process g) (gw_platform g) sv (gw_table g) w))"
| "legacy_route g sv hs V1_agent w = Some (apfst (\<lambda>v. Inr (Of_agent v)) (agent (gw_process g) sv (gw_table g) w))"
| "legacy_route g sv hs V1_printers w = Some (Inr (Of_items (printers sv)), w)"
| "legacy_route g sv hs V1_drivers w = Some (Inr (Of_drivers drivers), w)"
| "legacy_route g sv hs (V1_printer pid) w =
     Some (map_sum id Of_printer (printer_of sv pid), w)"
| "legacy_route g sv hs (V1_snapshot pid) w = Some (map_sum id Of_snapshot (snapshot_of sv pid), w)"
| "legacy_route g sv hs (V1_capabilities pid) w =
     Some (map_sum id Of_capabilities (capabilities_of sv pid), w)"
| "legacy_route g sv hs (V1_probe pid) w = Some (apfst (map_sum id Answered_by) (probe_printer (gw_ask g) sv pid w))"
| "legacy_route g sv hs (V1_create_job pid body) w =
     Some (apfst (map_sum id Of_job) (create_job (gw_enqueue g) (gw_platform g) sv pid hs body w))"
| "legacy_route g sv hs (V1_jobs p) w = Some (apfst (map_sum id (\<lambda>(js, n). Of_jobs js n)) (jobs_page p w))"
| "legacy_route g sv hs (V1_job jid) w = Some (apfst (map_sum id Of_job) (job_of jid w))"
| "legacy_route g sv hs (V1_job_events jid p) w =
     Some (apfst (map_sum id (\<lambda>(es, n). Of_events es n)) (job_events jid p w))"
| "legacy_route g sv hs (V1_payload jid) w =
     Some (apfst (map_sum id Of_bytes) (payload_of (sv_config sv) jid w))"
| "legacy_route g sv hs (V1_events p) w =
     Some (apfst (map_sum id (\<lambda>(es, n). Of_events es n)) (events p w))"
| "legacy_route g sv hs (V1_media pid) w = Some (apfst (map_sum id Of_media) (media_shown sv pid w))"
| "legacy_route g sv hs (V1_put_media pid d) w =
     Some (apfst (map_sum id Answered_by) (put_media (gw_ask g) sv pid hs d w))"
| "legacy_route g sv hs (V1_edit_media pid expected d) w =
     Some (apfst (map_sum id Answered_by) (edit_media (gw_ask g) sv pid hs expected d w))"
| "legacy_route g sv hs (V1_unload_media pid) w =
     Some (apfst (map_sum id Answered_by) (unload_media (gw_ask g) sv pid hs w))"
| "legacy_route g sv hs (V1_adjust_media pid a) w =
     Some (apfst (map_sum id Answered_by) (adjust_media (gw_ask g) sv pid hs a w))"
| "legacy_route g sv hs (V1_configuration pid) w =
     Some (apfst (map_sum id Of_configuration) (configuration_of (gw_platform g) sv pid w))"
| "legacy_route g sv hs (V1_read_configuration pid) w =
     Some (apfst (map_sum id Answered_by) (read_configuration_of (gw_ask g) sv pid hs w))"
| "legacy_route g sv hs (V1_save_configuration pid r) w =
     Some (apfst (map_sum id Answered_by) (save_configuration_of (gw_ask g) sv pid hs r w))"
| "legacy_route g sv hs _ w = None"

text \<open>A path that is not routed is answered by the framework; so are the pages of the web
  interface when it is disabled.\<close>

definition not_routed :: api_error where
  "not_routed = api_error_new 404 [] []"

definition webui :: "config \<Rightarrow> asset_page \<Rightarrow> api_error + response" where
  "webui c p = (if cf_webui_enabled c then Inr (Of_asset p) else Inl not_routed)"

fun v2_route :: "gateway \<Rightarrow> service \<Rightarrow> headers \<Rightarrow> route \<Rightarrow> world \<Rightarrow> (api_error + response) \<times> service \<times> world" where
  "v2_route g sv hs V1_root w = (Inr Of_root, sv, w)"
| "v2_route g sv hs V1_health w = (Inr Of_health, sv, w)"
| "v2_route g sv hs V2_service w = (map_sum id Of_service (v2_service (gw_process g) sv hs), sv, w)"
| "v2_route g sv hs (Ui f) w =
     (webui (sv_config sv) (case f of Webui_html \<Rightarrow> index | Webui_js \<Rightarrow> javascript | Webui_css \<Rightarrow> stylesheet), sv, w)"
| "v2_route g sv hs V2_printers w =
     (case v2_printers (gw_platform g) sv hs w of (r, w) \<Rightarrow> (map_sum id Of_v2_printers r, sv, w))"
| "v2_route g sv hs (V2_printer pid) w =
     (case v2_printer_of (gw_platform g) sv pid hs w of (r, w) \<Rightarrow> (map_sum id Of_v2_printer r, sv, w))"
| "v2_route g sv hs (V2_pause pid) w =
     (case v2_pause_queue (gw_ask g) sv hs pid w of (r, w) \<Rightarrow> (map_sum id (\<lambda>(p, b). Of_queue p b) r, sv, w))"
| "v2_route g sv hs (V2_resume pid) w =
     (case v2_resume_queue (gw_ask g) sv hs pid w of (r, w) \<Rightarrow> (map_sum id (\<lambda>(p, b). Of_queue p b) r, sv, w))"
| "v2_route g sv hs (V2_create_job pid q) w =
     (case v2_create_job (gw_enqueue g) (gw_platform g) sv pid hs q w of (r, w) \<Rightarrow> (map_sum id Of_v2_job r, sv, w))"
| "v2_route g sv hs (V2_job jid) w = (case v2_job_of sv jid hs w of (r, w) \<Rightarrow> (map_sum id Of_v2_job r, sv, w))"
| "v2_route g sv hs (V2_jobs p) w =
     (case v2_jobs sv p hs w of (r, w) \<Rightarrow> (map_sum id (\<lambda>(js, n). Of_v2_jobs js n) r, sv, w))"
| "v2_route g sv hs (V2_cancel_job jid) w =
     (case v2_cancel_job (gw_ask g) sv jid hs w of (r, w) \<Rightarrow> (map_sum id Of_v2_job r, sv, w))"
| "v2_route g sv hs (V2_job_by_key key) w =
     (case v2_job_by_idempotency sv key hs w of (r, w) \<Rightarrow> (map_sum id Of_v2_job r, sv, w))"
| "v2_route g sv hs V2_admin_printers w = (map_sum id Of_configs (v2_admin_printers sv hs), sv, w)"
| "v2_route g sv hs V2_admin_usb w =
     (case v2_admin_usb_devices sv hs w of (r, w) \<Rightarrow> (map_sum id Of_usb r, sv, w))"
| "v2_route g sv hs (V2_admin_save_printer pid p) w =
     (case v2_admin_save_printer (gw_platform g) sv pid hs p w of (r, sv, w) \<Rightarrow> (map_sum id Of_config r, sv, w))"
| "v2_route g sv hs (V2_admin_load_media pid d) w =
     (case v2_admin_load_media (gw_ask g) sv pid hs d w of (r, w) \<Rightarrow> (map_sum id Answered_by r, sv, w))"
| "v2_route g sv hs (V2_admin_maintenance pid action) w =
     (case v2_admin_maintenance (gw_ask g) sv pid action hs w of (r, w) \<Rightarrow> (map_sum id Answered_by r, sv, w))"
| "v2_route g sv hs _ w = (Inl not_routed, sv, w)"

text \<open>The legacy routes are behind the middleware; the routes of version 2 check themselves; the
  two routes of the root and the pages of the web interface are open.\<close>

definition router :: "gateway \<Rightarrow> service \<Rightarrow> headers \<Rightarrow> route \<Rightarrow> world \<Rightarrow> (api_error + response) \<times> service \<times> world" where
  "router g sv hs r w =
     (case legacy_route g sv hs r w of
        Some _ \<Rightarrow>
          (case legacy_authorization (sv_config sv) hs (\<lambda>w. the (legacy_route g sv hs r w)) w of (a, w) \<Rightarrow> (a, sv, w))
      | None \<Rightarrow> v2_route g sv hs r w)"

section \<open>Answers\<close>

text \<open>Version 1 wraps what it answers, also its errors, in an envelope with the time and a fresh
  identifier; version 2 answers with the value, and with an object for an error. What is not
  routed is answered by the framework.\<close>

record 'a envelope =
  en_api_version :: string
  en_generated_at :: time
  en_request_id :: uuid
  en_data :: "'a option"
  en_error :: "(string \<times> string) option"

definition envelope_of :: "'a option \<Rightarrow> (string \<times> string) option \<Rightarrow> world \<Rightarrow> 'a envelope \<times> world" where
  "envelope_of d e w =
     (let (t, w) = now w; (i, w) = new_uuid w
      in (\<lparr>en_api_version = ''v1'', en_generated_at = t, en_request_id = i, en_data = d, en_error = e\<rparr>, w))"

definition envelope_ok :: "'a \<Rightarrow> world \<Rightarrow> 'a envelope \<times> world" where
  "envelope_ok d w = envelope_of (Some d) None w"

definition error_envelope :: "api_error \<Rightarrow> world \<Rightarrow> 'a envelope \<times> world" where
  "error_envelope e w = envelope_of None (Some (ae_code e, ae_message e)) w"

definition v2_error_body :: "api_error \<Rightarrow> json" where
  "v2_error_body e = JObject [(''error'', JObject [(''code'', JString (ae_code e)), (''message'', JString (ae_message e)),
     (''details'', JObject [])])]"

datatype content = Enveloped "response envelope" | Plain response | V2_failure json | Empty_body | By_framework

record http_answer =
  ha_status :: nat
  ha_content :: content

fun accepted_status :: "route \<Rightarrow> nat" where
  "accepted_status (V1_probe _) = 202"
| "accepted_status (V1_create_job _ _) = 202"
| "accepted_status (V2_create_job _ _) = 202"
| "accepted_status _ = 200"

fun raw_response :: "response \<Rightarrow> bool" where
  "raw_response (Of_metrics _ _) = True"
| "raw_response (Of_bytes _) = True"
| "raw_response _ = False"

text \<open>The routes of the root answer like version 1.\<close>

definition in_version1 :: "gateway \<Rightarrow> service \<Rightarrow> headers \<Rightarrow> route \<Rightarrow> world \<Rightarrow> bool" where
  "in_version1 g sv hs r w = (legacy_route g sv hs r w \<noteq> None \<or> r = V1_root \<or> r = V1_health)"

definition respond :: "bool \<Rightarrow> route \<Rightarrow> api_error + response \<Rightarrow> world \<Rightarrow> http_answer \<times> world" where
  "respond v1 r a w =
     (case a of
        Inr x \<Rightarrow>
          (if v1 \<and> \<not> raw_response x
           then (case envelope_ok x w of (e, w) \<Rightarrow> (\<lparr>ha_status = accepted_status r, ha_content = Enveloped e\<rparr>, w))
           else (\<lparr>ha_status = accepted_status r, ha_content = Plain x\<rparr>, w))
      | Inl e \<Rightarrow>
          (if v1
           then (case error_envelope e w of (b, w) \<Rightarrow> (\<lparr>ha_status = ae_status e, ha_content = Enveloped b\<rparr>, w))
           else if e = not_routed then (\<lparr>ha_status = ae_status e, ha_content = Empty_body\<rparr>, w)
           else (\<lparr>ha_status = ae_status e, ha_content = V2_failure (v2_error_body e)\<rparr>, w)))"

definition serve_request :: "gateway \<Rightarrow> service \<Rightarrow> headers \<Rightarrow> route \<Rightarrow> world \<Rightarrow> http_answer \<times> service \<times> world" where
  "serve_request g sv hs r w =
     (case router g sv hs r w of (a, sv', w') \<Rightarrow>
        (case respond (in_version1 g sv hs r w) r a w' of (h, w'') \<Rightarrow> (h, sv', w'')))"

text \<open>A request that reaches a handler whose arguments the framework cannot make of it (a body
  that is no JSON of the expected form or too long, a path or query that does not parse) is
  answered by the framework, with the status \<open>st\<close>, before the handler runs. The middleware of
  the legacy routes stands in front of that; the handlers of version 2, which check the token
  themselves, stand behind it.\<close>

datatype api_version = Legacy | Version2

datatype incoming = Decoded route | Undecodable api_version nat

definition serve_incoming :: "gateway \<Rightarrow> service \<Rightarrow> headers \<Rightarrow> incoming \<Rightarrow> world \<Rightarrow> http_answer \<times> service \<times> world" where
  "serve_incoming g sv hs i w =
     (let rejected = (\<lambda>st. \<lparr>ha_status = st, ha_content = By_framework\<rparr>) in
      case i of
        Decoded r \<Rightarrow> serve_request g sv hs r w
      | Undecodable Version2 st \<Rightarrow> (rejected st, sv, w)
      | Undecodable Legacy st \<Rightarrow>
          (case legacy_authorization (sv_config sv) hs (\<lambda>w. (Inr (rejected st), w)) w of
             (Inr h, w) \<Rightarrow> (h, sv, w)
           | (Inl e, w) \<Rightarrow>
               (case error_envelope e w of (b, w) \<Rightarrow> (\<lparr>ha_status = ae_status e, ha_content = Enveloped b\<rparr>, sv, w))))"

lemma respond_status:
  "ha_status (fst (respond b r a w)) = (case a of Inl e \<Rightarrow> ae_status e | Inr _ \<Rightarrow> accepted_status r)"
  "only_files {} w (snd (respond b r a w))"
  by (auto simp: respond_def envelope_ok_def error_envelope_def envelope_of_def now_def new_uuid_def Let_def
      only_files_def split: sum.split)

section \<open>Guards\<close>

text \<open>The scope a route needs.\<close>

fun needs :: "route \<Rightarrow> scope option" where
  "needs V1_root = None"
| "needs V1_health = None"
| "needs (Ui _) = None"
| "needs V2_service = Some ReadScope"
| "needs V2_printers = Some ReadScope"
| "needs (V2_printer _) = Some ReadScope"
| "needs (V2_job _) = Some ReadScope"
| "needs (V2_jobs _) = Some ReadScope"
| "needs (V2_job_by_key _) = Some ReadScope"
| "needs (V2_create_job _ _) = Some PrintScope"
| "needs (V2_cancel_job _) = Some PrintScope"
| "needs _ = Some AdminScope"

lemma v2_unauthorized:
  "\<not> authorized c hs s \<Longrightarrow>
     v2_authorize c hs s = Inl (api_error_new 401 ''unauthorized'' ''A valid ZebraTamer bearer token is required'')"
  by (simp add: v2_authorize_def)

lemma router_unauthorized:
  assumes "needs r = Some s" and "\<not> authorized (sv_config sv) hs s"
  shows "\<exists>e. router g sv hs r w = (Inl e, sv, w) \<and> ae_status e = 401"
  using assms
  by (cases r)
     (auto simp: router_def legacy_authorization_def v2_unauthorized v2_service_def v2_printers_def v2_printer_of_def
        v2_pause_queue_def v2_resume_queue_def v2_set_queue_paused_def v2_create_job_def admit_v2_def v2_job_of_def v2_jobs_def v2_cancel_job_def
        v2_job_by_idempotency_def v2_admin_printers_def v2_admin_usb_devices_def v2_admin_save_printer_def save_printer_document_def
        v2_admin_load_media_def v2_admin_maintenance_def)

lemma undecodable_harmless:
  "\<exists>h w'. serve_incoming g sv hs (Undecodable v st) w = (h, sv, w') \<and> only_files {} w w' \<and>
     ha_status h = (if v = Legacy \<and> \<not> authorized (sv_config sv) hs AdminScope then 401 else st)"
  by (cases v)
     (auto simp: serve_incoming_def legacy_authorization_def error_envelope_def envelope_of_def now_def new_uuid_def
       Let_def only_files_def)

text \<open>C24: every route but those of the root and of the web interface is guarded. A decoded
  request without a token of the scope it needs is answered with status 401, whatever it asks
  for, and nothing happens: no handler runs, so that no file is read or written, no thread
  is asked, no printer is replaced. A request that the framework cannot decode has no effect
  either, whoever sends it; its status is 401 if it is a legacy one without the admin token
  and the framework's own otherwise, since the check of version 2 comes after the decoding.\<close>

theorem unauthorized_harmless:
  assumes "needs r = Some s" and "\<not> authorized (sv_config sv) hs s"
  shows "(\<exists>e. router g sv hs r w = (Inl e, sv, w)) \<and>
     (\<exists>h w'. serve_incoming g sv hs (Decoded r) w = (h, sv, w') \<and> ha_status h = 401 \<and> only_files {} w w') \<and>
     (\<exists>h w'. serve_incoming g sv hs (Undecodable v st) w = (h, sv, w') \<and> only_files {} w w' \<and>
        ha_status h = (if v = Legacy \<and> \<not> authorized (sv_config sv) hs AdminScope then 401 else st))"
proof -
  obtain e where e: "router g sv hs r w = (Inl e, sv, w)" "ae_status e = 401"
    using router_unauthorized [OF assms] by blast
  then have "\<exists>h w'. serve_incoming g sv hs (Decoded r) w = (h, sv, w') \<and> ha_status h = 401 \<and> only_files {} w w'"
    using respond_status [where b = "in_version1 g sv hs r w" and r = r and a = "Inl e" and w = w]
    by (auto simp: serve_incoming_def serve_request_def split_beta)
  with e(1) show ?thesis using undecodable_harmless by blast
qed

definition sample_gateway :: gateway where
  "sample_gateway = \<lparr>gw_platform = sample_platform, gw_process = sample_process, gw_table = [''p''],
     gw_ask = \<lambda>_ _ w. (Inl ''worker_stopped'', w), gw_enqueue = \<lambda>_ _ w. (Inl ''worker_stopped'', w)\<rparr>"

theorem unauthorized_harmless_witness:
  "(\<exists>h w'. serve_incoming sample_gateway sample_service [] (Decoded (V2_create_job ''p'' sample_request)) (world_with []) =
      (h, sample_service, w') \<and> ha_status h = 401) \<and>
   (\<exists>h w'. serve_incoming sample_gateway sample_service [] (Undecodable Version2 422) (world_with []) =
      (h, sample_service, w') \<and> ha_status h = 422)"
proof -
  have n: "needs (V2_create_job ''p'' sample_request) = Some PrintScope"
    "\<not> authorized (sv_config sample_service) [] PrintScope" by simp_all
  from unauthorized_harmless [OF n, of sample_gateway "world_with []" Version2 422] show ?thesis by auto
qed

end
