(* ===== verification/Requests.thy ===== *)
theory Requests
  imports Router
begin

text \<open>
  What reading requests do: they change nothing, the pages of the event log cover it exactly
  once, and those of the job list may show a job twice.
\<close>

section \<open>Reading requests\<close>

fun is_reading :: "route \<Rightarrow> bool" where
  "is_reading V1_metrics = True"
| "is_reading V1_agent = True"
| "is_reading V1_printers = True"
| "is_reading V1_drivers = True"
| "is_reading (V1_printer _) = True"
| "is_reading (V1_snapshot _) = True"
| "is_reading (V1_capabilities _) = True"
| "is_reading (V1_jobs _) = True"
| "is_reading (V1_job _) = True"
| "is_reading (V1_job_events _ _) = True"
| "is_reading (V1_payload _) = True"
| "is_reading (V1_events _) = True"
| "is_reading (V1_media _) = True"
| "is_reading (V1_configuration _) = True"
| "is_reading V2_printers = True"
| "is_reading (V2_printer _) = True"
| "is_reading (V2_job _) = True"
| "is_reading (V2_jobs _) = True"
| "is_reading (V2_job_by_key _) = True"
| "is_reading V2_admin_printers = True"
| "is_reading V2_admin_usb = True"
| "is_reading V2_service = True"
| "is_reading (Ui _) = True"
| "is_reading r = (r = V1_root \<or> r = V1_health)"

lemma reading_list_loop: "only_files {} w (snd (list_loop n out ls w))"
proof (induction n out ls w rule: list_loop.induct)
  case (1 limit out w)
  show ?case by (simp add: only_files.refl)
next
  case (2 limit out l ls w)
  obtain d where d: "(case l of Entry d \<Rightarrow> as_uuid d | Torn \<Rightarrow> None) = d" by simp
  show ?case
  proof (cases "length out \<ge> limit \<or> d = None")
    case True
    with d show ?thesis by (auto simp: only_files.refl)
  next
    case False
    then obtain jid where jid: "d = Some jid" by blast
    obtain r v where ld: "load_job jid w = (r, v)" by fastforce
    have v: "only_files {} w v" using only_files_loads(1) [of "{}" w jid] ld by simp
    show ?thesis
    proof (cases r)
      case (Inl e)
      with 2(1) [of jid r v] False d jid ld have "only_files {} v (snd (list_loop limit out ls v))" by simp
      with False d jid ld Inl only_files.trans [OF v] show ?thesis by simp
    next
      case (Inr j)
      with 2(2) [of jid r v j] False d jid ld have "only_files {} v (snd (list_loop limit (out @ [j]) ls v))" by simp
      with False d jid ld Inr only_files.trans [OF v] show ?thesis by simp
    qed
  qed
qed

lemma reading_calls [simp]:
  "only_files {} w (snd (list_jobs_page c n w))" "only_files {} w (snd (read_events c n i w))"
  "only_files {} w (snd (load_job jid w))" "only_files {} w (snd (load_media pid w))"
  "only_files {} w (snd (open_file p w))" "only_files {} w (snd (discover_usb_printers w))"
  "only_files {} w (snd (ok_value (read_json sel p w)))"
  "only_files {} w (snd (find_job_by_idempotency_key_any key w))"
proof -
  show "only_files {} w (snd (list_jobs_page c n w))"
    unfolding list_jobs_page_def
    by (rule only_files.bindE_respects)
       (auto simp: only_files.refl intro: only_files.trans [OF only_files_advance reading_list_loop] split: option.split)
  show "only_files {} w (snd (read_events c n i w))"
    unfolding read_events_def read_ndjson_page_def
    by (rule only_files.bindE_respects) (auto simp: only_files.refl split: option.split)
  show "only_files {} w (snd (load_job jid w))" "only_files {} w (snd (load_media pid w))"
    using only_files_loads(1) [of "{}" w jid] reads_load_media [of w pid] by (simp_all add: reads_def)
  show "only_files {} w (snd (open_file p w))" by (rule only_files_payload(3))
  show "only_files {} w (snd (discover_usb_printers w))"
    by (auto simp: discover_usb_printers_def bindE_def mapE_def split: prod.splits sum.splits)
  show "only_files {} w (snd (ok_value (read_json sel p w)))"
    by (auto simp: ok_value_def dest: read_json_world split: prod.splits sum.splits)
  show "only_files {} w (snd (find_job_by_idempotency_key_any key w))"
    by (simp add: find_job_by_idempotency_key_any_def)
qed

lemma reading_views:
  "only_files {} w (snd (state_with_revision pf pid w))" "only_files {} w (snd (jobs_page p w))"
  "only_files {} w (snd (event_page p i w))" "only_files {} w (snd (job_of jid w))"
  "only_files {} w (snd (payload_of c jid w))" "only_files {} w (snd (media_shown sv pid w))"
proof -
  show "only_files {} w (snd (state_with_revision pf pid w))"
    unfolding state_with_revision_def by (rule only_files.bindE_respects) (simp_all add: only_files.refl)
  show "only_files {} w (snd (jobs_page p w))"
    unfolding jobs_page_def by (rule only_files.bindE_respects) (simp_all add: only_files.refl)
  show "only_files {} w (snd (event_page p i w))" "only_files {} w (snd (job_of jid w))"
    by (simp_all add: event_page_def job_of_def)
  have "only_files {} w (snd (bindE (mapE (\<lambda>_. api_not_found ''job_not_found'') (load_job jid w)) (\<lambda>j w.
      case job_payload_path j of None \<Rightarrow> (Inl (api_not_found ''payload_not_retained''), w)
      | Some p \<Rightarrow> mapE (\<lambda>_. api_not_found ''payload_not_found'') (open_file p w))))"
    by (rule only_files.bindE_respects) (auto simp: only_files.refl split: option.split)
  then show "only_files {} w (snd (payload_of c jid w))" by (simp add: payload_of_def only_files.refl)
  have shown: "only_files {} v (snd (bindE (mapE api_internal (load_media pid v)) (\<lambda>m w.
       case m of Some v \<Rightarrow> (case observe_value v None ''ledger'' w of (ob, w) \<Rightarrow> (Inr ob, w))
       | None \<Rightarrow> (Inr (observed_unknown\<lparr>obs_state := NotConfigured, obs_reason := Some ''no_media_loaded''\<rparr>), w))))" for v
    by (rule only_files.bindE_respects)
       (auto simp: only_files.refl observe_value_def now_def split: option.split)
  show "only_files {} w (snd (media_shown sv pid w))"
    unfolding media_shown_def by (rule only_files.bindE_respects [OF _ shown]) (simp add: only_files.refl)
qed

lemma reading_v2_value: "only_files {} w (snd (v2_printer_value pf sv pid w))"
  unfolding v2_printer_value_def
  by (rule only_files.bindE_respects)
     (auto simp: only_files.refl Let_def reading_views intro!: only_files.bindE_respects split: prod.split)

lemma reading_v2_values: "only_files {} w (snd (v2_printer_values pf sv ps w))"
proof (induction ps arbitrary: w)
  case Nil
  show ?case by (simp add: only_files.refl)
next
  case (Cons p ps)
  then show ?case
    by (auto intro!: only_files.bindE_respects simp: reading_v2_value only_files.refl)
qed

lemma reading_configuration: "only_files {} w (snd (configuration_of pf sv pid w))"
proof -
  have tail: "only_files {} v (snd (bindE (mapE api_internal (state_with_revision pf pid v)) (\<lambda>media w. (Inr (f media), w))))"
    for v and f :: "_ \<Rightarrow> configuration_view"
    by (rule only_files.bindE_respects) (simp_all add: reading_views only_files.refl)
  have view: "only_files {} v (snd (case ok_value (read_json as_observation (ConfigurationFile pid) v) of (observed, w) \<Rightarrow>
       case ok_value (read_json Some (AttemptFile pid) w) of (last_save, w) \<Rightarrow>
         bindE (mapE api_internal (state_with_revision pf pid w)) (\<lambda>media w.
           (Inr (f observed last_save media), w))))" for v and f :: "_ \<Rightarrow> _ \<Rightarrow> _ \<Rightarrow> configuration_view"
  proof -
    obtain a v1 where a: "ok_value (read_json as_observation (ConfigurationFile pid) v) = (a, v1)" by fastforce
    obtain b v2 where b: "ok_value (read_json Some (AttemptFile pid) v1) = (b, v2)" by fastforce
    have "only_files {} v v1" using reading_calls(7) [of v as_observation "ConfigurationFile pid"] a by simp
    moreover have "only_files {} v1 v2" using reading_calls(7) [of v1 Some "AttemptFile pid"] b by simp
    ultimately show ?thesis using a b tail [of v2] by (auto intro: only_files.trans)
  qed
  show ?thesis
    unfolding configuration_of_def by (rule only_files.bindE_respects [OF _ view]) (simp add: only_files.refl)
qed

lemma snd_apfst_world [simp]: "snd (apfst f m) = snd m"
  by (cases m) simp

lemma only_files_run: "only_files P w (snd m) \<Longrightarrow> m = (a, w') \<Longrightarrow> only_files P w w'"
  by simp

lemma legacy_reading: "is_reading r \<Longrightarrow> legacy_route g sv hs r w = Some m \<Longrightarrow> only_files {} w (snd m)"
  by (cases r) (auto simp: only_files.refl reading_views reading_configuration pages_read events_def job_events_def)

text \<open>C29: a reading request changes nothing: whatever it is answered, every file of the data
  directory, every byte that reached a printer and the table of threads are as before.\<close>

theorem reading_changes_nothing:
  assumes "is_reading r" and "router g sv hs r w = (a, sv', w')"
  shows "sv' = sv \<and> only_files {} w w'"
proof (cases "legacy_route g sv hs r w")
  case (Some m)
  with assms legacy_reading [OF assms(1) Some] show ?thesis
    by (auto simp: router_def legacy_authorization_def only_files.refl split: prod.splits if_splits)
next
  case None
  have v2: "only_files {} w (snd (bindE (v2_authorize c hs s, w) k))" if "\<And>v. only_files {} v (snd (k () v))"
    for c s and k :: "unit \<Rightarrow> world \<Rightarrow> (api_error + 'b) \<times> world"
    by (rule only_files.bindE_respects) (simp_all add: only_files.refl that)
  have v2': "only_files {} w (snd (v2_printers pf sv hs w))" "only_files {} w (snd (v2_printer_of pf sv pid hs w))"
    "only_files {} w (snd (v2_job_of sv jid hs w))" "only_files {} w (snd (v2_jobs sv p hs w))"
    "only_files {} w (snd (v2_job_by_idempotency sv key hs w))" "only_files {} w (snd (v2_admin_usb_devices sv hs w))"
    for pf pid jid p key sv
    unfolding v2_printers_def v2_printer_of_def v2_job_of_def v2_jobs_def v2_job_by_idempotency_def v2_admin_usb_devices_def
    by (auto intro!: v2 only_files.bindE_respects simp: reading_v2_values reading_v2_value only_files.refl split: option.split)
  from None assms show ?thesis
    by (cases r) (auto simp: router_def only_files.refl dest: v2' [THEN only_files_run] split: prod.splits)
qed

theorem reading_changes_nothing_witness:
  "\<exists>a. router sample_gateway sample_service print_headers (V2_jobs \<lparr>pg_cursor = 0, pg_limit = None\<rparr>) (world_with []) =
     (Inr a, sample_service, advance (world_with [])) \<and> only_files {} (world_with []) (advance (world_with []))"
proof -
  have "authorized (sv_config sample_service) print_headers ReadScope"
    using print_authorized unfolding authorized_def candidates_def by (auto split: option.splits)
  then have run: "router sample_gateway sample_service print_headers (V2_jobs \<lparr>pg_cursor = 0, pg_limit = None\<rparr>) (world_with []) =
      (Inr (Of_v2_jobs [] 0), sample_service, advance (world_with []))"
    by (simp add: router_def v2_jobs_def v2_authorize_def list_jobs_page_def sys_quiet)
  have "is_reading (V2_jobs \<lparr>pg_cursor = 0, pg_limit = None\<rparr>)" by simp
  from reading_changes_nothing [OF this run] run show ?thesis by blast
qed

section \<open>The pages of the event log\<close>

text \<open>A client that follows the cursor until a page is empty.\<close>

fun follow_pages :: "nat \<Rightarrow> nat option \<Rightarrow> uuid option \<Rightarrow> nat \<Rightarrow> world \<Rightarrow> api_error + event list" where
  "follow_pages 0 n i c w = Inr []"
| "follow_pages (Suc k) n i c w =
     (case event_page \<lparr>pg_cursor = c, pg_limit = n\<rparr> i w of
        (Inl e, w) \<Rightarrow> Inl e
      | (Inr (es, c'), w) \<Rightarrow>
          if es = [] then Inr [] else map_sum id ((@) es) (follow_pages k n i c' w))"

lemma page_limit_bounds: "1 \<le> page_limit p \<and> page_limit p \<le> 200"
  by (auto simp: page_limit_def)

lemma decode_lines_drop: "decode_lines sel ls = Some xs \<Longrightarrow> decode_lines sel (drop c ls) = Some (drop c xs)"
proof (induction ls arbitrary: xs c)
  case Nil
  then show ?case by simp
next
  case (Cons l ls)
  then show ?case by (cases c) (auto split: option.splits)
qed

lemma event_page_quiet:
  assumes "quiet w" and "lookup EventLog w = Some (Log ls t)" and "decode_lines as_event (lines_of (Some (Log ls t))) = Some es"
    and "c \<le> length es"
  shows "\<exists>ys c'. event_page \<lparr>pg_cursor = c, pg_limit = n\<rparr> i w = (Inr (ys, c'), advance w) \<and>
     length ys \<le> page_limit \<lparr>pg_cursor = c, pg_limit = n\<rparr> \<and> c \<le> c' \<and> c' \<le> length es \<and>
     filter (event_filter i) (drop c es) = ys @ filter (event_filter i) (drop c' es) \<and>
     (ys = [] \<longrightarrow> filter (event_filter i) (drop c es) = [])"
proof -
  let ?n = "page_limit \<lparr>pg_cursor = c, pg_limit = n\<rparr>"
  let ?ls = "lines_of (Some (Log ls t))"
  have n: "0 < ?n" using page_limit_bounds [of "\<lparr>pg_cursor = c, pg_limit = n\<rparr>"] by simp
  have len: "length es = length ?ls" by (rule length_decode_lines [OF assms(3)])
  note dec = decode_lines_drop [OF assms(3)]
  have "\<exists>ys c'. page_loop as_event (event_filter i) c ?n c c [] (drop c ?ls) = Inr ([] @ ys, c') \<and>
      ys = take (?n - length ([] :: event list)) (filter (event_filter i) (drop c es)) \<and> c \<le> c' \<and> c' \<le> c + length (drop c es) \<and>
      filter (event_filter i) (drop c es) = ys @ filter (event_filter i) (drop (c' - c) (drop c es))"
    by (rule page_loop_from [OF dec]) (use n in simp_all)
  then obtain ys c' where run: "page_loop as_event (event_filter i) c ?n c c [] (drop c ?ls) = Inr (ys, c')"
      and ys: "ys = take ?n (filter (event_filter i) (drop c es))" and c': "c \<le> c'" "c' \<le> c + length (drop c es)"
      and rest: "filter (event_filter i) (drop c es) = ys @ filter (event_filter i) (drop (c' - c) (drop c es))"
    unfolding append_Nil list.size(3) diff_zero by blast
  have "page_loop as_event (event_filter i) c ?n 0 c [] ?ls = Inr (ys, c')"
    using page_loop_skip [of 0 c as_event "event_filter i" ?n c "[]" ?ls] run assms(4) len by (simp add: min_absorb1)
  then have "event_page \<lparr>pg_cursor = c, pg_limit = n\<rparr> i w = (Inr (ys, c'), advance w)"
    using assms(1,2) by (simp add: event_page_def read_events_def read_ndjson_page_def sys_quiet)
  moreover have "drop (c' - c) (drop c es) = drop c' es" using c'(1) by simp
  then have "filter (event_filter i) (drop c es) = ys @ filter (event_filter i) (drop c' es)" using rest by metis
  moreover have "length ys \<le> ?n" using ys by simp
  moreover have "ys = [] \<longrightarrow> filter (event_filter i) (drop c es) = []" using ys n by (metis take_eq_Nil less_irrefl)
  moreover have "c' \<le> length es" using c'(2) assms(4) by simp
  ultimately show ?thesis using c'(1) by blast
qed

lemma follow_pages_all:
  assumes "quiet w" and "lookup EventLog w = Some (Log ls t)"
    and "decode_lines as_event (lines_of (Some (Log ls t))) = Some es"
    and "c \<le> length es" and "length (filter (event_filter i) (drop c es)) < k"
  shows "follow_pages k n i c w = Inr (filter (event_filter i) (drop c es))"
  using assms(1,2,4,5)
proof (induction k arbitrary: c w)
  case 0
  then show ?case by simp
next
  case (Suc k)
  obtain ys c' where pg: "event_page \<lparr>pg_cursor = c, pg_limit = n\<rparr> i w = (Inr (ys, c'), advance w)"
      and c': "c' \<le> length es" and rest: "filter (event_filter i) (drop c es) = ys @ filter (event_filter i) (drop c' es)"
      and none: "ys = [] \<longrightarrow> filter (event_filter i) (drop c es) = []"
    using event_page_quiet [OF Suc.prems(1,2) assms(3) Suc.prems(3), of n i] by auto
  show ?case
  proof (cases "ys = []")
    case True
    with pg none show ?thesis by simp
  next
    case False
    then have "length (filter (event_filter i) (drop c' es)) < k"
      using Suc.prems(4) rest by (cases ys) simp_all
    then have "follow_pages k n i c' (advance w) = Inr (filter (event_filter i) (drop c' es))"
      using Suc.IH [of "advance w" c'] Suc.prems(1,2) c' by simp
    with pg False rest show ?thesis by simp
  qed
qed

text \<open>C28: a client that follows the cursor of the event pages, with any limit and any filter,
  sees every event of the log that passes the filter exactly once and in order, and each page
  holds at most 200.\<close>

theorem event_pages_complete:
  assumes "quiet w" and "lookup EventLog w = Some (Log ls t)"
    and "decode_lines as_event (lines_of (Some (Log ls t))) = Some es" and "length es < k"
  shows "follow_pages k n i 0 w = Inr (filter (event_filter i) es) \<and>
     (\<forall>c \<le> length es. \<exists>ys c'. event_page \<lparr>pg_cursor = c, pg_limit = n\<rparr> i w = (Inr (ys, c'), advance w) \<and> length ys \<le> 200)"
proof
  have "length (filter (event_filter i) es) < k" using assms(4) length_filter_le [of "event_filter i" es] by linarith
  then show "follow_pages k n i 0 w = Inr (filter (event_filter i) es)"
    using follow_pages_all [OF assms(1-3), of 0 i k n] by simp
  show "\<forall>c \<le> length es. \<exists>ys c'. event_page \<lparr>pg_cursor = c, pg_limit = n\<rparr> i w = (Inr (ys, c'), advance w) \<and> length ys \<le> 200"
    using event_page_quiet [OF assms(1-3)] page_limit_bounds by (meson order_trans)
qed

definition sample_event :: "nat \<Rightarrow> event" where
  "sample_event n = \<lparr>ev_sequence = of_nat n, ev_at = 0, ev_kind = ''job_queued'', ev_printer_id = Some ''p'',
     ev_job_id = Some (of_nat n), ev_data = JNull\<rparr>"

theorem event_pages_complete_witness:
  "follow_pages 4 (Some 1) None 0 (world_with [(EventLog, Log [Entry (DEvent (sample_event 1)), Entry (DEvent (sample_event 2))] None)]) =
     Inr [sample_event 1, sample_event 2]"
proof -
  let ?ls = "[Entry (DEvent (sample_event 1)), Entry (DEvent (sample_event 2))]"
  let ?w = "world_with [(EventLog, Log ?ls None)]"
  have d: "decode_lines as_event (lines_of (Some (Log ?ls None))) = Some [sample_event 1, sample_event 2]"
    by (simp add: lines_of_def log_parts_def as_event_def)
  have l: "lookup EventLog ?w = Some (Log ?ls None)" by simp
  have "follow_pages 4 (Some 1) None 0 ?w = Inr (filter (event_filter None) [sample_event 1, sample_event 2])"
    using event_pages_complete [OF _ l d, of 4 "Some 1" None] by simp
  then show ?thesis by (simp add: event_filter_def)
qed


section \<open>The pages of the job list\<close>

text \<open>The cursor of a page counts the jobs that could be loaded, but it is used to skip lines of the
  index: with one job that cannot be loaded, the next page shows the same job again.\<close>

definition gap_world :: world where
  "gap_world = world_with [(JobIndex, Log [Entry (DUuid 8), Entry (DUuid 7)] None), (JobFile 7, Doc (DJob (sample_job Queued)))]"

lemma gap_page:
  assumes "quiet w" and "lookup JobIndex w = lookup JobIndex gap_world" and "jobs_of w = jobs_of gap_world" and "c \<le> 1"
  shows "\<exists>w'. jobs_page \<lparr>pg_cursor = c, pg_limit = Some 1\<rparr> w = (Inr ([sample_job Queued], c + 1), w') \<and> only_files {} w w'"
proof -
  have "lookup JobIndex gap_world = Some (Log [Entry (DUuid 8), Entry (DUuid 7)] None)" by (simp add: gap_world_def)
  then have idx: "lookup JobIndex (advance w) = Some (Log [Entry (DUuid 8), Entry (DUuid 7)] None)" using assms(2) by simp
  have jobs: "jobs_of v = (\<lambda>i. if i = 7 then Some (sample_job Queued) else None)" if "jobs_of v = jobs_of w" for v
    using that assms(3) by (simp add: gap_world_def jobs_of_def fun_eq_iff)
  have seven: "\<exists>w'. list_loop 1 [] [Entry (DUuid 7)] v = (Inr [sample_job Queued], w')" if "quiet v" "jobs_of v = jobs_of w" for v
  proof -
    have seven: "jobs_of v 7 = Some (sample_job Queued)" using jobs [OF that(2)] by simp
    then show ?thesis
      using load_job_quiet [OF that(1) seven] by (cases "load_job 7 v") (auto simp: as_uuid_def)
  qed
  obtain r v where eight: "load_job 8 (advance w) = (r, v)" by fastforce
  have "\<exists>e. r = Inl e" using load_job_Inr [of 8 "advance w" _ v] eight jobs [of "advance w"] by (cases r) auto
  moreover have "quiet v" "jobs_of v = jobs_of w"
    using only_files_loads(1) [of "{}" "advance w" 8] eight assms(1) load_job_world [OF eight] by (auto intro: quiet_only_files)
  ultimately have both: "\<exists>w'. list_loop 1 [] [Entry (DUuid 8), Entry (DUuid 7)] (advance w) = (Inr [sample_job Queued], w')"
    using seven [of v] eight by (auto simp: as_uuid_def)
  have "lines_of (lookup JobIndex (advance w)) = [Entry (DUuid 8), Entry (DUuid 7)]"
    unfolding idx by (simp add: lines_of_def log_parts_def)
  moreover have "\<exists>w'. list_loop 1 [] (drop c [Entry (DUuid 8), Entry (DUuid 7)]) (advance w) = (Inr [sample_job Queued], w')"
    using both seven [of "advance w"] assms(1,4) by (cases c) auto
  ultimately obtain w' where l: "list_jobs_page c 1 w = (Inr [sample_job Queued], w')"
    using idx by (auto simp: list_jobs_page_def sys_quiet [OF assms(1)])
  then have "only_files {} w w'" using reading_calls(1) [of w c 1] by simp
  with l show ?thesis by (auto simp: jobs_page_def page_limit_def)
qed

lemma jobs_page_repeats:
  "\<exists>w w'. jobs_page \<lparr>pg_cursor = 0, pg_limit = Some 1\<rparr> gap_world = (Inr ([sample_job Queued], 1), w) \<and>
     jobs_page \<lparr>pg_cursor = 1, pg_limit = Some 1\<rparr> w = (Inr ([sample_job Queued], 2), w')"
proof -
  have "quiet gap_world" by (simp add: gap_world_def)
  then obtain w where w: "jobs_page \<lparr>pg_cursor = 0, pg_limit = Some 1\<rparr> gap_world = (Inr ([sample_job Queued], 1), w)"
      "only_files {} gap_world w"
    using gap_page [of gap_world 0] by auto
  have "quiet w" by (rule quiet_only_files [OF \<open>quiet gap_world\<close> w(2)])
  then show ?thesis
    using gap_page [of w 1] only_files_lookup [OF w(2), of JobIndex] only_files_none_jobs [OF w(2)] w(1) by auto
qed

end
