(* ===== verification/Printers.thy ===== *)
theory Printers
  imports Api
begin

text \<open>
  The replacement of a printer by the admin API: what \<open>v2_admin_save_printer\<close> keeps of the printers
  in memory and of the document the next start reads.
\<close>

text \<open>The printers the service shows, and those it will find when it starts again, are a valid
  configuration.\<close>

definition valid_printers :: "config \<Rightarrow> printer_config list \<Rightarrow> bool" where
  "valid_printers c ps = (config_validate (c\<lparr>cf_printers := ps\<rparr>) = Inr ())"

definition printers_ok :: "service \<Rightarrow> world \<Rightarrow> bool" where
  "printers_ok sv w =
     (valid_printers (sv_config sv) (sv_printers sv) \<and>
      (\<exists>ps. lookup PrinterConfigsFile w = Some (Doc (DConfigs ps)) \<and> valid_printers (sv_config sv) ps))"

lemma respawn_fields:
  assumes "respawn pf sv ps p w = (sv', w')"
  shows "sv_config sv' = sv_config sv" "sv_printers sv' = ps" "only_files {} w w'"
    "\<And>i. i \<noteq> pc_id p \<Longrightarrow> sv_workers sv' i = sv_workers sv i"
    "sv_workers sv' (pc_id p) \<noteq> None \<longleftrightarrow> pc_enabled p"
proof -
  obtain wk v where st: "start_worker (context_for pf (sv_config sv) p) w = (wk, v)" by fastforce
  have f: "only_files {} w v" using start_worker_queue [OF st] by blast
  show "sv_config sv' = sv_config sv" "sv_printers sv' = ps" "only_files {} w w'"
    "\<And>i. i \<noteq> pc_id p \<Longrightarrow> sv_workers sv' i = sv_workers sv i"
    "sv_workers sv' (pc_id p) \<noteq> None \<longleftrightarrow> pc_enabled p"
    using assms st f by (auto simp: respawn_def only_files.refl split: if_splits)
qed

lemma open_jobs_check_files: "only_files {} w (snd (open_jobs_check b pid w))"
proof -
  have "reads w (snd (has_open_jobs pid w))"
    unfolding has_open_jobs_def for_jobs_def read_jobs_dir_def
    by (auto intro!: reads.bindE_respects reads_scan simp del: snd_sys)
  then have "only_files {} w (snd (has_open_jobs pid w))" by (simp add: reads_def)
  then have "only_files {} w (snd (bindE (mapE v2_internal (has_open_jobs pid w)) (\<lambda>busy w.
      if busy then (Inl (api_error_new 409 ''printer_has_open_jobs''
         ''Pause or finish all open jobs before changing this printer''), w) else (Inr (), w))))"
    by (intro only_files.bindE_respects) (simp_all add: only_files.refl)
  then show ?thesis by (simp add: open_jobs_check_def only_files.refl)
qed

lemma map_sum_id_Inr: "map_sum f id r = Inr y \<longleftrightarrow> r = Inr y"
  by (cases r) simp_all

lemma save_document_Inr:
  assumes "save_printer_document sv pid hs body w = (Inr (p, c), w')"
  shows "pc_id p = pid \<and> c = replace_printer pid p (sv_printers sv) \<and> valid_printers (sv_config sv) c \<and>
     lookup PrinterConfigsFile w' = Some (Doc (DConfigs c)) \<and>
     (\<exists>u. open_jobs_check (known_printer pid (sv_printers sv)) pid w = (Inr (), u))"
proof -
  obtain v where np: "named_printer pid body = Inr p"
      and oj: "open_jobs_check (known_printer pid (sv_printers sv)) pid w = (Inr (), v)"
      and c: "c = replace_printer pid p (sv_printers sv)"
      and cv: "config_validate ((sv_config sv)\<lparr>cf_printers := c\<rparr>) = Inr ()"
      and sc: "save_printer_configs c v = (Inr (), w')"
    using assms by (auto simp: save_printer_document_def bindE_Inr_iff Let_def map_sum_id_Inr)
  have "pc_id p = pid" using np by (auto simp: named_printer_def Let_def split: if_splits)
  moreover have "lookup PrinterConfigsFile w' = Some (Doc (DConfigs c))"
    using configs.save_ok [of c v "()" w'] sc by simp
  ultimately show ?thesis using c cv oj by (auto simp: valid_printers_def)
qed

lemma save_document_Inl:
  assumes "save_printer_document sv pid hs body w = (Inl e, w')"
  shows "lookup PrinterConfigsFile w' = lookup PrinterConfigsFile w \<or>
     (\<exists>c. lookup PrinterConfigsFile w' = Some (Doc (DConfigs c)) \<and> valid_printers (sv_config sv) c)"
proof -
  obtain q v where oj: "open_jobs_check (known_printer pid (sv_printers sv)) pid w = (q, v)" by fastforce
  have v: "lookup PrinterConfigsFile v = lookup PrinterConfigsFile w"
    using only_files_lookup [of "{}" w v PrinterConfigsFile] open_jobs_check_files [of w _ pid] oj by (metis empty_iff snd_conv)
  have save: "lookup PrinterConfigsFile u = lookup PrinterConfigsFile v \<or> lookup PrinterConfigsFile u = Some (Doc (DConfigs c))"
    if "save_printer_configs c v = (x, u)" for c x u
    using atomic_json_old_or_new [of PrinterConfigsFile "DConfigs c" v] that by (auto simp: save_printer_configs_def old_or_new_def)
  show ?thesis
  proof (cases "v2_authorize (sv_config sv) hs AdminScope")
    case (Inl x)
    with assms show ?thesis by (simp add: save_printer_document_def)
  next
    case (Inr x)
    show ?thesis
    proof (cases "named_printer pid body")
      case (Inl y)
      with assms Inr show ?thesis by (simp add: save_printer_document_def)
    next
      case named: (Inr p)
      let ?c = "replace_printer pid p (sv_printers sv)"
      show ?thesis
      proof (cases "q = Inr () \<and> config_validate ((sv_config sv)\<lparr>cf_printers := ?c\<rparr>) = Inr ()")
        case True
        obtain x u where sc: "save_printer_configs ?c v = (x, u)" by fastforce
        have "w' = u" using assms Inr named oj True sc by (cases x) (simp_all add: save_printer_document_def)
        with save [OF sc] v True show ?thesis by (auto simp: valid_printers_def)
      next
        case False
        then have "w' = v"
          using assms Inr named oj
          by (cases q; cases "config_validate ((sv_config sv)\<lparr>cf_printers := ?c\<rparr>)") (simp_all add: save_printer_document_def Let_def)
        with v show ?thesis by simp
      qed
    qed
  qed
qed

lemma replaced_printers:
  "p \<in> set (replace_printer pid p ps)"
  "pc_id p = pid \<Longrightarrow> distinct (map pc_id ps) \<Longrightarrow>
     filter (\<lambda>q. pc_id q \<noteq> pid) (replace_printer pid p ps) = filter (\<lambda>q. pc_id q \<noteq> pid) ps"
proof (induction ps)
  case (Cons q qs)
  {
    case 1
    show ?case using Cons.IH(1) by simp
  next
    case 2
    then show ?case using Cons.IH(2) by auto
  }
qed simp_all

lemma open_jobs_check_none:
  assumes "quiet w" and "open_jobs_check True pid w = (Inr (), u)"
  shows "open_ids pid w = {}"
proof -
  obtain v where "has_open_jobs pid w = (Inr (list_ex (is_open_job pid) (all_jobs w)), v)"
    using has_open_jobs_quiet [OF assms(1)] by blast
  with assms(2) have none: "\<not> list_ex (is_open_job pid) (all_jobs w)"
    by (auto simp: open_jobs_check_def split: if_splits)
  have "\<not> is_open_job pid j" if "jobs_of w i = Some j" for i j
    using none that set_all_jobs [of w] by (auto simp: list_ex_iff)
  then show ?thesis by (auto simp: open_ids_def)
qed

lemma saved_printer:
  assumes "v2_admin_save_printer pf sv pid hs body w = (r, sv', w')"
    and doc: "save_printer_document sv pid hs body w = (Inr (p, c), v)"
  obtains "pc_id p = pid" "c = replace_printer pid p (sv_printers sv)" "valid_printers (sv_config sv) c"
    "sv_config sv' = sv_config sv" "sv_printers sv' = c" "r = Inr p \<or> (\<exists>e. r = Inl e)"
    "lookup PrinterConfigsFile w' = Some (Doc (DConfigs c))"
    "\<And>i. i \<noteq> pid \<Longrightarrow> sv_workers sv' i = sv_workers sv i" "sv_workers sv' pid \<noteq> None \<longleftrightarrow> pc_enabled p"
    "quiet w \<Longrightarrow> known_printer pid (sv_printers sv) \<Longrightarrow> open_ids pid w = {}"
proof -
  note saved = save_document_Inr [OF doc]
  obtain sv1 v1 where rs: "respawn pf sv c p v = (sv1, v1)" by fastforce
  note fields = respawn_fields [OF rs]
  let ?d = "JObject [(''enabled'', JBool (pc_enabled p)), (''transport'', JString (pc_transport p))]"
  let ?k = "if known_printer pid (sv_printers sv) then ''printer_updated'' else ''printer_created''"
  obtain ev v2 where ne: "next_event ?k (Some pid) None ?d v1 = (ev, v2)" by fastforce
  obtain a v3 where ap: "append_event ev v2 = (a, v3)" by fastforce
  have run: "v2_admin_save_printer pf sv pid hs body w =
      (case mapE v2_internal (a, v3) of (Inl e, w) \<Rightarrow> (Inl e, sv1, w) | (Inr _, w) \<Rightarrow> (Inr p, sv1, w))"
    unfolding v2_admin_save_printer_def doc sum.case prod.case Let_def rs ne ap ..
  have fin: "sv' = sv1" "w' = v3" "r = Inr p \<or> (\<exists>e. r = Inl e)"
  proof -
    have "sv' = sv1 \<and> w' = v3 \<and> (r = Inr p \<or> (\<exists>e. r = Inl e))"
      using assms(1) unfolding run by (cases a) auto
    then show "sv' = sv1" "w' = v3" "r = Inr p \<or> (\<exists>e. r = Inl e)" by blast+
  qed
  have "only_files {} v1 v2" using only_files_next_event [of "{}" v1 ?k "Some pid" None ?d] ne by simp
  moreover have "only_files {EventLog} v2 v3"
    using append_ndjson_only_files [of EventLog v2 "DEvent ev"] ap by (simp add: append_event_def)
  ultimately have same: "lookup PrinterConfigsFile w' = lookup PrinterConfigsFile v"
    using fields(3) fin(2) by (simp add: only_files_lookup)
  have none: "open_ids pid w = {}" if "quiet w" "known_printer pid (sv_printers sv)"
  proof -
    obtain u where "open_jobs_check (known_printer pid (sv_printers sv)) pid w = (Inr (), u)" using saved by blast
    with that(2) show ?thesis using open_jobs_check_none [OF that(1)] by simp
  qed
  have other: "sv_workers sv' i = sv_workers sv i" if "i \<noteq> pid" for i
  proof -
    have "pc_id p = pid" using saved by blast
    with that show ?thesis using fields(4) [of i] unfolding fin(1) by simp
  qed
  show thesis
  proof (rule that [OF _ _ _ _ _ fin(3) _ other _ none])
    show "pc_id p = pid" "c = replace_printer pid p (sv_printers sv)" "valid_printers (sv_config sv) c"
      using saved by blast+
    show "sv_config sv' = sv_config sv" "sv_printers sv' = c" unfolding fin(1) by (rule fields(1), rule fields(2))
    show "lookup PrinterConfigsFile w' = Some (Doc (DConfigs c))" unfolding same using saved by blast
    show "sv_workers sv' pid \<noteq> None \<longleftrightarrow> pc_enabled p" using fields(5) saved unfolding fin(1) by blast
  qed
qed

text \<open>C22: a printer is replaced only by a valid document and, while the calls succeed, only when
  none of its jobs is open; whatever fails, the printers in memory and those stored for the
  next start are valid; and when the request is answered with success they are the same, the
  other printers are untouched and the printer has a thread exactly if it is enabled.\<close>

theorem save_printer_valid:
  assumes "v2_admin_save_printer pf sv pid hs body w = (r, sv', w')" and "printers_ok sv w"
  shows "printers_ok sv' w' \<and> sv_config sv' = sv_config sv \<and> (\<forall>i. i \<noteq> pid \<longrightarrow> sv_workers sv' i = sv_workers sv i) \<and>
     (\<forall>p. r = Inr p \<longrightarrow> pc_id p = pid \<and> p \<in> set (sv_printers sv') \<and>
        sv_printers sv' = replace_printer pid p (sv_printers sv) \<and>
        lookup PrinterConfigsFile w' = Some (Doc (DConfigs (sv_printers sv'))) \<and>
        (sv_workers sv' pid \<noteq> None \<longleftrightarrow> pc_enabled p) \<and>
        (quiet w \<and> known_printer pid (sv_printers sv) \<longrightarrow> open_ids pid w = {}))"
proof -
  obtain d v where doc: "save_printer_document sv pid hs body w = (d, v)" by fastforce
  show ?thesis
  proof (cases d)
    case (Inl e)
    with assms(1) doc have "r = Inl e" "sv' = sv" "w' = v" by (simp_all add: v2_admin_save_printer_def)
    moreover have "printers_ok sv v"
      using save_document_Inl [of sv pid hs body w e v] doc Inl assms(2) by (auto simp: printers_ok_def)
    ultimately show ?thesis by simp
  next
    case (Inr pc)
    obtain p c where pc: "pc = (p, c)" by (cases pc)
    show ?thesis
      using replaced_printers(1) [of p pid "sv_printers sv"]
      by (rule_tac saved_printer [OF assms(1) doc [unfolded Inr pc]]) (auto simp: printers_ok_def)
  qed
qed

definition admin_service :: service where
  "admin_service = sample_service\<lparr>sv_config := sample_config\<lparr>cf_admin_token := Some print_token\<rparr>\<rparr>"

lemma admin_authorized: "authorized (sv_config admin_service) print_headers AdminScope"
proof -
  have v: "list_all visible_ascii (''Bearer '' @ print_token)"
    by (simp add: print_token_def list_all_iff visible_ascii_def char_code_def)
  show ?thesis
    using v unfolding authorized_def bearer_iff
    by (simp add: admin_service_def sample_config_def candidates_def print_headers_def print_token_def header_string_def)
qed

theorem save_printer_valid_witness:
  "\<exists>sv' w'. v2_admin_save_printer sample_platform admin_service ''p'' print_headers sample_printer
       (world_with [(PrinterConfigsFile, Doc (DConfigs [sample_printer]))]) = (Inr sample_printer, sv', w') \<and>
     printers_ok sv' w' \<and> sv_printers sv' = [sample_printer] \<and> sv_workers sv' ''p'' \<noteq> None"
proof -
  let ?w = "world_with [(PrinterConfigsFile, Doc (DConfigs [sample_printer]))]"
  have id: "pc_id sample_printer = ''p''" "pc_enabled sample_printer"
    by (simp_all add: sample_printer_def default_printer_config_def)
  have sv: "sv_printers admin_service = [sample_printer]" by (simp add: admin_service_def sample_service_def)
  have valid: "config_validate ((sv_config admin_service)\<lparr>cf_printers := [sample_printer]\<rparr>) = Inr ()"
    using sample_config_valid(2) unfolding config_validate_iff valid_config_def
    by (simp add: admin_service_def long_token_def print_token_def)
  have known: "known_printer ''p'' [sample_printer]" by (simp add: known_printer_def id)
  have none: "all_jobs ?w = []" using set_all_jobs [of ?w] by (simp add: jobs_of_def)
  obtain u where "has_open_jobs ''p'' ?w = (Inr False, u)" and u: "only_files {} ?w u"
    using has_open_jobs_quiet [of ?w "''p''"] none by auto
  then have oj: "open_jobs_check True ''p'' ?w = (Inr (), u)" by (simp add: open_jobs_check_def)
  have "quiet u" "no_tmp u" using u quiet_only_files [of ?w "{}" u] by (auto simp: only_files_def no_tmp_def lookup_def)
  then obtain v where sc: "save_printer_configs [sample_printer] u = (Inr (), v)"
    using configs.save_quiet [of u "[sample_printer]"] by auto
  have doc: "save_printer_document admin_service ''p'' print_headers sample_printer ?w =
      (Inr (sample_printer, [sample_printer]), v)"
    by (simp add: save_printer_document_def v2_authorize_def admin_authorized named_printer_def id sv known
        oj valid sc)
  obtain r sv' w' where run: "v2_admin_save_printer sample_platform admin_service ''p'' print_headers sample_printer ?w =
      (r, sv', w')" by (cases "v2_admin_save_printer sample_platform admin_service ''p'' print_headers sample_printer ?w") auto
  obtain sv1 v1 where rs: "respawn sample_platform admin_service [sample_printer] sample_printer v = (sv1, v1)" by fastforce
  have "quiet v" using \<open>quiet u\<close> configs.save_only [of u "[sample_printer]"] sc by (auto intro: quiet_only_files)
  moreover have "only_files {} v v1" by (rule respawn_fields(3) [OF rs])
  ultimately have v1: "quiet v1" by (rule quiet_only_files)
  have "r = Inr sample_printer"
  proof -
    let ?d = "JObject [(''enabled'', JBool (pc_enabled sample_printer)), (''transport'', JString (pc_transport sample_printer))]"
    obtain ev v2 where ne: "next_event ''printer_updated'' (Some ''p'') None ?d v1 = (ev, v2)" by fastforce
    have "only_files {} v1 v2"
      using only_files_next_event [of "{}" v1 "''printer_updated''" "Some ''p''" None ?d] ne by simp
    with v1 have "quiet v2" by (rule quiet_only_files)
    then obtain v3 where ap: "append_event ev v2 = (Inr (), v3)"
      using append_ndjson_quiet [of v2 EventLog "DEvent ev"] by (auto simp: append_event_def)
    show ?thesis using run by (simp add: v2_admin_save_printer_def doc rs sv known ne ap)
  qed
  have ok: "printers_ok admin_service ?w"
    using valid by (simp add: printers_ok_def valid_printers_def sv)
  show ?thesis using save_printer_valid [OF run ok] run \<open>r = _\<close> by (simp add: id sv)
qed


text \<open>The scan skips job files it cannot read. If one read fails at that moment, a printer whose job
  is waiting passes the check and is replaced.\<close>

definition unreadable_world :: world where
  "unreadable_world = (world_with [(JobFile 7, Doc (DJob (sample_job Queued)))])
     \<lparr>w_env := calm_env\<lparr>env_fs := \<lambda>n. if n = 2 then Some (''Too many open files'', False) else None\<rparr>\<rparr>"

lemma open_job_overlooked:
  "jobs_of unreadable_world 7 = Some (sample_job Queued) \<and> is_open_job ''p'' (sample_job Queued) \<and>
     fst (open_jobs_check True ''p'' unreadable_world) = Inr ()"
proof -
  have "fst (has_open_jobs ''p'' unreadable_world) = Inr False"
    by (simp add: has_open_jobs_def for_jobs_def read_jobs_dir_def unreadable_world_def read_json_def read_doc_def run_defs)
  then have "fst (open_jobs_check True ''p'' unreadable_world) = Inr ()"
    by (cases "has_open_jobs ''p'' unreadable_world") (simp add: open_jobs_check_def)
  then show ?thesis
    by (simp add: unreadable_world_def jobs_of_def lookup_def world_with_def is_open_job_def is_open_state_def sample_job_def)
qed

end
