(* ===== verification/Contracts.thy ===== *)
theory Contracts
  imports Api System
begin

text \<open>
  What the API relies on when it asks the thread of a printer, as an interface: the handlers are
  clients of \<open>ask\<close>, the loop of \<open>src/worker.rs\<close> provides it.
\<close>

section \<open>The contract of a thread\<close>

text \<open>A thread acknowledges a cancellation only if the job waited in its queue and is stored as
  cancelled now, and it changes no other job then.\<close>

locale thread_contract =
  fixes ask :: asking and waiting :: "string \<Rightarrow> uuid set"
  assumes cancels: "jobs_keyed w \<Longrightarrow> ask pid (Cancel jid) w = (Inr a, w') \<Longrightarrow>
      jid \<in> waiting pid \<and> (\<exists>j. jobs_of w' jid = Some j \<and> job_id j = jid \<and> job_state j = Cancelled) \<and>
      (\<forall>i. i \<noteq> jid \<longrightarrow> jobs_of w' i = jobs_of w i)"
begin

lemma cancel_answer:
  assumes "v2_cancel_job ask sv jid hs w = (Inr v, w')" and "jobs_keyed w"
  shows "authorized (sv_config sv) hs PrintScope \<and>
     (\<exists>i j. jobs_of w jid = Some i \<and> jid \<in> waiting (job_printer_id i) \<and> jobs_of w' jid = Some j \<and>
        job_id j = jid \<and> job_state j = Cancelled \<and> v = v2_job_value j) \<and>
     (\<forall>k. k \<noteq> jid \<longrightarrow> jobs_of w' k = jobs_of w k)"
proof -
  obtain i w1 a w2 j where auth: "v2_authorize (sv_config sv) hs PrintScope = Inr ()"
      and l1: "load_job jid w = (Inr i, w1)" and ak: "ask (job_printer_id i) (Cancel jid) w1 = (Inr a, w2)"
      and l2: "load_job jid w2 = (Inr j, w')" and v: "v = v2_job_value j"
    using assms(1) by (auto simp: v2_cancel_job_def bindE_Inr_iff)
  have w1: "jobs_of w1 = jobs_of w" "jobs_of w' = jobs_of w2" using load_job_world l1 l2 by blast+
  then have "jobs_keyed w1" using assms(2) by (simp add: jobs_keyed_def)
  note c = cancels [OF this ak]
  have "jobs_of w2 jid = Some j" using load_job_Inr [OF l2] .
  moreover from c this have "job_id j = jid" "job_state j = Cancelled" by auto
  moreover have "authorized (sv_config sv) hs PrintScope" using auth by (simp add: v2_authorize_def split: if_splits)
  ultimately show ?thesis using c w1 load_job_Inr [OF l1] v by auto
qed

end

section \<open>The threads of the service\<close>

text \<open>\<open>try_send\<close> and the answer on the reply channel, where the thread takes the command at
  once. A command that the thread never finishes is answered only when its end closes the
  channel; what it had done until then is not shown here.\<close>

definition ask_thread :: "(string \<Rightarrow> bool) \<Rightarrow> service \<Rightarrow> asking" where
  "ask_thread full sv pid c w =
     (if full pid then (Inl ''worker_queue_full'', w)
      else case sv_workers sv pid of
        None \<Rightarrow> (Inl ''worker_stopped'', w)
      | Some (x, wk) \<Rightarrow>
          (case handle x c wk w of
             None \<Rightarrow> (Inl ''worker_stopped'', w)
           | Some (r, _, w) \<Rightarrow> (r, w)))"

definition waiting_at :: "service \<Rightarrow> string \<Rightarrow> uuid set" where
  "waiting_at sv pid = (case sv_workers sv pid of None \<Rightarrow> {} | Some (x, wk) \<Rightarrow> set (wk_queue wk))"

interpretation asked: thread_contract "ask_thread full sv" "waiting_at sv"
proof
  fix w pid jid a w'
  assume keyed: "jobs_keyed w" and ak: "ask_thread full sv pid (Cancel jid) w = (Inr a, w')"
  then obtain x wk wk' where wk: "sv_workers sv pid = Some (x, wk)" and h: "handle_cancel x jid wk w = (Inr a, wk', w')"
    by (auto simp: ask_thread_def split: if_splits option.splits prod.splits)
  from h show "jid \<in> waiting_at sv pid \<and> (\<exists>j. jobs_of w' jid = Some j \<and> job_id j = jid \<and> job_state j = Cancelled) \<and>
      (\<forall>i. i \<noteq> jid \<longrightarrow> jobs_of w' i = jobs_of w i)"
  proof (cases rule: cancel_cases)
    case (cancelled j at)
    moreover from this keyed have "job_id j = jid" by (simp add: jobs_keyed_def)
    ultimately show ?thesis using wk by (simp add: waiting_at_def)
  qed simp_all
qed

text \<open>The hand-over of a job writes the queue of the printer and no job.\<close>

definition enqueue_thread :: "(string \<Rightarrow> bool) \<Rightarrow> service \<Rightarrow> string \<Rightarrow> uuid \<Rightarrow> world \<Rightarrow> (string + unit) \<times> world" where
  "enqueue_thread full sv pid jid w = apfst (map_sum id (\<lambda>_. ())) (ask_thread full sv pid (Enqueue jid) w)"

lemma handle_enqueue_jobs: "handle_enqueue x jid wk w = (r, wk', w') \<Longrightarrow> jobs_of w' = jobs_of w"
  by (auto simp: handle_enqueue_def Let_def jobs_of_save_queue split: prod.splits sum.splits)

lemma enqueue_thread_queues_nothing: "queued_ids (snd (enqueue_thread full sv pid jid w)) \<subseteq> queued_ids w"
proof -
  have "jobs_of (snd (enqueue_thread full sv pid jid w)) = jobs_of w"
    by (auto simp: enqueue_thread_def ask_thread_def dest: handle_enqueue_jobs split: option.split prod.split)
  then show ?thesis by (simp add: queued_ids_def)
qed

text \<open>C23: a client that is told its job is cancelled can rely on it: the request carried a token
  of the print scope, the job was waiting in the queue of its printer, it is stored as
  cancelled, so that no later turn prints it, the answer shows that state, and no other job
  changed.\<close>

theorem cancel_request_final:
  assumes "v2_cancel_job (ask_thread full sv) sv jid hs w = (Inr v, w')" and "jobs_keyed w"
  shows "authorized (sv_config sv) hs PrintScope \<and> vj_state v = ''cancelled'' \<and> vj_id v = jid \<and>
     (\<exists>i. jobs_of w jid = Some i \<and> jid \<in> waiting_at sv (job_printer_id i)) \<and> closed w' jid \<and>
     (\<forall>k. k \<noteq> jid \<longrightarrow> jobs_of w' k = jobs_of w k)"
  using asked.cancel_answer [OF assms] by (auto simp: v2_job_value_def closed_def)

lemma sample_cancel:
  "\<exists>v w'. v2_cancel_job (ask_thread (\<lambda>_. False) (sample_service\<lparr>sv_workers := [''p'' \<mapsto> (sample_context, sample_worker [7] True)]\<rparr>))
     (sample_service\<lparr>sv_workers := [''p'' \<mapsto> (sample_context, sample_worker [7] True)]\<rparr>) 7 print_headers queued_world = (Inr v, w')"
proof -
  let ?sv = "sample_service\<lparr>sv_workers := [''p'' \<mapsto> (sample_context, sample_worker [7] True)]\<rparr>"
  have job: "jobs_of queued_world 7 = Some (sample_job Queued)" by (simp add: queued_world_jobs)
  obtain w1 where l1: "load_job 7 queued_world = (Inr (sample_job Queued), w1)"
    using load_job_quiet [OF _ job] by (cases "load_job 7 queued_world") auto
  have f1: "only_files {} queued_world w1" using only_files_loads(1) [of "{}" queued_world 7] l1 by simp
  then have "tidy queued_world w1" by (rule tidy_only_files) simp
  then have q1: "quiet w1" "no_tmp w1" by (simp_all add: tidy_def)
  have same: "jobs_of w1 = jobs_of queued_world" by (rule only_files_jobs [OF f1]) simp
  have keyed: "jobs_keyed w1" using same queued_world_simps(3) by (simp add: jobs_keyed_def)
  have "sound_queue ''p'' (sample_worker [7] True) w1"
    by (rule sound_queue_cong [OF sample_sound keyed]) (simp add: same)
  then obtain wk' w2 where h: "handle_cancel sample_context 7 (sample_worker [7] True) w1 = (Inr Acknowledged, wk', w2)"
    using cancel_quiet [OF q1, of sample_context "sample_worker [7] True" 7] by auto
  have q2: "quiet w2" by (rule quiet_only_files [OF q1(1) cancel_files [OF h]])
  from keyed obtain j where j: "jobs_of w2 7 = Some j"
    using asked.cancels [of w1 "\<lambda>_. False" ?sv "''p''" 7 Acknowledged w2] h by (auto simp: ask_thread_def)
  then obtain w3 where l2: "load_job 7 w2 = (Inr j, w3)"
    using load_job_quiet [OF q2 j] by (cases "load_job 7 w2") auto
  show ?thesis
    using l1 h l2 by (simp add: v2_cancel_job_def v2_authorize_def v2_find_worker_def ask_thread_def sample_job_def)
qed

theorem cancel_request_final_witness:
  "\<exists>v w'. v2_cancel_job (ask_thread (\<lambda>_. False) (sample_service\<lparr>sv_workers := [''p'' \<mapsto> (sample_context, sample_worker [7] True)]\<rparr>))
       (sample_service\<lparr>sv_workers := [''p'' \<mapsto> (sample_context, sample_worker [7] True)]\<rparr>) 7 print_headers queued_world = (Inr v, w') \<and>
     vj_state v = ''cancelled'' \<and> closed w' 7"
proof -
  from sample_cancel obtain v w' where run: "v2_cancel_job (ask_thread (\<lambda>_. False) (sample_service\<lparr>sv_workers := [''p'' \<mapsto> (sample_context, sample_worker [7] True)]\<rparr>))
       (sample_service\<lparr>sv_workers := [''p'' \<mapsto> (sample_context, sample_worker [7] True)]\<rparr>) 7 print_headers queued_world = (Inr v, w')"
    by blast
  from cancel_request_final [OF this] run show ?thesis by auto
qed

end
