(* ===== verification/Spec2Isabelle.thy ===== *)
theory Spec2Isabelle
  imports Requests Printers Contracts
begin

text \<open>
  ZebraTamer: a print service for Zebra label printers, written in Rust. One process owns a
  data directory, runs one thread per printer, and offers an HTTP interface on which jobs
  are submitted and printers administered. This library models the service and shows that
  it does not lose, duplicate or mix up labels, that its accounting of the loaded media is
  exact, and that its interfaces do what they promise, whatever the file system, the clock
  and the printers do.

  \<^bold>\<open>Parts of the program and where they are modelled.\<close>

  \<^item> Vocabulary. \<open>Prelude\<close>: machine integers as words (\<open>u8\<close> to \<open>u64\<close>, \<open>i64\<close>, \<open>usize\<close>),
    saturating and checked arithmetic, \<open>bindE\<close> (Rust's question mark over a state), and the
    locale \<open>respected\<close>: a preorder on worlds that every operation of a component respects.
    \<open>Rust_Text\<close>: the string library the code uses, on bytes.
  \<^item> Data (\<open>src/model.rs\<close>, with the data types of \<open>src/config.rs\<close> and \<open>src/device.rs\<close>):
    \<open>Data_Model\<close>. Times are integers, \<open>f64\<close> is its 64 bits, JSON values are a datatype.
  \<^item> File primitives and the store (\<open>src/persist.rs\<close>): \<open>Storage\<close> and \<open>Store\<close>. A \<open>world\<close> is a
    map from paths to contents with an environment: for every call, numbered by \<open>w_tick\<close>, the
    environment says whether it fails (and whether a failing write is torn), what the clock
    shows, and what each printer does. \<open>atomic_json\<close>, \<open>append_ndjson\<close>, \<open>read_ndjson_page\<close>, the
    job, queue, media and event files and the scans over all jobs follow the code call by
    call. \<open>Lifecycle\<close> abstracts the directory to the jobs it holds and to the moves a job may
    make; \<open>Recovery\<close> shows what \<open>recover_jobs\<close> does.
  \<^item> Media accounting (\<open>src/media.rs\<close>, the debits of \<open>src/worker.rs\<close> and
    \<open>apply_boot_accounting\<close> of \<open>src/main.rs\<close>): \<open>Media\<close>.
  \<^item> Transports (\<open>src/transport.rs\<close>): \<open>Transport\<close>, with \<open>Transport_Props\<close>. TCP, character
    device and USB bulk; the bytes that reach a printer are the list \<open>w_wire\<close>.
  \<^item> Delivery (\<open>process_job\<close> of \<open>src/worker.rs\<close>): \<open>Delivery\<close>. Device settings (\<open>src/device.rs\<close>):
    \<open>Device\<close>, \<open>Device_Sample\<close>. Probe of a printer (\<open>src/worker.rs\<close>): \<open>Probe\<close>.
  \<^item> The thread of a printer (\<open>spawn\<close> and \<open>run\<close> of \<open>src/worker.rs\<close>): \<open>Worker\<close>, one function per
    turn of the loop; \<open>Worker_Queue\<close> and \<open>Worker_Drain\<close> hold what its queue promises.
  \<^item> Drivers and hexadecimal encoding (\<open>src/driver.rs\<close>, \<open>src/hash.rs\<close>): \<open>Driver\<close>. Print requests
    of protocol version 2 (\<open>src/protocol_v2.rs\<close>): \<open>Protocol\<close>.
  \<^item> Configuration (\<open>src/config.rs\<close>): \<open>Settings\<close>. Bearer tokens (\<open>src/webui.rs\<close>) and the guards of
    the API: \<open>Access\<close>.
  \<^item> Start of the service (\<open>src/main.rs\<close>, \<open>open_exclusive\<close>): \<open>Startup\<close>, \<open>Startup_Recovery\<close>.
  \<^item> Submission of jobs (\<open>create_job\<close> and \<open>v2_create_job\<close> of \<open>src/api.rs\<close>): \<open>Submission\<close>,
    \<open>Submission_Props\<close>, \<open>Admission\<close>, \<open>Admission_Results\<close>, \<open>Idempotency\<close>, \<open>Acceptance\<close>; concrete
    requests in \<open>Submission_Sample\<close>.
  \<^item> The other handlers of \<open>src/api.rs\<close>: \<open>Api\<close>, with \<open>Printers\<close> for the replacement of a printer and
    \<open>Contracts\<close> for what the handlers rely on when they ask a thread. \<open>Pages\<close>: what the service
    says of itself. \<open>Router\<close>: all routes with their guards; \<open>Requests\<close>: what reading requests do.
  \<^item> The metrics page (\<open>src/metrics.rs\<close>): \<open>Metrics\<close>. DNS-SD (\<open>src/mdns.rs\<close>): \<open>Discovery\<close>. The arguments of
    \<open>main\<close>, the health check and the timers (\<open>src/main.rs\<close>): \<open>Launch\<close>.
  \<^item> The service as a whole: \<open>System\<close>, a step relation in which the turns of all threads,
    submissions, the closing of refused jobs, and ends and starts of the process interleave;
    the replacement of a printer is not one of its steps.

  \<^bold>\<open>What is shown.\<close> \<open>System\<close>: a job is printed in at most one turn of its life, whatever is
  interleaved, fails or restarts, and the waiting jobs stay in order and on disk (as long as
  no printer is replaced). \<open>Worker_Queue\<close>
  and \<open>Worker_Drain\<close>: a thread refines an abstract queue, a cancelled job is never sent, a queue
  is drained. \<open>Delivery\<close> and \<open>Transport_Props\<close>: the final state of a job tells what the printer
  received. \<open>Submission_Props\<close> to \<open>Acceptance\<close>: what an accepted submission has stored, when it is
  accepted, that a refused one leaves nothing to print, that a key names one job while the
  files can be read. \<open>Media\<close>: the
  accounting balances. \<open>Device\<close>, \<open>Probe\<close>: nothing is made permanent before a readback agrees, a probe only asks and
  succeeds exactly if it is answered.
  \<open>Driver\<close>: a printer that reads the encoded page prints every dot of the image and no other.
  \<open>Protocol\<close>, \<open>Settings\<close>, \<open>Access\<close>: encoders, validators and tokens agree with declarative
  specifications. \<open>Startup_Recovery\<close>: a restart brings back exactly the waiting jobs. \<open>Router\<close>,
  \<open>Requests\<close>, \<open>Printers\<close>, \<open>Contracts\<close>: guards, reads and administration. \<open>Metrics\<close>: the page can be
  read back. \<open>Discovery\<close>: announcements are well-formed and distinct.

  \<^bold>\<open>Interfaces\<close> are locales: \<open>respected\<close> (a preorder on worlds), \<open>codec\<close> (a round trip), \<open>doc_store\<close> (a
  file that is replaced atomically), \<open>byte_sink\<close> and \<open>willing_sink\<close> (what a device does with bytes),
  \<open>label_debit\<close>, \<open>job_kind\<close> and \<open>v2_kind\<close> (what a submission may make of its job) and
  \<open>thread_contract\<close> (what the API relies on); every one is interpreted on the
  definitions of the model that provide it.

  \<^bold>\<open>Third-party code\<close> is a parameter: the numeric functions of the platform (\<open>numeric\<close>), the
  codecs (PNG, JSON, base64, SHA-256; the record \<open>codecs\<close>), the digest of a media definition, the
  mDNS daemon, and TOML parsing. No property assumes more of them than it states.

  \<^bold>\<open>Bounds and fuel.\<close> No definition of the program runs on fuel. Loops are structural, or recursive
  with a measure; the loops that the environment may keep running for ever are
  \<open>partial_function (option)\<close>, where \<open>None\<close> is a run that does not return.

  \<^bold>\<open>Granularity.\<close> An operation that the code runs inside one thread, or under a lock, is one
  function. A handler of the API is one function from the world it starts in; in \<open>System\<close> a
  submission is admitted in one step and handed over, and a refused hand-over is closed in a
  later one. An end of the process inside a step is the step in which every further call
  fails, which the environment may choose.

  \<^bold>\<open>Not modelled.\<close> Decoding of requests and encoding of answers, body limits and routing of
  unknown paths are the work of the framework (\<open>Router\<close> has what a request it cannot decode
  leads to, and where the checks of the token stand); logging and signal handling have no state. The
  replacement of a printer while the service runs is modelled (\<open>Printers\<close>) but is not a step of
  \<open>System\<close>: a handler that has fetched the handle of the old thread may still hand a job to it.
  The assets of the web interface and the release scripts are in other languages.
\<close>

end
